(* ===== verification/Prelude.thy ===== *)
theory Prelude
  imports Main "HOL-Library.AList" "HOL-Library.Word" "HOL-Library.Sublist"
    "HOL-Library.Char_ord" "HOL-Library.List_Lexorder"
begin

text \<open>
  What every component of ttygate shares: Rust's \<open>Result\<close> as a sum, byte strings and UTF-8 text,
  the string operations of the standard library that the sources call, the standard hash map as
  an association list behind the interface \<open>kv_store\<close>, and the two contracts that several state
  machines of the program keep (\<open>safety_system\<close>, an invariant over every run, and
  \<open>sticky_cell\<close>, a value that is written once).

  Conventions: \<open>Err e\<close> is \<open>Inl e\<close> and \<open>Ok x\<close> is \<open>Inr x\<close>; a byte is a \<open>char\<close> and a Rust
  \<open>&[u8]\<close>, \<open>&str\<close> or \<open>String\<close> is the \<open>string\<close> of its bytes (a \<open>str\<close> is one that decodes as
  UTF-8); \<open>Instant\<close> and \<open>Duration\<close> are natural numbers of nanoseconds; \<open>u8\<close> to \<open>u64\<close> are words.
\<close>

named_theorems result_simps \<open>case analysis of Result values\<close>
named_theorems step_simps \<open>unfolding of the operations of a component\<close>

type_synonym bytes = string
type_synonym instant = nat
type_synonym duration = nat
type_synonym u8 = "8 word"
type_synonym u16 = "16 word"
type_synonym u32 = "32 word"
type_synonym u64 = "64 word"

subsection \<open>Result\<close>

definition and_then :: "'e + 'a \<Rightarrow> ('a \<Rightarrow> 'e + 'b) \<Rightarrow> 'e + 'b" where
  "and_then r f = (case r of Inl e \<Rightarrow> Inl e | Inr x \<Rightarrow> f x)"

definition map_err :: "('e \<Rightarrow> 'f) \<Rightarrow> 'e + 'a \<Rightarrow> 'f + 'a" where
  "map_err f r = (case r of Inl e \<Rightarrow> Inl (f e) | Inr x \<Rightarrow> Inr x)"

definition map_ok :: "('a \<Rightarrow> 'b) \<Rightarrow> 'e + 'a \<Rightarrow> 'e + 'b" where
  "map_ok f r = (case r of Inl e \<Rightarrow> Inl e | Inr x \<Rightarrow> Inr (f x))"

definition ok_or :: "'e \<Rightarrow> 'a option \<Rightarrow> 'e + 'a" where
  "ok_or e m = (case m of None \<Rightarrow> Inl e | Some x \<Rightarrow> Inr x)"

text \<open>The early return \<open>if c { return Err(e); }\<close>.\<close>

definition fail_if :: "bool \<Rightarrow> 'e \<Rightarrow> 'e + unit" where
  "fail_if c e = (if c then Inl e else Inr ())"

definition is_ok :: "'e + 'a \<Rightarrow> bool" where
  "is_ok r = (case r of Inl _ \<Rightarrow> False | Inr _ \<Rightarrow> True)"

text \<open>\<open>iter().map(f).collect::<Result<Vec<_>, _>>()\<close> stops at the first error.\<close>

fun collect_results :: "('a \<Rightarrow> 'e + 'b) \<Rightarrow> 'a list \<Rightarrow> 'e + 'b list" where
  "collect_results f [] = Inr []"
| "collect_results f (x # xs) =
     and_then (f x) (\<lambda>y. map_ok (Cons y) (collect_results f xs))"

text \<open>A \<open>for\<close> loop whose body may return an error.\<close>

fun for_each :: "('a \<Rightarrow> 'e + unit) \<Rightarrow> 'a list \<Rightarrow> 'e + unit" where
  "for_each f [] = Inr ()"
| "for_each f (x # xs) = and_then (f x) (\<lambda>_. for_each f xs)"

lemma and_then_Inl [simp, result_simps]: "and_then (Inl e) f = Inl e"
  by (simp add: and_then_def)

lemma and_then_Inr [simp, result_simps]: "and_then (Inr x) f = f x"
  by (simp add: and_then_def)

lemma and_then_eq_Inr [simp, result_simps]:
  "and_then r f = Inr y \<longleftrightarrow> (\<exists>x. r = Inr x \<and> f x = Inr y)"
  by (cases r) auto

lemma and_then_eq_Inl [result_simps]:
  "and_then r f = Inl e \<longleftrightarrow> r = Inl e \<or> (\<exists>x. r = Inr x \<and> f x = Inl e)"
  by (cases r) auto

lemma map_err_simps [simp, result_simps]:
  "map_err f (Inl e) = Inl (f e)" "map_err f (Inr x) = Inr x"
  by (simp_all add: map_err_def)

lemma map_err_eq_Inr [simp, result_simps]: "map_err f r = Inr y \<longleftrightarrow> r = Inr y"
  by (cases r) auto

lemma map_err_eq_Inl [result_simps]: "map_err f r = Inl e \<longleftrightarrow> (\<exists>d. r = Inl d \<and> f d = e)"
  by (cases r) auto

lemma map_ok_simps [simp, result_simps]:
  "map_ok f (Inl e) = Inl e" "map_ok f (Inr x) = Inr (f x)"
  by (simp_all add: map_ok_def)

lemma map_ok_eq_Inr [simp, result_simps]: "map_ok f r = Inr y \<longleftrightarrow> (\<exists>x. r = Inr x \<and> y = f x)"
  by (cases r) auto

lemma map_ok_eq_Inl [simp, result_simps]: "map_ok f r = Inl e \<longleftrightarrow> r = Inl e"
  by (cases r) auto

lemma ok_or_simps [simp, result_simps]: "ok_or e None = Inl e" "ok_or e (Some x) = Inr x"
  by (simp_all add: ok_or_def)

lemma ok_or_eq_Inr [simp, result_simps]: "ok_or e m = Inr x \<longleftrightarrow> m = Some x"
  by (cases m) auto

lemma ok_or_eq_Inl [simp, result_simps]: "ok_or e m = Inl d \<longleftrightarrow> m = None \<and> d = e"
  by (cases m) auto

lemma fail_if_simps [simp, result_simps]:
  "fail_if True e = Inl e" "fail_if False e = Inr ()"
  by (simp_all add: fail_if_def)

lemma fail_if_eq_Inr [simp, result_simps]: "fail_if c e = Inr u \<longleftrightarrow> \<not> c"
  by (cases c) auto

lemma fail_if_eq_Inl [simp, result_simps]: "fail_if c e = Inl d \<longleftrightarrow> c \<and> d = e"
  by (cases c) auto

lemma is_ok_simps [simp]: "is_ok (Inl e) = False" "is_ok (Inr x) = True"
  by (simp_all add: is_ok_def)

lemma is_ok_iff: "is_ok r \<longleftrightarrow> (\<exists>x. r = Inr x)"
  by (cases r) auto

lemma for_each_ok: "for_each f xs = Inr u \<longleftrightarrow> (\<forall>x \<in> set xs. f x = Inr ())"
  by (induction xs) auto

lemma for_each_is_ok: "is_ok (for_each f xs) \<longleftrightarrow> (\<forall>x \<in> set xs. is_ok (f x))"
  by (auto simp: is_ok_iff for_each_ok)

lemma collect_results_ok:
  "collect_results f xs = Inr ys \<longleftrightarrow>
     length ys = length xs \<and> (\<forall>i < length xs. f (xs ! i) = Inr (ys ! i))"
proof (induction xs arbitrary: ys)
  case Nil
  then show ?case by auto
next
  case (Cons x xs)
  show ?case
    by (cases ys) (auto simp: Cons.IH nth_Cons split: nat.splits)
qed

subsection \<open>Bytes and ASCII\<close>

abbreviation ord :: "char \<Rightarrow> nat" where
  "ord c \<equiv> of_char c"

definition is_ascii_digit :: "char \<Rightarrow> bool" where
  "is_ascii_digit c \<longleftrightarrow> 48 \<le> ord c \<and> ord c \<le> 57"

definition is_ascii_lowercase :: "char \<Rightarrow> bool" where
  "is_ascii_lowercase c \<longleftrightarrow> 97 \<le> ord c \<and> ord c \<le> 122"

definition is_ascii_uppercase :: "char \<Rightarrow> bool" where
  "is_ascii_uppercase c \<longleftrightarrow> 65 \<le> ord c \<and> ord c \<le> 90"

definition is_ascii_alphanumeric :: "char \<Rightarrow> bool" where
  "is_ascii_alphanumeric c \<longleftrightarrow> is_ascii_digit c \<or> is_ascii_lowercase c \<or> is_ascii_uppercase c"

definition is_ascii_control :: "nat \<Rightarrow> bool" where
  "is_ascii_control n \<longleftrightarrow> n < 32 \<or> n = 127"

definition is_ascii :: "string \<Rightarrow> bool" where
  "is_ascii s \<longleftrightarrow> list_all (\<lambda>c. ord c < 128) s"

definition ascii_lower :: "char \<Rightarrow> char" where
  "ascii_lower c = (if is_ascii_uppercase c then char_of (ord c + 32) else c)"

definition to_ascii_lowercase :: "string \<Rightarrow> string" where
  "to_ascii_lowercase s = map ascii_lower s"

definition eq_ignore_ascii_case :: "string \<Rightarrow> string \<Rightarrow> bool" where
  "eq_ignore_ascii_case a b \<longleftrightarrow> to_ascii_lowercase a = to_ascii_lowercase b"

lemmas ascii_defs = is_ascii_digit_def is_ascii_lowercase_def is_ascii_uppercase_def
  is_ascii_alphanumeric_def

lemma ord_less_256 [simp]: "ord c < 256"
  by (rule nat_of_char_less_256)

lemma ord_inject: "ord c = ord d \<longleftrightarrow> c = d"
  by (rule of_char_eq_iff)

lemma ascii_lower_idem [simp]: "ascii_lower (ascii_lower c) = ascii_lower c"
  by (auto simp: ascii_lower_def is_ascii_uppercase_def)

lemma to_ascii_lowercase_idem [simp]:
  "to_ascii_lowercase (to_ascii_lowercase s) = to_ascii_lowercase s"
  by (simp add: to_ascii_lowercase_def)

lemma length_to_ascii_lowercase [simp]: "length (to_ascii_lowercase s) = length s"
  by (simp add: to_ascii_lowercase_def)

lemma ascii_lower_eq_iff_small:
  "ord d < 65 \<Longrightarrow> ascii_lower c = d \<longleftrightarrow> c = d"
  by (auto simp: ascii_lower_def is_ascii_uppercase_def)

lemma ascii_lower_alphanumeric [simp]:
  "is_ascii_alphanumeric (ascii_lower c) = is_ascii_alphanumeric c"
  by (auto simp: ascii_lower_def ascii_defs)

lemma ascii_lower_not_upper [simp]: "\<not> is_ascii_uppercase (ascii_lower c)"
  by (auto simp: ascii_lower_def is_ascii_uppercase_def)

subsection \<open>UTF-8\<close>

text \<open>
  \<open>std::str::from_utf8\<close>: the code points of a byte string, or why it is not UTF-8.
  \<open>Utf8Incomplete\<close> is the error whose \<open>error_len()\<close> is \<open>None\<close> (the input ends inside a
  character that is valid so far), \<open>Utf8Invalid\<close> the one whose \<open>error_len()\<close> is \<open>Some\<close>.
\<close>

datatype utf8_error = Utf8Incomplete | Utf8Invalid

definition continuation :: "char \<Rightarrow> bool" where
  "continuation c \<longleftrightarrow> 128 \<le> ord c \<and> ord c \<le> 191"

text \<open>The range the second byte must have after each first byte of three or four.\<close>

definition second_of_three :: "nat \<Rightarrow> char \<Rightarrow> bool" where
  "second_of_three a c \<longleftrightarrow>
     (if a = 224 then 160 \<le> ord c \<and> ord c \<le> 191
      else if a = 237 then 128 \<le> ord c \<and> ord c \<le> 159
      else continuation c)"

definition second_of_four :: "nat \<Rightarrow> char \<Rightarrow> bool" where
  "second_of_four a c \<longleftrightarrow>
     (if a = 240 then 144 \<le> ord c \<and> ord c \<le> 191
      else if a = 244 then 128 \<le> ord c \<and> ord c \<le> 143
      else continuation c)"

fun from_utf8 :: "bytes \<Rightarrow> utf8_error + nat list" where
  "from_utf8 [] = Inr []"
| "from_utf8 (a # s) =
     (if ord a < 128 then map_ok (Cons (ord a)) (from_utf8 s)
      else if 194 \<le> ord a \<and> ord a \<le> 223 then
        (case s of [] \<Rightarrow> Inl Utf8Incomplete
         | b # t \<Rightarrow>
           if \<not> continuation b then Inl Utf8Invalid
           else map_ok (Cons ((ord a - 192) * 64 + (ord b - 128))) (from_utf8 t))
      else if 224 \<le> ord a \<and> ord a \<le> 239 then
        (case s of [] \<Rightarrow> Inl Utf8Incomplete
         | b # t \<Rightarrow>
           if \<not> second_of_three (ord a) b then Inl Utf8Invalid
           else (case t of [] \<Rightarrow> Inl Utf8Incomplete
             | c # u \<Rightarrow>
               if \<not> continuation c then Inl Utf8Invalid
               else map_ok (Cons ((ord a - 224) * 4096 + (ord b - 128) * 64 + (ord c - 128)))
                      (from_utf8 u)))
      else if 240 \<le> ord a \<and> ord a \<le> 244 then
        (case s of [] \<Rightarrow> Inl Utf8Incomplete
         | b # t \<Rightarrow>
           if \<not> second_of_four (ord a) b then Inl Utf8Invalid
           else (case t of [] \<Rightarrow> Inl Utf8Incomplete
             | c # u \<Rightarrow>
               if \<not> continuation c then Inl Utf8Invalid
               else (case u of [] \<Rightarrow> Inl Utf8Incomplete
                 | d # v \<Rightarrow>
                   if \<not> continuation d then Inl Utf8Invalid
                   else map_ok (Cons ((ord a - 240) * 262144 + (ord b - 128) * 4096
                                      + (ord c - 128) * 64 + (ord d - 128))) (from_utf8 v))))
      else Inl Utf8Invalid)"

definition is_str :: "bytes \<Rightarrow> bool" where
  "is_str s \<longleftrightarrow> is_ok (from_utf8 s)"

text \<open>\<open>str::chars\<close>, on a byte string that is a \<open>str\<close>.\<close>

definition chars :: "string \<Rightarrow> nat list" where
  "chars s = (case from_utf8 s of Inl _ \<Rightarrow> [] | Inr cs \<Rightarrow> cs)"

definition utf8_char :: "nat \<Rightarrow> bytes" where
  "utf8_char n =
     (if n < 128 then [char_of n]
      else if n < 2048 then [char_of (192 + n div 64), char_of (128 + n mod 64)]
      else if n < 65536 then
        [char_of (224 + n div 4096), char_of (128 + n div 64 mod 64), char_of (128 + n mod 64)]
      else [char_of (240 + n div 262144), char_of (128 + n div 4096 mod 64),
            char_of (128 + n div 64 mod 64), char_of (128 + n mod 64)])"

definition utf8_bytes :: "nat list \<Rightarrow> bytes" where
  "utf8_bytes cs = concat (map utf8_char cs)"

definition is_scalar :: "nat \<Rightarrow> bool" where
  "is_scalar n \<longleftrightarrow> n < 55296 \<or> (57344 \<le> n \<and> n < 1114112)"

text \<open>\<open>char::is_control\<close> (category Cc) and \<open>char::is_whitespace\<close> (property White\_Space).\<close>

definition is_control :: "nat \<Rightarrow> bool" where
  "is_control n \<longleftrightarrow> n < 32 \<or> (127 \<le> n \<and> n < 160)"

definition is_whitespace :: "nat \<Rightarrow> bool" where
  "is_whitespace n \<longleftrightarrow> (9 \<le> n \<and> n \<le> 13) \<or> n = 32 \<or> n = 133 \<or> n = 160 \<or> n = 5760
     \<or> (8192 \<le> n \<and> n \<le> 8202) \<or> n = 8232 \<or> n = 8233 \<or> n = 8239 \<or> n = 8287 \<or> n = 12288"

lemma from_utf8_ascii: "is_ascii s \<Longrightarrow> from_utf8 s = Inr (map ord s)"
  by (induction s) (auto simp: is_ascii_def)

lemma chars_ascii: "is_ascii s \<Longrightarrow> chars s = map ord s"
  by (simp add: chars_def from_utf8_ascii)

lemma is_ascii_is_str: "is_ascii s \<Longrightarrow> is_str s"
  by (simp add: is_str_def from_utf8_ascii)

lemma ord_char_of: "n < 256 \<Longrightarrow> ord (char_of n) = n"
  by simp

lemma from_utf8_two:
  assumes "2 \<le> p" "p < 32" "q < 64"
  shows "from_utf8 (char_of (192 + p) # char_of (128 + q) # s) = map_ok (Cons (p * 64 + q)) (from_utf8 s)"
  using assms by (simp add: ord_char_of continuation_def del: of_char_of)

lemma from_utf8_three:
  assumes "p < 16" "q < 64" "r < 64" "p = 0 \<Longrightarrow> 32 \<le> q" "p = 13 \<Longrightarrow> q < 32"
  shows "from_utf8 (char_of (224 + p) # char_of (128 + q) # char_of (128 + r) # s) =
    map_ok (Cons (p * 4096 + q * 64 + r)) (from_utf8 s)"
proof -
  have "second_of_three (224 + p) (char_of (128 + q))"
    using assms by (auto simp: second_of_three_def continuation_def ord_char_of simp del: of_char_of)
  then show ?thesis
    using assms(1-3) by (simp add: ord_char_of continuation_def del: of_char_of)
qed

lemma from_utf8_four:
  assumes "p < 5" "q < 64" "r < 64" "t < 64" "p = 0 \<Longrightarrow> 16 \<le> q" "p = 4 \<Longrightarrow> q < 16"
  shows "from_utf8 (char_of (240 + p) # char_of (128 + q) # char_of (128 + r) # char_of (128 + t) # s) =
    map_ok (Cons (p * 262144 + q * 4096 + r * 64 + t)) (from_utf8 s)"
proof -
  have "second_of_four (240 + p) (char_of (128 + q))"
    using assms by (auto simp: second_of_four_def continuation_def ord_char_of simp del: of_char_of)
  then show ?thesis
    using assms(1-4) by (simp add: ord_char_of continuation_def del: of_char_of)
qed

lemma from_utf8_char_three:
  assumes "is_scalar n" "2048 \<le> n" "n < 65536"
  shows "from_utf8 (utf8_char n @ s) = map_ok (Cons n) (from_utf8 s)"
proof -
  define m q r where "m = n div 64" and "q = m mod 64" and "r = n mod 64"
  define p where "p = m div 64"
  have n: "n = 64 * m + r" "m = 64 * p + q" "q < 64" "r < 64"
    by (simp_all add: m_def p_def q_def r_def)
  have pqr: "n div 4096 = p" "n div 64 mod 64 = q" "n mod 64 = r"
    using div_mult2_eq [of n 64 64] by (simp_all add: m_def p_def q_def r_def)
  have eq: "p * 4096 + q * 64 + r = n"
    using n by simp
  have "p < 16" "p = 0 \<Longrightarrow> 32 \<le> q" "p = 13 \<Longrightarrow> q < 32"
    using n assms unfolding is_scalar_def by linarith+
  then have "from_utf8 (char_of (224 + p) # char_of (128 + q) # char_of (128 + r) # s) =
    map_ok (Cons (p * 4096 + q * 64 + r)) (from_utf8 s)"
    using n by (intro from_utf8_three)
  with assms(2,3) eq pqr show ?thesis
    by (simp add: utf8_char_def del: from_utf8.simps)
qed

lemma from_utf8_char_four:
  assumes "is_scalar n" "65536 \<le> n"
  shows "from_utf8 (utf8_char n @ s) = map_ok (Cons n) (from_utf8 s)"
proof -
  define m q r where "m = n div 64" and "q = m mod 64" and "r = n mod 64"
  define k where "k = m div 64"
  define p t where "p = k div 64" and "t = k mod 64"
  have n: "n = 64 * m + r" "m = 64 * k + q" "k = 64 * p + t" "q < 64" "r < 64" "t < 64"
    by (simp_all add: m_def p_def q_def r_def k_def t_def)
  have pqr: "n div 262144 = p" "n div 4096 mod 64 = t" "n div 64 mod 64 = q" "n mod 64 = r"
    using div_mult2_eq [of n 64 64] div_mult2_eq [of n 4096 64]
    by (simp_all add: m_def p_def q_def r_def k_def t_def)
  have eq: "p * 262144 + t * 4096 + q * 64 + r = n"
    using n by simp
  have "p < 5" "p = 0 \<Longrightarrow> 16 \<le> t" "p = 4 \<Longrightarrow> t < 16"
    using n assms unfolding is_scalar_def by linarith+
  then have "from_utf8 (char_of (240 + p) # char_of (128 + t) # char_of (128 + q) # char_of (128 + r) # s) =
    map_ok (Cons (p * 262144 + t * 4096 + q * 64 + r)) (from_utf8 s)"
    using n by (intro from_utf8_four)
  with assms(2) eq pqr show ?thesis
    by (simp add: utf8_char_def del: from_utf8.simps)
qed

lemma from_utf8_utf8_char:
  assumes "is_scalar n"
  shows "from_utf8 (utf8_char n @ s) = map_ok (Cons n) (from_utf8 s)"
proof -
  consider (a) "n < 128" | (b) "128 \<le> n" "n < 2048" | (c) "2048 \<le> n" "n < 65536"
    | (d) "65536 \<le> n"
    by linarith
  then show ?thesis
  proof cases
    case a
    then show ?thesis by (simp add: utf8_char_def ord_char_of del: of_char_of)
  next
    case b
    then have "2 \<le> n div 64" "n div 64 < 32" "n mod 64 < 64"
      by (simp_all add: less_mult_imp_div_less le_div_geq)
    from from_utf8_two [OF this] b show ?thesis
      by (simp add: utf8_char_def del: from_utf8.simps)
  qed (use assms from_utf8_char_three from_utf8_char_four in \<open>simp_all del: from_utf8.simps\<close>)
qed

text \<open>Encoding and decoding are inverse on Unicode scalar values.\<close>

lemma from_utf8_utf8_bytes: "list_all is_scalar cs \<Longrightarrow> from_utf8 (utf8_bytes cs) = Inr cs"
  by (induction cs) (simp_all add: utf8_bytes_def from_utf8_utf8_char)

lemma is_str_utf8_bytes: "list_all is_scalar cs \<Longrightarrow> is_str (utf8_bytes cs)"
  by (simp add: is_str_def from_utf8_utf8_bytes)

subsection \<open>String operations of the standard library\<close>

text \<open>Decimal printing of an unsigned integer.\<close>

fun show_nat :: "nat \<Rightarrow> string" where
  "show_nat n =
     (if n < 10 then [char_of (48 + n)] else show_nat (n div 10) @ [char_of (48 + n mod 10)])"

declare show_nat.simps [simp del]

text \<open>\<open>str::split(c)\<close>: always at least one piece.\<close>

fun split_on :: "char \<Rightarrow> string \<Rightarrow> string list" where
  "split_on c [] = [[]]"
| "split_on c (x # s) =
     (if x = c then [] # split_on c s
      else (case split_on c s of p # ps \<Rightarrow> (x # p) # ps | [] \<Rightarrow> [[x]]))"

text \<open>\<open>str::split_once(c)\<close> and \<open>str::rsplit_once(c)\<close>: around the first and the last \<open>c\<close>.\<close>

fun split_once :: "char \<Rightarrow> string \<Rightarrow> (string \<times> string) option" where
  "split_once c [] = None"
| "split_once c (x # s) =
     (if x = c then Some ([], s) else map_option (\<lambda>(a, b). (x # a, b)) (split_once c s))"

definition rsplit_once :: "char \<Rightarrow> string \<Rightarrow> (string \<times> string) option" where
  "rsplit_once c s = map_option (\<lambda>(a, b). (rev b, rev a)) (split_once c (rev s))"

definition starts_with :: "string \<Rightarrow> string \<Rightarrow> bool" where
  "starts_with s p \<longleftrightarrow> take (length p) s = p"

definition ends_with :: "string \<Rightarrow> string \<Rightarrow> bool" where
  "ends_with s p \<longleftrightarrow> length p \<le> length s \<and> drop (length s - length p) s = p"

definition strip_prefix :: "string \<Rightarrow> string \<Rightarrow> string option" where
  "strip_prefix p s = (if starts_with s p then Some (drop (length p) s) else None)"

definition strip_suffix :: "string \<Rightarrow> string \<Rightarrow> string option" where
  "strip_suffix p s = (if ends_with s p then Some (take (length s - length p) s) else None)"

text \<open>\<open>str::trim\<close>: whitespace characters off both ends.\<close>

definition trim_chars :: "nat list \<Rightarrow> nat list" where
  "trim_chars cs = rev (dropWhile is_whitespace (rev (dropWhile is_whitespace cs)))"

definition trim :: "string \<Rightarrow> string" where
  "trim s = utf8_bytes (trim_chars (chars s))"

text \<open>\<open>[u8]::trim_ascii\<close>: ASCII whitespace (tab, line feed, form feed, return, space).\<close>

definition is_ascii_whitespace :: "char \<Rightarrow> bool" where
  "is_ascii_whitespace c \<longleftrightarrow> ord c \<in> {9, 10, 12, 13, 32}"

definition trim_ascii :: "bytes \<Rightarrow> bytes" where
  "trim_ascii s = rev (dropWhile is_ascii_whitespace (rev (dropWhile is_ascii_whitespace s)))"

lemma split_on_nonempty [simp]: "split_on c s \<noteq> []"
  by (induction s) (auto split: list.splits)

lemma split_on_no_sep: "p \<in> set (split_on c s) \<Longrightarrow> c \<notin> set p"
  by (induction s arbitrary: p) (auto split: list.splits if_splits)

lemma split_on_absent: "c \<notin> set s \<Longrightarrow> split_on c s = [s]"
  by (induction s) auto

lemma split_on_append: "c \<notin> set p \<Longrightarrow> split_on c (p @ c # s) = p # split_on c s"
  by (induction p) auto

lemma split_once_append: "c \<notin> set p \<Longrightarrow> split_once c (p @ c # s) = Some (p, s)"
  by (induction p) auto

lemma split_once_Some: "split_once c s = Some (a, b) \<longleftrightarrow> s = a @ c # b \<and> c \<notin> set a"
proof (induction s arbitrary: a)
  case (Cons x s)
  show ?case
    using Cons.IH by (cases a) auto
qed simp

lemma split_once_None: "split_once c s = None \<longleftrightarrow> c \<notin> set s"
  by (induction s) auto

lemma rsplit_once_Some: "rsplit_once c s = Some (a, b) \<longleftrightarrow> s = a @ c # b \<and> c \<notin> set b"
proof -
  have "rsplit_once c s = Some (a, b) \<longleftrightarrow> split_once c (rev s) = Some (rev b, rev a)"
    by (auto simp: rsplit_once_def)
  also have "\<dots> \<longleftrightarrow> rev s = rev b @ c # rev a \<and> c \<notin> set b"
    by (simp add: split_once_Some)
  also have "rev s = rev b @ c # rev a \<longleftrightarrow> s = a @ c # b"
    by (metis append.assoc append_Cons append_Nil rev.simps(2) rev_append rev_swap)
  finally show ?thesis .
qed

lemma starts_with_iff: "starts_with s p \<longleftrightarrow> (\<exists>t. s = p @ t)"
  unfolding starts_with_def by (metis append_eq_conv_conj append_take_drop_id)

lemma ends_with_iff: "ends_with s p \<longleftrightarrow> (\<exists>t. s = t @ p)"
proof
  assume "ends_with s p"
  then have "s = take (length s - length p) s @ p"
    unfolding ends_with_def by (metis append_take_drop_id)
  then show "\<exists>t. s = t @ p" ..
qed (auto simp: ends_with_def)

lemma strip_prefix_Some: "strip_prefix p s = Some t \<longleftrightarrow> s = p @ t"
  by (auto simp: strip_prefix_def starts_with_iff split: if_splits)

lemma strip_prefix_append [simp]: "strip_prefix p (p @ t) = Some t"
  by (simp add: strip_prefix_Some)

lemma strip_suffix_Some: "strip_suffix p s = Some t \<longleftrightarrow> s = t @ p"
  by (auto simp: strip_suffix_def ends_with_iff split: if_splits)

lemma strip_suffix_append [simp]: "strip_suffix p (t @ p) = Some t"
  by (simp add: strip_suffix_Some)

lemma trim_chars_id:
  assumes "cs \<noteq> []" "\<not> is_whitespace (hd cs)" "\<not> is_whitespace (last cs)"
  shows "trim_chars cs = cs"
proof -
  have "dropWhile is_whitespace cs = cs"
    using assms(1,2) by (cases cs) simp_all
  moreover have "dropWhile is_whitespace (rev cs) = rev cs"
    using assms(1,3) by (cases cs rule: rev_cases) simp_all
  ultimately show ?thesis
    by (simp add: trim_chars_def)
qed

lemma utf8_bytes_ascii: "is_ascii s \<Longrightarrow> utf8_bytes (map ord s) = s"
  by (induction s) (simp_all add: utf8_bytes_def utf8_char_def is_ascii_def)

lemma trim_id:
  assumes "is_ascii s" "s \<noteq> []" "\<not> is_whitespace (ord (hd s))" "\<not> is_whitespace (ord (last s))"
  shows "trim s = s"
  using assms
  by (simp add: trim_def chars_ascii trim_chars_id hd_map last_map utf8_bytes_ascii)

subsection \<open>Words\<close>

lemma unat_inc_no_wrap: "(c :: 'a::len word) \<noteq> - 1 \<Longrightarrow> unat (c + 1) = Suc (unat c)"
  using unatSuc [of c] by (simp add: add.commute eq_neg_iff_add_eq_0)

lemma unat_inc_less: "(c :: 'a::len word) < l \<Longrightarrow> unat (c + 1) = Suc (unat c)"
  using word_n1_ge [of l] by (intro unat_inc_no_wrap) auto

lemma unat_saturating_dec:
  "unat (if (c :: 'a::len word) = 0 then 0 else c - 1) = unat c - 1"
  by (simp add: unat_minus_one)

subsection \<open>The standard hash map\<close>

text \<open>
  \<open>HashMap\<close> as an association list with distinct keys; the order of the list stands for the
  map's own iteration order, which the standard library leaves open.
\<close>

type_synonym ('k, 'v) hash_map = "('k \<times> 'v) list"

definition hm_get :: "('k, 'v) hash_map \<Rightarrow> 'k \<Rightarrow> 'v option" where
  "hm_get m k = map_of m k"

definition hm_insert :: "'k \<Rightarrow> 'v \<Rightarrow> ('k, 'v) hash_map \<Rightarrow> ('k, 'v) hash_map" where
  "hm_insert k v m = AList.update k v m"

definition hm_remove :: "'k \<Rightarrow> ('k, 'v) hash_map \<Rightarrow> ('k, 'v) hash_map" where
  "hm_remove k m = AList.delete k m"

definition hm_retain :: "('k \<Rightarrow> 'v \<Rightarrow> bool) \<Rightarrow> ('k, 'v) hash_map \<Rightarrow> ('k, 'v) hash_map" where
  "hm_retain P m = filter (\<lambda>(k, v). P k v) m"

definition hm_len :: "('k, 'v) hash_map \<Rightarrow> nat" where
  "hm_len m = length m"

definition hm_values :: "('k, 'v) hash_map \<Rightarrow> 'v list" where
  "hm_values m = map snd m"

definition hm_wf :: "('k, 'v) hash_map \<Rightarrow> bool" where
  "hm_wf m \<longleftrightarrow> distinct (map fst m)"

text \<open>The contract of a map, as the stores of the program rely on it.\<close>

locale kv_store =
  fixes get :: "'m \<Rightarrow> 'k \<Rightarrow> 'v option"
    and put :: "'k \<Rightarrow> 'v \<Rightarrow> 'm \<Rightarrow> 'm"
    and del :: "'k \<Rightarrow> 'm \<Rightarrow> 'm"
    and retain :: "('k \<Rightarrow> 'v \<Rightarrow> bool) \<Rightarrow> 'm \<Rightarrow> 'm"
    and len :: "'m \<Rightarrow> nat"
    and wf :: "'m \<Rightarrow> bool"
  assumes get_put [simp]: "get (put k v m) = (get m)(k \<mapsto> v)"
    and get_del: "wf m \<Longrightarrow> get (del k m) = (get m)(k := None)"
    and get_retain: "wf m \<Longrightarrow>
      get (retain P m) k = (case get m k of None \<Rightarrow> None | Some v \<Rightarrow> if P k v then Some v else None)"
    and len_put_new: "get m k = None \<Longrightarrow> len (put k v m) = Suc (len m)"
    and len_put_old: "get m k = Some w \<Longrightarrow> len (put k v m) = len m"
    and len_del: "len (del k m) \<le> len m"
    and len_retain: "len (retain P m) \<le> len m"
    and wf_put: "wf m \<Longrightarrow> wf (put k v m)"
    and wf_del: "wf m \<Longrightarrow> wf (del k m)"
    and wf_retain: "wf m \<Longrightarrow> wf (retain P m)"
begin

lemma len_put_le: "len (put k v m) \<le> Suc (len m)"
  by (cases "get m k") (auto simp: len_put_new len_put_old)

text \<open>A store that only inserts below its capacity stays within it.\<close>

lemma bounded_put: "len m < cap \<Longrightarrow> len (put k v m) \<le> cap"
  using len_put_le [of k v m] by linarith

lemma bounded_put_old: "len m \<le> cap \<Longrightarrow> get m k = Some w \<Longrightarrow> len (put k v m) \<le> cap"
  by (simp add: len_put_old)

lemma bounded_del: "len m \<le> cap \<Longrightarrow> len (del k m) \<le> cap"
  using len_del [of k m] by linarith

lemma bounded_retain: "len m \<le> cap \<Longrightarrow> len (retain P m) \<le> cap"
  using len_retain [of P m] by linarith

lemma get_del_same: "wf m \<Longrightarrow> get (del k m) k = None"
  by (simp add: get_del)

lemma get_del_other: "wf m \<Longrightarrow> j \<noteq> k \<Longrightarrow> get (del k m) j = get m j"
  by (simp add: get_del)

lemma get_retain_Some:
  "wf m \<Longrightarrow> get (retain P m) k = Some v \<longleftrightarrow> get m k = Some v \<and> P k v"
  by (auto simp: get_retain split: option.splits)

end

interpretation hm: kv_store hm_get hm_insert hm_remove hm_retain hm_len hm_wf
proof unfold_locales
  fix m :: "('k, 'v) hash_map" and P k v w
  show "hm_get (hm_insert k v m) = (hm_get m)(k \<mapsto> v)"
    by (simp add: hm_get_def hm_insert_def update_conv' fun_eq_iff)
  show "hm_get (hm_remove k m) = (hm_get m)(k := None)"
    by (simp add: hm_get_def hm_remove_def delete_conv' fun_eq_iff)
  show "hm_get m k = None \<Longrightarrow> hm_len (hm_insert k v m) = Suc (hm_len m)"
    by (induction m) (auto simp: hm_get_def hm_insert_def hm_len_def split: if_splits)
  show "hm_get m k = Some w \<Longrightarrow> hm_len (hm_insert k v m) = hm_len m"
    by (induction m) (auto simp: hm_get_def hm_insert_def hm_len_def split: if_splits)
  show "hm_len (hm_remove k m) \<le> hm_len m"
    by (simp add: hm_len_def hm_remove_def length_delete_le)
  show "hm_len (hm_retain P m) \<le> hm_len m"
    by (simp add: hm_len_def hm_retain_def)
  assume wf: "hm_wf m"
  show "hm_get (hm_retain P m) k =
      (case hm_get m k of None \<Rightarrow> None | Some v \<Rightarrow> if P k v then Some v else None)"
    using wf by (induction m)
      (auto simp: hm_get_def hm_retain_def hm_wf_def map_of_eq_None_iff
        rev_image_eqI split: option.splits dest: map_of_SomeD)
  show "hm_wf (hm_insert k v m)"
    using wf by (simp add: hm_wf_def hm_insert_def distinct_update)
  show "hm_wf (hm_remove k m)"
    using wf by (simp add: hm_wf_def hm_remove_def distinct_delete)
  show "hm_wf (hm_retain P m)"
    using wf unfolding hm_wf_def hm_retain_def
    by (induction m) (auto simp: image_iff)
qed

lemma hm_empty [simp]: "hm_wf []" "hm_get [] k = None" "hm_len [] = 0"
  by (simp_all add: hm_wf_def hm_get_def hm_len_def)

lemma hm_get_remove: "hm_get (hm_remove k m) = (hm_get m)(k := None)"
  by (simp add: hm_get_def hm_remove_def delete_conv' fun_eq_iff)

lemma hm_get_mem: "hm_wf m \<Longrightarrow> hm_get m k = Some v \<longleftrightarrow> (k, v) \<in> set m"
  by (simp add: hm_wf_def hm_get_def map_of_eq_Some_iff)

lemma hm_get_None: "hm_get m k = None \<longleftrightarrow> k \<notin> fst ` set m"
  by (simp add: hm_get_def map_of_eq_None_iff)

subsection \<open>The standard ordered map\<close>

text \<open>\<open>BTreeMap\<close>: the entries in the order of their keys, which is the order of its iterators.\<close>

fun bt_insert :: "'k::linorder \<Rightarrow> 'v \<Rightarrow> ('k \<times> 'v) list \<Rightarrow> ('k \<times> 'v) list" where
  "bt_insert k v [] = [(k, v)]"
| "bt_insert k v ((j, w) # m) =
     (if k < j then (k, v) # (j, w) # m
      else if k = j then (k, v) # m
      else (j, w) # bt_insert k v m)"

definition bt_wf :: "('k::linorder \<times> 'v) list \<Rightarrow> bool" where
  "bt_wf m \<longleftrightarrow> sorted_wrt (<) (map fst m)"

lemma bt_wf_hm_wf: "bt_wf m \<Longrightarrow> hm_wf m"
  by (simp add: bt_wf_def hm_wf_def strict_sorted_iff)

lemma bt_insert_keys: "fst ` set (bt_insert k v m) = insert k (fst ` set m)"
  by (induction m rule: bt_insert.induct) auto

lemma bt_wf_insert: "bt_wf m \<Longrightarrow> bt_wf (bt_insert k v m)"
proof (induction k v m rule: bt_insert.induct)
  case (2 k v j w m)
  then show ?case
    using bt_insert_keys [of k v m] by (fastforce simp: bt_wf_def image_iff)
qed (simp add: bt_wf_def)

lemma bt_get_insert: "hm_get (bt_insert k v m) = (hm_get m)(k \<mapsto> v)" if "bt_wf m"
  using that
proof (induction k v m rule: bt_insert.induct)
  case (2 k v j w m)
  then show ?case by (auto simp: bt_wf_def hm_get_def fun_eq_iff)
qed (simp add: hm_get_def fun_eq_iff)

subsection \<open>Invariants over runs\<close>

text \<open>
  A component driven by a list of operations: \<open>run step s ops\<close> is the state after them. An
  invariant that holds initially and that every operation keeps holds after every run.
\<close>

definition run :: "('s \<Rightarrow> 'l \<Rightarrow> 's) \<Rightarrow> 's \<Rightarrow> 'l list \<Rightarrow> 's" where
  "run step s ops = foldl step s ops"

lemma run_simps [simp]:
  "run step s [] = s" "run step s (op # ops) = run step (step s op) ops"
  "run step s (xs @ ys) = run step (run step s xs) ys"
  by (simp_all add: run_def)

locale safety_system =
  fixes step :: "'s \<Rightarrow> 'l \<Rightarrow> 's"
    and inv :: "'s \<Rightarrow> bool"
  assumes step_inv: "inv s \<Longrightarrow> inv (step s op)"
begin

lemma run_inv: "inv s \<Longrightarrow> inv (run step s ops)"
  by (induction ops arbitrary: s) (auto intro: step_inv)

lemma run_prefix_inv: "inv s \<Longrightarrow> prefix xs ops \<Longrightarrow> inv (run step s xs)"
  by (simp add: run_inv)

end

text \<open>A cell that is written at most once: the first value stays.\<close>

locale sticky_cell =
  fixes step :: "'s \<Rightarrow> 'l \<Rightarrow> 's"
    and cell :: "'s \<Rightarrow> 'a option"
  assumes step_sticky: "cell s = Some x \<Longrightarrow> cell (step s op) = Some x"
begin

lemma run_sticky: "cell s = Some x \<Longrightarrow> cell (run step s ops) = Some x"
  by (induction ops arbitrary: s) (auto intro: step_sticky)

lemma run_first_write:
  "cell (run step s xs) = Some x \<Longrightarrow> cell (run step s (xs @ ys)) = Some x"
  by (simp add: run_sticky)

end

end
