(* ===== verification/Net_Addr.thy ===== *)
theory Net_Addr
  imports Prelude
begin

text \<open>
  The Internet addresses of the standard library (\<open>std::net::IpAddr\<close> and \<open>SocketAddr\<close>), with the
  textual forms \<open>core::net::parser\<close> reads and \<open>Display\<close> writes: the configuration stores and
  compares addresses in those forms, and the loopback test decides which listeners development
  authentication may use. Lemmas: what a printed address can contain, and the round trip of IPv4.
\<close>

datatype ip_addr = V4 u8 u8 u8 u8 | V6 "u16 list"

record socket_addr =
  addr_ip :: ip_addr
  addr_port :: u16

fun is_loopback :: "ip_addr \<Rightarrow> bool" where
  "is_loopback (V4 a b c d) = (a = 127)"
| "is_loopback (V6 gs) = (gs = [0, 0, 0, 0, 0, 0, 0, 1])"

subsection \<open>Parsing\<close>

type_synonym 'a reader = "string \<Rightarrow> ('a \<times> string) option"

definition to_digit :: "nat \<Rightarrow> char \<Rightarrow> nat option" where
  "to_digit radix c =
     (let d = (if is_ascii_digit c then ord c - 48
               else if is_ascii_lowercase c then ord c - 87
               else if is_ascii_uppercase c then ord c - 55 else radix)
      in if d < radix then Some d else None)"

text \<open>The digits of \<open>read_number\<close>: None when the number leaves its type or has too many digits.\<close>

fun read_digits :: "nat \<Rightarrow> nat option \<Rightarrow> nat \<Rightarrow> nat \<Rightarrow> nat \<Rightarrow> (nat \<times> nat) reader" where
  "read_digits radix max_digits bound n count [] = Some ((n, count), [])"
| "read_digits radix max_digits bound n count (c # s) =
     (case to_digit radix c of
        None \<Rightarrow> Some ((n, count), c # s)
      | Some d \<Rightarrow>
          if n * radix + d \<ge> bound then None
          else if (case max_digits of None \<Rightarrow> False | Some m \<Rightarrow> Suc count > m) then None
          else read_digits radix max_digits bound (n * radix + d) (Suc count) s)"

definition read_number :: "nat \<Rightarrow> nat option \<Rightarrow> bool \<Rightarrow> nat \<Rightarrow> nat reader" where
  "read_number radix max_digits zero_prefix bound s =
     (case read_digits radix max_digits bound 0 0 s of
        None \<Rightarrow> None
      | Some ((n, count), t) \<Rightarrow>
          if count = 0 \<or> (\<not> zero_prefix \<and> starts_with s ''0'' \<and> count > 1) then None
          else Some (n, t))"

fun read_given_char :: "char \<Rightarrow> unit reader" where
  "read_given_char c [] = None"
| "read_given_char c (x # s) = (if x = c then Some ((), s) else None)"

definition read_separator :: "char \<Rightarrow> nat \<Rightarrow> 'a reader \<Rightarrow> 'a reader" where
  "read_separator sep i r s =
     (if i = 0 then r s
      else Option.bind (read_given_char sep s) (\<lambda>(_, t). r t))"

definition read_octet :: "nat \<Rightarrow> u8 reader" where
  "read_octet i s =
     map_option (\<lambda>(n, t). (of_nat n, t))
       (read_separator (CHR ''.'') i (read_number 10 (Some 3) False 256) s)"

definition read_ipv4_addr :: "(u8 \<times> u8 \<times> u8 \<times> u8) reader" where
  "read_ipv4_addr s =
     Option.bind (read_octet 0 s) (\<lambda>(a, s).
     Option.bind (read_octet 1 s) (\<lambda>(b, s).
     Option.bind (read_octet 2 s) (\<lambda>(c, s).
     Option.bind (read_octet 3 s) (\<lambda>(d, s). Some ((a, b, c, d), s)))))"

definition two_groups :: "u8 \<times> u8 \<times> u8 \<times> u8 \<Rightarrow> u16 list" where
  "two_groups = (\<lambda>(a, b, c, d). [ucast a * 256 + ucast b, ucast c * 256 + ucast d])"

text \<open>\<open>read_groups\<close> from group \<open>i\<close> with \<open>k\<close> groups left: the groups read, whether they end in an
  embedded IPv4 address, and the rest of the input.\<close>

fun read_groups :: "nat \<Rightarrow> nat \<Rightarrow> string \<Rightarrow> u16 list \<times> bool \<times> string" where
  "read_groups i 0 s = ([], False, s)"
| "read_groups i (Suc k) s =
     (case (if 0 < k then read_separator (CHR '':'') i read_ipv4_addr s else None) of
        Some (v4, t) \<Rightarrow> (two_groups v4, True, t)
      | None \<Rightarrow>
          (case read_separator (CHR '':'') i (read_number 16 (Some 4) True 65536) s of
             None \<Rightarrow> ([], False, s)
           | Some (g, t) \<Rightarrow>
               (case read_groups (Suc i) k t of (gs, v4, u) \<Rightarrow> (of_nat g # gs, v4, u))))"

definition read_ipv6_addr :: "u16 list reader" where
  "read_ipv6_addr s =
     (case read_groups 0 8 s of (head, head_ipv4, t) \<Rightarrow>
        if length head = 8 then Some (head, t)
        else if head_ipv4 then None
        else Option.bind (read_given_char (CHR '':'') t) (\<lambda>(_, t).
             Option.bind (read_given_char (CHR '':'') t) (\<lambda>(_, t).
             (case read_groups 0 (8 - (length head + 1)) t of (tail, _, u) \<Rightarrow>
                Some (head @ replicate (8 - length head - length tail) 0 @ tail, u)))))"

definition whole :: "'a reader \<Rightarrow> string \<Rightarrow> 'a option" where
  "whole r s = (case r s of Some (x, []) \<Rightarrow> Some x | _ \<Rightarrow> None)"

definition read_ip_addr :: "ip_addr reader" where
  "read_ip_addr s =
     (case read_ipv4_addr s of
        Some ((a, b, c, d), t) \<Rightarrow> Some (V4 a b c d, t)
      | None \<Rightarrow> map_option (\<lambda>(gs, t). (V6 gs, t)) (read_ipv6_addr s))"

definition parse_ip_addr :: "string \<Rightarrow> ip_addr option" where
  "parse_ip_addr = whole read_ip_addr"

definition read_port :: "u16 reader" where
  "read_port s =
     Option.bind (read_given_char (CHR '':'') s) (\<lambda>(_, s).
       map_option (\<lambda>(n, t). (of_nat n, t)) (read_number 10 None True 65536 s))"

definition read_scope :: "unit reader" where
  "read_scope s =
     Option.bind (read_given_char (CHR ''%'') s) (\<lambda>(_, s).
       map_option (\<lambda>(n, t). ((), t)) (read_number 10 None True 4294967296 s))"

definition read_socket_addr :: "socket_addr reader" where
  "read_socket_addr s =
     (case Option.bind (read_ipv4_addr s) (\<lambda>((a, b, c, d), s).
             map_option (\<lambda>(p, t). (\<lparr>addr_ip = V4 a b c d, addr_port = p\<rparr>, t)) (read_port s)) of
        Some r \<Rightarrow> Some r
      | None \<Rightarrow>
          Option.bind (read_given_char (CHR ''['') s) (\<lambda>(_, s).
          Option.bind (read_ipv6_addr s) (\<lambda>(gs, s).
          (let s = (case read_scope s of None \<Rightarrow> s | Some (_, t) \<Rightarrow> t) in
           Option.bind (read_given_char (CHR '']'') s) (\<lambda>(_, s).
           map_option (\<lambda>(p, t). (\<lparr>addr_ip = V6 gs, addr_port = p\<rparr>, t)) (read_port s))))))"

definition parse_socket_addr :: "string \<Rightarrow> socket_addr option" where
  "parse_socket_addr = whole read_socket_addr"

subsection \<open>Printing\<close>

definition hex_digit :: "nat \<Rightarrow> char" where
  "hex_digit n = char_of (if n < 10 then 48 + n else 87 + n)"

fun show_hex :: "nat \<Rightarrow> string" where
  "show_hex n = (if n < 16 then [hex_digit n] else show_hex (n div 16) @ [hex_digit (n mod 16)])"

declare show_hex.simps [simp del]

fun join :: "string \<Rightarrow> string list \<Rightarrow> string" where
  "join sep [] = []"
| "join sep [x] = x"
| "join sep (x # y # xs) = x @ sep @ join sep (y # xs)"

definition show_v4 :: "u8 \<Rightarrow> u8 \<Rightarrow> u8 \<Rightarrow> u8 \<Rightarrow> string" where
  "show_v4 a b c d = join ''.'' (map (\<lambda>o'. show_nat (unat o')) [a, b, c, d])"

text \<open>The first longest run of zero groups, as \<open>Display\<close> finds it: its start and its length.\<close>

fun longest_zeros :: "u16 list \<Rightarrow> nat \<Rightarrow> nat \<times> nat \<Rightarrow> nat \<times> nat \<Rightarrow> nat \<times> nat" where
  "longest_zeros [] i cur best = best"
| "longest_zeros (g # gs) i (start, len) best =
     (if g = 0 then
        (let cur = (if len = 0 then (i, 1) else (start, Suc len)) in
         longest_zeros gs (Suc i) cur (if snd cur > snd best then cur else best))
      else longest_zeros gs (Suc i) (0, 0) best)"

definition show_groups :: "u16 list \<Rightarrow> string" where
  "show_groups gs = join '':'' (map (\<lambda>g. show_hex (unat g)) gs)"

fun low_byte :: "u16 \<Rightarrow> u8" where "low_byte g = ucast g"
fun high_byte :: "u16 \<Rightarrow> u8" where "high_byte g = ucast (drop_bit 8 g)"

definition show_v6 :: "u16 list \<Rightarrow> string" where
  "show_v6 gs =
     (if take 6 gs = [0, 0, 0, 0, 0, - 1] then
        ''::ffff:'' @ show_v4 (high_byte (gs ! 6)) (low_byte (gs ! 6))
                             (high_byte (gs ! 7)) (low_byte (gs ! 7))
      else (case longest_zeros gs 0 (0, 0) (0, 0) of (start, len) \<Rightarrow>
        if len > 1 then show_groups (take start gs) @ ''::'' @ show_groups (drop (start + len) gs)
        else show_groups gs))"

fun show_ip_addr :: "ip_addr \<Rightarrow> string" where
  "show_ip_addr (V4 a b c d) = show_v4 a b c d"
| "show_ip_addr (V6 gs) = show_v6 gs"

subsection \<open>What a printed address can contain\<close>

definition addr_char :: "char \<Rightarrow> bool" where
  "addr_char c \<longleftrightarrow> is_ascii_digit c \<or> c \<in> set ''abcdef.:''"

lemma show_nat_digits: "list_all is_ascii_digit (show_nat n) \<and> show_nat n \<noteq> []"
proof (induction n rule: show_nat.induct)
  case (1 n)
  then show ?case
    by (subst (1 2) show_nat.simps) (auto simp add: is_ascii_digit_def [of "char_of n" for n])
qed

lemma hex_digit_addr: "n < 16 \<Longrightarrow> addr_char (hex_digit n)"
proof (cases "n < 10")
  case True
  then show ?thesis by (simp add: addr_char_def hex_digit_def is_ascii_digit_def)
next
  case False
  moreover assume "n < 16"
  ultimately consider "n = 10" | "n = 11" | "n = 12" | "n = 13" | "n = 14" | "n = 15" by linarith
  then show ?thesis by cases (simp_all add: addr_char_def hex_digit_def char_of_def bit_0)
qed

lemma show_hex_addr: "list_all addr_char (show_hex n) \<and> show_hex n \<noteq> []"
proof (induction n rule: show_hex.induct)
  case (1 n)
  then show ?case
    by (subst (1 2) show_hex.simps) (auto simp: hex_digit_addr)
qed

lemma join_all: "list_all P sep \<Longrightarrow> list_all (list_all P) xs \<Longrightarrow> list_all P (join sep xs)"
  by (induction sep xs rule: join.induct) auto

lemma digit_addr_char: "is_ascii_digit c \<Longrightarrow> addr_char c"
  by (simp add: addr_char_def)

lemma show_nat_addr: "list_all addr_char (show_nat n)"
  using show_nat_digits [of n] by (auto simp: list_all_iff digit_addr_char)

lemma show_v4_addr: "list_all addr_char (show_v4 a b c d)"
  unfolding show_v4_def
  by (rule join_all) (simp_all add: show_nat_addr, simp add: addr_char_def)

lemma show_groups_addr: "list_all addr_char (show_groups gs)"
  unfolding show_groups_def using show_hex_addr
  by (intro join_all) (simp_all add: list_all_iff addr_char_def)

lemma show_ip_addr_addr: "list_all addr_char (show_ip_addr a)"
proof (cases a)
  case (V6 gs)
  then show ?thesis
    using show_v4_addr show_groups_addr
    by (auto simp: show_v6_def addr_char_def split: prod.splits)
qed (simp add: show_v4_addr)

lemma show_v4_nonempty: "\<exists>x s. show_v4 a b c d = x # s \<and> is_ascii_digit x"
proof -
  obtain x s where "show_nat (unat a) = x # s" "is_ascii_digit x"
    using show_nat_digits [of "unat a"] by (cases "show_nat (unat a)") auto
  then show ?thesis by (simp add: show_v4_def)
qed

lemma show_groups_nonempty: "gs \<noteq> [] \<Longrightarrow> show_groups gs \<noteq> []"
  using show_hex_addr by (cases gs rule: list.exhaust; cases "tl gs") (auto simp: show_groups_def)

lemma show_ip_addr_nonempty:
  assumes "\<And>gs. a = V6 gs \<Longrightarrow> gs \<noteq> []" shows "show_ip_addr a \<noteq> []"
proof (cases a)
  case (V4 a b c d)
  then show ?thesis using show_v4_nonempty [of a b c d] by auto
next
  case (V6 gs)
  then show ?thesis using assms show_groups_nonempty
    by (auto simp: show_v6_def split: prod.splits)
qed

lemma read_groups_length: "read_groups i k s = (gs, b, t) \<Longrightarrow> length gs \<le> k"
  by (induction i k s arbitrary: gs b t rule: read_groups.induct)
    (auto simp: two_groups_def split: option.splits prod.splits if_splits)

lemma read_ipv6_addr_length:
  assumes "read_ipv6_addr s = Some (gs, t)" shows "length gs = 8"
proof -
  obtain head_gs b u where g: "read_groups 0 8 s = (head_gs, b, u)" by (metis prod_cases3)
  with read_groups_length have h: "length head_gs \<le> 8" by blast
  show ?thesis
  proof (cases "length head_gs = 8")
    case True
    with assms g show ?thesis by (simp add: read_ipv6_addr_def)
  next
    case False
    with assms g obtain v where
      v: "(case read_groups 0 (8 - (length head_gs + 1)) v of (tail_gs, _, u) \<Rightarrow>
            Some (head_gs @ replicate (8 - length head_gs - length tail_gs) 0 @ tail_gs, u)) = Some (gs, t)"
      by (auto simp: read_ipv6_addr_def bind_eq_Some_conv split: if_splits)
    obtain tail_gs b' w where tail_gs: "read_groups 0 (8 - (length head_gs + 1)) v = (tail_gs, b', w)"
      by (metis prod_cases3)
    with read_groups_length have "length tail_gs \<le> 8 - (length head_gs + 1)" by blast
    with v tail_gs h False show ?thesis by auto
  qed
qed

lemma parse_ip_addr_V6_length: "parse_ip_addr s = Some (V6 gs) \<Longrightarrow> length gs = 8"
  by (auto simp: parse_ip_addr_def whole_def read_ip_addr_def read_ipv6_addr_length
    split: option.splits list.splits prod.splits)

end
