(* ===== verification/Config.thy ===== *)
theory Config
  imports Net_Addr
begin

text \<open>
  \<open>config.rs\<close>: the configuration file, from the schema that the TOML library decodes (the raw
  structures) to the validated \<open>config\<close>; every validator with its error field and message, the
  target allowlist and the SSH user policy. The TOML, URL, network prefix and header name
  libraries are the functions of a \<open>config_lib\<close>; reading the file is a function argument.
  Lemmas: what each validator accepts, the exact startup contract, the bounds of accepted limits,
  and that the allowlist resolves exactly the configured targets.
\<close>

subsection \<open>Third-party data\<close>

text \<open>What the sources read of a \<open>url::Url\<close> and of an \<open>ipnet::IpNet\<close>.\<close>

datatype url_origin = OpaqueOrigin nat | TupleOrigin string string u16

record url =
  url_scheme :: string
  url_username :: string
  url_password :: "string option"
  url_host :: "string option"
  url_path :: string
  url_query :: "string option"
  url_fragment :: "string option"
  url_origin_of :: url_origin

datatype ip_net = IpNet ip_addr nat

type_synonym header_name = string
type_synonym path = bytes

subsection \<open>Configuration\<close>

definition DEFAULT_SESSION_REQUESTS_PER_WINDOW :: u32 where
  "DEFAULT_SESSION_REQUESTS_PER_WINDOW = 10"
definition DEFAULT_SESSION_REQUEST_WINDOW :: u64 where "DEFAULT_SESSION_REQUEST_WINDOW = 60"
definition DEFAULT_AUTHENTICATION_FAILURES_PER_WINDOW :: u32 where
  "DEFAULT_AUTHENTICATION_FAILURES_PER_WINDOW = 20"
definition DEFAULT_AUTHENTICATION_FAILURE_WINDOW :: u64 where
  "DEFAULT_AUTHENTICATION_FAILURE_WINDOW = 60"

text \<open>\<open>Duration::from_secs\<close>, in nanoseconds.\<close>

definition from_secs :: "u64 \<Rightarrow> duration" where
  "from_secs s = unat s * 1000000000"

datatype server_mode = ModeDev | ModeProduction

record tls_config =
  certificate :: path
  private_key :: path

record trusted_proxy_config =
  trusted_sources :: "ip_net list"

datatype server_transport =
    Plaintext
  | DirectTls tls_config
  | TrustedProxyTransport trusted_proxy_config

record server_config =
  sv_bind :: socket_addr
  sv_mode :: server_mode
  sv_public_url :: string
  sv_transport :: server_transport

datatype auth_config = AuthDev string | AuthTrustedProxy header_name

datatype audit_format = AuditJson

record audit_config =
  ac_format :: audit_format
  ac_path :: path
  ac_recording :: bool

record limits =
  max_sessions :: u64
  max_sessions_per_user :: u64
  idle_timeout :: duration
  absolute_timeout :: duration
  session_requests_per_window :: u32
  session_request_window :: duration
  authentication_failures_per_window :: u32
  authentication_failure_window :: duration

record pty_target =
  pt_name :: string
  pt_executable :: path
  pt_argv :: "string list"
  pt_read_only :: bool

datatype ssh_user_policy =
    Fixed string
  | SameAsAuthenticatedUser
  | Mapping "(string \<times> string) list"

record ssh_target =
  st_name :: string
  st_host :: string
  st_port :: u16
  st_ssh_executable :: path
  st_identity_file :: path
  st_known_hosts :: path
  st_user_policy :: ssh_user_policy
  st_read_only :: bool

datatype target = PtyTarget pty_target | SshTarget ssh_target

record config =
  cf_server :: server_config
  cf_auth :: auth_config
  cf_audit :: audit_config
  cf_limits :: limits
  cf_targets :: "target list"

fun target_name :: "target \<Rightarrow> string" where
  "target_name (PtyTarget t) = pt_name t"
| "target_name (SshTarget t) = st_name t"

fun target_read_only :: "target \<Rightarrow> bool" where
  "target_read_only (PtyTarget t) = pt_read_only t"
| "target_read_only (SshTarget t) = st_read_only t"

datatype user_policy_error = NotMapped string | InvalidResolvedUser

datatype config_error =
    ReadError path string
  | ParseError string
  | Validation string string

subsection \<open>The schema of the file\<close>

record raw_tls =
  rw_certificate :: "path option"
  rw_private_key :: "path option"

record raw_trusted_proxy =
  rw_trusted_sources :: "string list option"

record raw_server =
  rw_bind :: socket_addr
  rw_mode :: server_mode
  rw_public_url :: string
  rw_tls :: "raw_tls option"
  rw_trusted_proxy :: "raw_trusted_proxy option"

datatype raw_auth_provider = ProviderDev | ProviderTrustedProxy

record raw_auth =
  rw_provider :: raw_auth_provider
  rw_user :: "string option"
  rw_identity_header :: "string option"

record raw_audit =
  rw_format :: audit_format
  rw_path :: path
  rw_recording :: bool

record raw_limits =
  rw_max_sessions :: u64
  rw_max_sessions_per_user :: u64
  rw_idle_timeout_seconds :: u64
  rw_absolute_timeout_seconds :: u64
  rw_session_requests_per_window :: "u32 option"
  rw_session_request_window_seconds :: "u64 option"
  rw_authentication_failures_per_window :: "u32 option"
  rw_authentication_failure_window_seconds :: "u64 option"

datatype raw_user_policy = PolicyFixed | PolicySameAsAuthUser | PolicyMapping

record raw_ssh =
  rs_name :: string
  rs_host :: string
  rs_port :: u16
  rs_ssh_executable :: path
  rs_identity_file :: path
  rs_known_hosts :: path
  rs_user_policy :: raw_user_policy
  rs_user :: "string option"
  rs_user_mapping :: "(string \<times> string) list option"
  rs_read_only :: bool

datatype raw_target = RawPty string "string list" bool | RawSsh raw_ssh

record raw_config =
  rw_server :: raw_server
  rw_auth :: raw_auth
  rw_audit :: raw_audit
  rw_limits :: raw_limits
  rw_targets :: "raw_target list"

text \<open>
  The libraries: \<open>toml::from_str\<close> into the schema above (or its error message), \<open>Url::parse\<close>,
  \<open>IpNet\<close> parsing, \<open>trunc\<close>, printing and membership, and \<open>HeaderName::from_str\<close>.
\<close>

record config_lib =
  toml_from_str :: "string \<Rightarrow> string + raw_config"
  url_parse :: "string \<Rightarrow> url option"
  ipnet_from_str :: "string \<Rightarrow> ip_net option"
  ipnet_trunc :: "ip_net \<Rightarrow> ip_net"
  ipnet_to_string :: "ip_net \<Rightarrow> string"
  ipnet_contains :: "ip_net \<Rightarrow> ip_addr \<Rightarrow> bool"
  header_name_from_str :: "string \<Rightarrow> header_name option"

subsection \<open>Validators\<close>

definition target_field :: "nat \<Rightarrow> string \<Rightarrow> string" where
  "target_field index f = ''targets['' @ show_nat index @ '']'' @ f"

definition validate_nonempty :: "string \<Rightarrow> string \<Rightarrow> string \<Rightarrow> config_error + unit" where
  "validate_nonempty value field message = fail_if (value = []) (Validation field message)"

text \<open>The bytes of a target name or an SSH username: letters, digits, dots, underscores, hyphens.\<close>

definition name_byte :: "char \<Rightarrow> bool" where
  "name_byte c \<longleftrightarrow> is_ascii_alphanumeric c \<or> c \<in> {CHR ''.'', CHR ''_'', CHR ''-''}"

definition validate_target_name :: "string \<Rightarrow> string \<Rightarrow> config_error + unit" where
  "validate_target_name name field =
     fail_if (name = [] \<or> length name > 128 \<or> starts_with name ''-'' \<or> \<not> list_all name_byte name)
       (Validation field
         ''must be 1-128 ASCII letters, digits, dots, underscores, or hyphens and not start with a hyphen'')"

definition expansion_char :: "nat \<Rightarrow> bool" where
  "expansion_char c \<longleftrightarrow> c \<in> set (map ord ''$*?[]`{}'')"

definition validate_literal_path :: "path \<Rightarrow> string \<Rightarrow> config_error + unit" where
  "validate_literal_path path field =
     and_then (fail_if (\<not> is_str path) (Validation field ''must be valid UTF-8'')) (\<lambda>_.
       let has_expansion_syntax = starts_with path ''~'' \<or> list_ex expansion_char (chars path) in
       fail_if (path = [] \<or> char_of (0 :: nat) \<in> set path \<or> has_expansion_syntax)
         (Validation field ''must be a non-empty literal path without expansion syntax''))"

definition option_lexer_char :: "nat \<Rightarrow> bool" where
  "option_lexer_char c \<longleftrightarrow>
     is_whitespace c \<or> is_control c \<or> c \<in> {37, 39, 34, 92, 36}"

definition validate_ssh_option_path :: "path \<Rightarrow> string \<Rightarrow> config_error + unit" where
  "validate_ssh_option_path path field =
     and_then (validate_literal_path path field) (\<lambda>_.
     and_then (fail_if (\<not> is_str path) (Validation field ''must be valid UTF-8'')) (\<lambda>_.
       let has_option_lexer_syntax =
         starts_with path ''~'' \<or> list_ex option_lexer_char (chars path) in
       fail_if (path = [] \<or> has_option_lexer_syntax)
         (Validation field
           ''must be a non-empty literal path without OpenSSH option lexer or expansion syntax'')))"

definition MAX_SESSIONS :: u64 where "MAX_SESSIONS = 1000000"
definition MAX_RATE_ALLOWANCE :: u32 where "MAX_RATE_ALLOWANCE = 1000000"
definition MAX_TIMEOUT_SECONDS :: u64 where "MAX_TIMEOUT_SECONDS = 366 * 24 * 60 * 60"

text \<open>A loop of \<open>validate_limits\<close>: every named value lies between 1 and a maximum.\<close>

definition check_range :: "'a::len word \<Rightarrow> string \<Rightarrow> (string \<times> 'a word) list \<Rightarrow> config_error + unit" where
  "check_range mx message named =
     for_each (\<lambda>(field, value). fail_if (value = 0 \<or> value > mx) (Validation field message)) named"

definition unwrap_or :: "'a \<Rightarrow> 'a option \<Rightarrow> 'a" where
  "unwrap_or d m = (case m of None \<Rightarrow> d | Some x \<Rightarrow> x)"

definition validate_limits :: "raw_limits \<Rightarrow> config_error + unit" where
  "validate_limits raw =
     and_then (check_range MAX_SESSIONS ''must be between 1 and 1000000''
       [(''limits.max_sessions'', rw_max_sessions raw),
        (''limits.max_sessions_per_user'', rw_max_sessions_per_user raw)]) (\<lambda>_.
     and_then (check_range MAX_TIMEOUT_SECONDS ''must be between 1 and 31622400 seconds''
       [(''limits.idle_timeout_seconds'', rw_idle_timeout_seconds raw),
        (''limits.absolute_timeout_seconds'', rw_absolute_timeout_seconds raw)]) (\<lambda>_.
     and_then (check_range MAX_RATE_ALLOWANCE ''must be between 1 and 1000000''
       [(''limits.session_requests_per_window'',
           unwrap_or DEFAULT_SESSION_REQUESTS_PER_WINDOW (rw_session_requests_per_window raw)),
        (''limits.authentication_failures_per_window'',
           unwrap_or DEFAULT_AUTHENTICATION_FAILURES_PER_WINDOW
             (rw_authentication_failures_per_window raw))]) (\<lambda>_.
     and_then (check_range MAX_TIMEOUT_SECONDS ''must be between 1 and 31622400 seconds''
       [(''limits.session_request_window_seconds'',
           unwrap_or DEFAULT_SESSION_REQUEST_WINDOW (rw_session_request_window_seconds raw)),
        (''limits.authentication_failure_window_seconds'',
           unwrap_or DEFAULT_AUTHENTICATION_FAILURE_WINDOW
             (rw_authentication_failure_window_seconds raw))]) (\<lambda>_.
     and_then (fail_if (rw_max_sessions_per_user raw > rw_max_sessions raw)
       (Validation ''limits.max_sessions_per_user'' ''must not exceed limits.max_sessions'')) (\<lambda>_.
     fail_if (rw_idle_timeout_seconds raw > rw_absolute_timeout_seconds raw)
       (Validation ''limits.idle_timeout_seconds''
         ''must not exceed limits.absolute_timeout_seconds''))))))"

definition reject_stray_policy_fields ::
  "nat \<Rightarrow> string option \<Rightarrow> (string \<times> string) list option \<Rightarrow> config_error + unit" where
  "reject_stray_policy_fields index user mapping =
     and_then (fail_if (user \<noteq> None)
       (Validation (target_field index ''.user'') ''is only valid for fixed user policy'')) (\<lambda>_.
     fail_if (mapping \<noteq> None)
       (Validation (target_field index ''.user_mapping'') ''is only valid for mapping user policy''))"

definition validate_identity :: "string \<Rightarrow> string \<Rightarrow> config_error + unit" where
  "validate_identity value field =
     fail_if (value = [] \<or> length value > 256 \<or> list_ex is_whitespace (chars value)
              \<or> list_ex is_control (chars value))
       (Validation field ''contains an invalid authenticated identity'')"

definition validate_username_value :: "string \<Rightarrow> unit + unit" where
  "validate_username_value value =
     fail_if (value = [] \<or> length value > 128 \<or> \<not> is_ascii_alphanumeric (value ! 0)
              \<or> last value = CHR ''-'' \<or> \<not> list_all name_byte value) ()"

definition validate_username :: "string \<Rightarrow> string \<Rightarrow> config_error + unit" where
  "validate_username value field =
     map_err (\<lambda>_. Validation field ''contains an invalid or option-like SSH username'')
       (validate_username_value value)"

definition ssh_label :: "string \<Rightarrow> bool" where
  "ssh_label label \<longleftrightarrow> label \<noteq> [] \<and> length label \<le> 63 \<and> is_ascii_alphanumeric (hd label)
     \<and> is_ascii_alphanumeric (last label)
     \<and> list_all (\<lambda>c. is_ascii_alphanumeric c \<or> c = CHR ''-'') label"

definition canonical_ssh_host :: "string \<Rightarrow> string option" where
  "canonical_ssh_host value =
     (case parse_ip_addr value of
        Some address \<Rightarrow> Some (show_ip_addr address)
      | None \<Rightarrow>
          if value = [] \<or> length value > 253 \<or> \<not> is_ascii value
            \<or> list_all (\<lambda>c. is_ascii_digit c \<or> c = CHR ''.'') value then None
          else if list_all ssh_label (split_on (CHR ''.'') value)
            then Some (to_ascii_lowercase value) else None)"

definition validate_typed_policy :: "nat \<Rightarrow> ssh_user_policy \<Rightarrow> config_error + unit" where
  "validate_typed_policy index policy =
     (case policy of
        Fixed user \<Rightarrow> validate_username user (target_field index ''.user'')
      | SameAsAuthenticatedUser \<Rightarrow> Inr ()
      | Mapping mapping \<Rightarrow>
          and_then (fail_if (mapping = [])
            (Validation (target_field index ''.user_mapping'') ''must contain at least one mapping'')) (\<lambda>_.
          for_each (\<lambda>(identity, user).
            and_then (validate_identity identity (target_field index ''.user_mapping'')) (\<lambda>_.
            validate_username user (target_field index ''.user_mapping''))) mapping))"

definition validate_typed_target :: "nat \<Rightarrow> target \<Rightarrow> config_error + unit" where
  "validate_typed_target index tgt =
     and_then (validate_target_name (target_name tgt) (target_field index ''.name'')) (\<lambda>_.
     (case tgt of
        PtyTarget t \<Rightarrow> validate_literal_path (pt_executable t) (target_field index ''.command[0]'')
      | SshTarget t \<Rightarrow>
          and_then (validate_nonempty (st_host t) (target_field index ''.host'') ''must not be empty'') (\<lambda>_.
          and_then (fail_if (canonical_ssh_host (st_host t) = None)
            (Validation (target_field index ''.host'')
              ''must be an ASCII DNS hostname or unbracketed IP literal'')) (\<lambda>_.
          and_then (fail_if (st_port t = 0)
            (Validation (target_field index ''.port'') ''must be between 1 and 65535'')) (\<lambda>_.
          and_then (validate_literal_path (st_ssh_executable t) (target_field index ''.ssh_executable'')) (\<lambda>_.
          and_then (validate_ssh_option_path (st_identity_file t) (target_field index ''.identity_file'')) (\<lambda>_.
          and_then (validate_ssh_option_path (st_known_hosts t) (target_field index ''.known_hosts'')) (\<lambda>_.
          validate_typed_policy index (st_user_policy t)))))))))"

subsection \<open>The allowlist and the user policy\<close>

type_synonym target_allowlist = "(string \<times> target) list"

fun allowlist_from :: "nat \<Rightarrow> target list \<Rightarrow> target_allowlist \<Rightarrow> config_error + target_allowlist" where
  "allowlist_from index [] by_name = Inr by_name"
| "allowlist_from index (t # ts) by_name =
     and_then (validate_typed_target index t) (\<lambda>_.
     and_then (fail_if (hm_get by_name (target_name t) \<noteq> None)
       (Validation (target_field index ''.name'') ''duplicates an earlier target name'')) (\<lambda>_.
     allowlist_from (Suc index) ts (bt_insert (target_name t) t by_name)))"

definition target_allowlist_new :: "target list \<Rightarrow> config_error + target_allowlist" where
  "target_allowlist_new targets = allowlist_from 0 targets []"

datatype unknown_target = UnknownTarget string

definition allowlist_resolve :: "target_allowlist \<Rightarrow> string \<Rightarrow> unknown_target + target" where
  "allowlist_resolve al name = ok_or (UnknownTarget name) (hm_get al name)"

definition allowlist_iter :: "target_allowlist \<Rightarrow> target list" where
  "allowlist_iter al = hm_values al"

definition policy_user :: "ssh_user_policy \<Rightarrow> string \<Rightarrow> user_policy_error + string" where
  "policy_user policy authenticated_user =
     (case policy of
        Fixed user \<Rightarrow> Inr user
      | SameAsAuthenticatedUser \<Rightarrow> Inr authenticated_user
      | Mapping mapping \<Rightarrow> ok_or (NotMapped authenticated_user) (hm_get mapping authenticated_user))"

definition ssh_user_policy_resolve :: "ssh_user_policy \<Rightarrow> string \<Rightarrow> user_policy_error + string" where
  "ssh_user_policy_resolve policy authenticated_user =
     and_then (policy_user policy authenticated_user) (\<lambda>user.
     and_then (map_err (\<lambda>_. InvalidResolvedUser) (validate_username_value user)) (\<lambda>_. Inr user))"

subsection \<open>Conversion of the schema\<close>

text \<open>The CIDRs of the trusted-proxy contract: each canonical, none twice.\<close>

fun convert_sources :: "config_lib \<Rightarrow> ip_net list \<Rightarrow> string list \<Rightarrow> config_error + ip_net list" where
  "convert_sources lib canonical [] = Inr []"
| "convert_sources lib canonical (source # sources) =
     and_then (ok_or (Validation ''server.trusted_proxy.trusted_sources'' ''contains an invalid CIDR'')
       (ipnet_from_str lib source)) (\<lambda>parsed.
     let network = ipnet_trunc lib parsed in
     and_then (fail_if (ipnet_to_string lib network \<noteq> source)
       (Validation ''server.trusted_proxy.trusted_sources'' ''must contain canonical CIDRs'')) (\<lambda>_.
     and_then (fail_if (network \<in> set canonical)
       (Validation ''server.trusted_proxy.trusted_sources'' ''must not contain duplicate CIDRs'')) (\<lambda>_.
     map_ok (Cons network) (convert_sources lib (network # canonical) sources))))"

definition convert_transport ::
  "config_lib \<Rightarrow> raw_tls option \<Rightarrow> raw_trusted_proxy option \<Rightarrow> config_error + server_transport" where
  "convert_transport lib tls trusted_proxy =
     (case (tls, trusted_proxy) of
        (None, None) \<Rightarrow> Inr Plaintext
      | (Some _, Some _) \<Rightarrow>
          Inl (Validation ''server.transport'' ''direct TLS and trusted proxy cannot both be configured'')
      | (Some t, None) \<Rightarrow>
          and_then (ok_or (Validation ''server.tls.certificate'' ''is required when direct TLS is configured'')
            (rw_certificate t)) (\<lambda>cert.
          and_then (ok_or (Validation ''server.tls.private_key'' ''is required when direct TLS is configured'')
            (rw_private_key t)) (\<lambda>key.
          and_then (validate_literal_path cert ''server.tls.certificate'') (\<lambda>_.
          and_then (validate_literal_path key ''server.tls.private_key'') (\<lambda>_.
          Inr (DirectTls \<lparr>certificate = cert, private_key = key\<rparr>)))))
      | (None, Some p) \<Rightarrow>
          and_then (ok_or (Validation ''server.trusted_proxy.trusted_sources''
            ''is required when trusted proxy is configured'') (rw_trusted_sources p)) (\<lambda>sources.
          and_then (fail_if (sources = []) (Validation ''server.trusted_proxy.trusted_sources''
            ''must contain at least one trusted source CIDR'')) (\<lambda>_.
          map_ok (\<lambda>nets. TrustedProxyTransport \<lparr>trusted_sources = nets\<rparr>)
            (convert_sources lib [] sources))))"

definition convert_auth :: "config_lib \<Rightarrow> raw_auth \<Rightarrow> config_error + auth_config" where
  "convert_auth lib raw =
     (case rw_provider raw of
        ProviderDev \<Rightarrow>
          and_then (fail_if (rw_identity_header raw \<noteq> None) (Validation ''auth.identity_header''
            ''is only valid for trusted-proxy authentication'')) (\<lambda>_.
          and_then (ok_or (Validation ''auth.user'' ''is required for dev authentication'')
            (rw_user raw)) (\<lambda>user.
          and_then (validate_nonempty user ''auth.user'' ''must not be empty'') (\<lambda>_.
          Inr (AuthDev user))))
      | ProviderTrustedProxy \<Rightarrow>
          and_then (fail_if (rw_user raw \<noteq> None)
            (Validation ''auth.user'' ''is only valid for dev authentication'')) (\<lambda>_.
          and_then (ok_or (Validation ''auth.identity_header''
            ''is required for trusted-proxy authentication'') (rw_identity_header raw)) (\<lambda>h.
          and_then (ok_or (Validation ''auth.identity_header'' ''must be a valid HTTP header name'')
            (header_name_from_str lib h)) (\<lambda>name.
          Inr (AuthTrustedProxy name)))))"

definition convert_policy :: "nat \<Rightarrow> raw_ssh \<Rightarrow> config_error + ssh_user_policy" where
  "convert_policy index raw =
     (case rs_user_policy raw of
        PolicySameAsAuthUser \<Rightarrow>
          and_then (reject_stray_policy_fields index (rs_user raw) (rs_user_mapping raw)) (\<lambda>_.
          Inr SameAsAuthenticatedUser)
      | PolicyFixed \<Rightarrow>
          and_then (fail_if (rs_user_mapping raw \<noteq> None)
            (Validation (target_field index ''.user_mapping'')
              ''is only valid for mapping user policy'')) (\<lambda>_.
          and_then (ok_or (Validation (target_field index ''.user'')
            ''is required for fixed user policy'') (rs_user raw)) (\<lambda>user.
          and_then (validate_username user (target_field index ''.user'')) (\<lambda>_.
          Inr (Fixed user))))
      | PolicyMapping \<Rightarrow>
          and_then (fail_if (rs_user raw \<noteq> None)
            (Validation (target_field index ''.user'') ''is only valid for fixed user policy'')) (\<lambda>_.
          and_then (ok_or (Validation (target_field index ''.user_mapping'')
            ''is required for mapping user policy'') (rs_user_mapping raw)) (\<lambda>mapping.
          and_then (fail_if (mapping = []) (Validation (target_field index ''.user_mapping'')
            ''must contain at least one mapping'')) (\<lambda>_.
          and_then (for_each (\<lambda>(identity, username).
            and_then (validate_identity identity (target_field index ''.user_mapping'')) (\<lambda>_.
            validate_username username (target_field index ''.user_mapping''))) mapping) (\<lambda>_.
          Inr (Mapping mapping))))))"

definition convert_target :: "nat \<Rightarrow> raw_target \<Rightarrow> config_error + target" where
  "convert_target index raw =
     (case raw of
        RawPty name command ro \<Rightarrow>
          (case command of
             [] \<Rightarrow> Inl (Validation (target_field index ''.command'') ''must contain an executable'')
           | executable # argv \<Rightarrow>
               and_then (validate_literal_path executable (target_field index ''.command[0]'')) (\<lambda>_.
               and_then (validate_target_name name (target_field index ''.name'')) (\<lambda>_.
               Inr (PtyTarget \<lparr>pt_name = name, pt_executable = executable, pt_argv = argv,
                               pt_read_only = ro\<rparr>))))
      | RawSsh r \<Rightarrow>
          and_then (validate_target_name (rs_name r) (target_field index ''.name'')) (\<lambda>_.
          and_then (validate_nonempty (rs_host r) (target_field index ''.host'') ''must not be empty'') (\<lambda>_.
          and_then (fail_if (rs_port r = 0)
            (Validation (target_field index ''.port'') ''must be between 1 and 65535'')) (\<lambda>_.
          and_then (validate_literal_path (rs_ssh_executable r) (target_field index ''.ssh_executable'')) (\<lambda>_.
          and_then (validate_ssh_option_path (rs_identity_file r) (target_field index ''.identity_file'')) (\<lambda>_.
          and_then (validate_ssh_option_path (rs_known_hosts r) (target_field index ''.known_hosts'')) (\<lambda>_.
          and_then (convert_policy index r) (\<lambda>policy.
          Inr (SshTarget \<lparr>st_name = rs_name r, st_host = rs_host r, st_port = rs_port r,
            st_ssh_executable = rs_ssh_executable r, st_identity_file = rs_identity_file r,
            st_known_hosts = rs_known_hosts r, st_user_policy = policy,
            st_read_only = rs_read_only r\<rparr>)))))))))"

subsection \<open>Startup contract and parsing\<close>

definition bare_origin_url :: "url \<Rightarrow> bool" where
  "bare_origin_url u \<longleftrightarrow> url_username u = [] \<and> url_password u = None \<and> url_host u \<noteq> None
     \<and> url_path u = ''/'' \<and> url_query u = None \<and> url_fragment u = None"

fun expected_scheme :: "server_transport \<Rightarrow> string" where
  "expected_scheme Plaintext = ''http''"
| "expected_scheme (DirectTls _) = ''https''"
| "expected_scheme (TrustedProxyTransport _) = ''https''"

fun is_dev_auth :: "auth_config \<Rightarrow> bool" where
  "is_dev_auth (AuthDev _) = True"
| "is_dev_auth (AuthTrustedProxy _) = False"

definition validate_startup_contract :: "config_lib \<Rightarrow> config \<Rightarrow> config_error + unit" where
  "validate_startup_contract lib c =
     (let s = cf_server c; loopback = is_loopback (addr_ip (sv_bind s)) in
     and_then (ok_or (Validation ''server.public_url'' ''must be an absolute HTTP or HTTPS origin URL'')
       (url_parse lib (sv_public_url s))) (\<lambda>u.
     and_then (fail_if (\<not> bare_origin_url u) (Validation ''server.public_url''
       ''must contain only an HTTP or HTTPS origin without credentials, path, query, or fragment'')) (\<lambda>_.
     and_then (fail_if (url_scheme u \<noteq> expected_scheme (sv_transport s))
       (Validation ''server.public_url'' ''scheme must match the configured transport boundary'')) (\<lambda>_.
     and_then (fail_if (is_dev_auth (cf_auth c) \<and> \<not> loopback)
       (Validation ''server.bind'' ''development authentication requires a loopback listener'')) (\<lambda>_.
     and_then (fail_if (sv_mode s = ModeProduction \<and> \<not> loopback \<and> sv_transport s = Plaintext)
       (Validation ''server.transport''
         ''public production binding requires direct TLS or a complete trusted-proxy contract'')) (\<lambda>_.
     and_then (fail_if (sv_mode s = ModeProduction \<and> is_dev_auth (cf_auth c))
       (Validation ''auth.provider'' ''development authentication is not allowed in production'')) (\<lambda>_.
     (case (cf_auth c, sv_transport s) of
        (AuthTrustedProxy _, TrustedProxyTransport _) \<Rightarrow> Inr ()
      | (AuthTrustedProxy _, _) \<Rightarrow> Inl (Validation ''auth.provider''
          ''trusted-proxy authentication requires the trusted-proxy transport contract'')
      | (AuthDev _, TrustedProxyTransport _) \<Rightarrow> Inl (Validation ''auth.provider''
          ''trusted-proxy transport requires trusted-proxy authentication'')
      | (AuthDev _, _) \<Rightarrow> Inr ()))))))))"

definition build_limits :: "raw_limits \<Rightarrow> limits" where
  "build_limits raw =
     \<lparr>max_sessions = rw_max_sessions raw,
      max_sessions_per_user = rw_max_sessions_per_user raw,
      idle_timeout = from_secs (rw_idle_timeout_seconds raw),
      absolute_timeout = from_secs (rw_absolute_timeout_seconds raw),
      session_requests_per_window =
        unwrap_or DEFAULT_SESSION_REQUESTS_PER_WINDOW (rw_session_requests_per_window raw),
      session_request_window =
        from_secs (unwrap_or DEFAULT_SESSION_REQUEST_WINDOW (rw_session_request_window_seconds raw)),
      authentication_failures_per_window =
        unwrap_or DEFAULT_AUTHENTICATION_FAILURES_PER_WINDOW (rw_authentication_failures_per_window raw),
      authentication_failure_window =
        from_secs (unwrap_or DEFAULT_AUTHENTICATION_FAILURE_WINDOW
          (rw_authentication_failure_window_seconds raw))\<rparr>"

definition build_config :: "raw_config \<Rightarrow> server_transport \<Rightarrow> auth_config \<Rightarrow> target list \<Rightarrow> config" where
  "build_config raw transport auth targets =
     \<lparr>cf_server = \<lparr>sv_bind = rw_bind (rw_server raw), sv_mode = rw_mode (rw_server raw),
                   sv_public_url = rw_public_url (rw_server raw), sv_transport = transport\<rparr>,
      cf_auth = auth,
      cf_audit = \<lparr>ac_format = rw_format (rw_audit raw), ac_path = rw_path (rw_audit raw),
                  ac_recording = rw_recording (rw_audit raw)\<rparr>,
      cf_limits = build_limits (rw_limits raw),
      cf_targets = targets\<rparr>"

definition parse :: "config_lib \<Rightarrow> string \<Rightarrow> config_error + config" where
  "parse lib source =
     and_then (map_err ParseError (toml_from_str lib source)) (\<lambda>raw.
     and_then (convert_transport lib (rw_tls (rw_server raw)) (rw_trusted_proxy (rw_server raw))) (\<lambda>transport.
     and_then (convert_auth lib (rw_auth raw)) (\<lambda>auth.
     and_then (collect_results (\<lambda>(index, t). convert_target index t)
       (zip [0..<length (rw_targets raw)] (rw_targets raw))) (\<lambda>targets.
     and_then (validate_literal_path (rw_path (rw_audit raw)) ''audit.path'') (\<lambda>_.
     and_then (validate_nonempty (rw_public_url (rw_server raw)) ''server.public_url'' ''must not be empty'') (\<lambda>_.
     and_then (validate_limits (rw_limits raw)) (\<lambda>_.
     and_then (target_allowlist_new targets) (\<lambda>_.
     let c = build_config raw transport auth targets in
     and_then (validate_startup_contract lib c) (\<lambda>_. Inr c)))))))))"

definition load :: "config_lib \<Rightarrow> (path \<Rightarrow> string + string) \<Rightarrow> path \<Rightarrow> config_error + config" where
  "load lib read_to_string path =
     and_then (map_err (ReadError path) (read_to_string path)) (\<lambda>source. parse lib source)"

subsection \<open>What the validators accept\<close>

definition safe_username :: "string \<Rightarrow> bool" where
  "safe_username u \<longleftrightarrow> u \<noteq> [] \<and> length u \<le> 128 \<and> is_ascii_alphanumeric (hd u) \<and> last u \<noteq> CHR ''-''
     \<and> list_all name_byte u"

definition literal_path :: "path \<Rightarrow> bool" where
  "literal_path p \<longleftrightarrow> p \<noteq> [] \<and> is_str p \<and> char_of (0 :: nat) \<notin> set p \<and> \<not> starts_with p ''~''
     \<and> (\<forall>c \<in> set (chars p). \<not> expansion_char c)"

lemma validate_nonempty_ok: "validate_nonempty v f m = Inr u \<longleftrightarrow> v \<noteq> []"
  by (simp add: validate_nonempty_def)

lemma validate_username_value_ok: "validate_username_value v = Inr u \<longleftrightarrow> safe_username v"
  by (cases v) (auto simp: validate_username_value_def safe_username_def)

lemma validate_username_ok: "validate_username v f = Inr u \<longleftrightarrow> safe_username v"
  by (simp add: validate_username_def validate_username_value_ok)

lemma validate_literal_path_ok: "validate_literal_path p f = Inr u \<longleftrightarrow> literal_path p"
  by (auto simp: validate_literal_path_def literal_path_def list_ex_iff)

lemma validate_target_name_ok:
  "validate_target_name n f = Inr u \<longleftrightarrow>
     n \<noteq> [] \<and> length n \<le> 128 \<and> \<not> starts_with n ''-'' \<and> list_all name_byte n"
  by (auto simp: validate_target_name_def)

lemma check_range_ok:
  "check_range mx m fs = Inr u \<longleftrightarrow> (\<forall>(f, v) \<in> set fs. v \<noteq> 0 \<and> v \<le> mx)"
proof -
  have "check_range mx m fs = Inr u \<longleftrightarrow> (\<forall>fv \<in> set fs. snd fv \<noteq> 0 \<and> \<not> mx < snd fv)"
    by (simp add: check_range_def for_each_ok split_beta)
  then show ?thesis by (simp add: split_beta not_less)
qed

subsection \<open>Limits\<close>

definition limits_in_bounds :: "limits \<Rightarrow> bool" where
  "limits_in_bounds l \<longleftrightarrow>
     1 \<le> unat (max_sessions_per_user l) \<and> unat (max_sessions_per_user l) \<le> unat (max_sessions l)
     \<and> unat (max_sessions l) \<le> 1000000
     \<and> 1000000000 \<le> idle_timeout l \<and> idle_timeout l \<le> absolute_timeout l
     \<and> absolute_timeout l \<le> 31622400 * 1000000000
     \<and> 1 \<le> unat (session_requests_per_window l) \<and> unat (session_requests_per_window l) \<le> 1000000
     \<and> 1000000000 \<le> session_request_window l
     \<and> session_request_window l \<le> 31622400 * 1000000000
     \<and> 1 \<le> unat (authentication_failures_per_window l)
     \<and> unat (authentication_failures_per_window l) \<le> 1000000
     \<and> 1000000000 \<le> authentication_failure_window l
     \<and> authentication_failure_window l \<le> 31622400 * 1000000000"

lemma word_positive: "(w :: 'a::len word) \<noteq> 0 \<longleftrightarrow> 1 \<le> unat w"
  by (simp add: unat_eq_zero [symmetric] Suc_le_eq)

lemma validate_limits_ok:
  "validate_limits raw = Inr u \<longleftrightarrow> limits_in_bounds (build_limits raw)"
  by (auto simp: validate_limits_def check_range_ok limits_in_bounds_def build_limits_def from_secs_def
      word_positive not_less word_le_nat_alt MAX_SESSIONS_def MAX_TIMEOUT_SECONDS_def MAX_RATE_ALLOWANCE_def)

subsection \<open>The allowlist\<close>

lemma allowlist_from_ok:
  assumes "allowlist_from i ts m = Inr al" "bt_wf m" "\<forall>n t. hm_get m n = Some t \<longrightarrow> target_name t = n"
  shows "bt_wf al \<and> distinct (map target_name ts) \<and> (\<forall>t \<in> set ts. hm_get m (target_name t) = None)
    \<and> (\<forall>n t. hm_get al n = Some t \<longleftrightarrow> hm_get m n = Some t \<or> (t \<in> set ts \<and> target_name t = n))
    \<and> (\<forall>j < length ts. validate_typed_target (i + j) (ts ! j) = Inr ())"
  using assms
proof (induction ts arbitrary: i m)
  case (Cons t ts)
  let ?m = "bt_insert (target_name t) t m"
  from Cons.prems have v: "validate_typed_target i t = Inr ()"
    and new: "hm_get m (target_name t) = None" and rest: "allowlist_from (Suc i) ts ?m = Inr al"
    by auto
  have "\<forall>n t'. hm_get ?m n = Some t' \<longrightarrow> target_name t' = n"
    using Cons.prems by (simp add: bt_get_insert)
  note ih = Cons.IH [OF rest bt_wf_insert [OF Cons.prems(2)] this]
  have get: "hm_get ?m = (hm_get m)(target_name t \<mapsto> t)"
    using Cons.prems by (simp add: bt_get_insert)
  have "\<forall>j < length (t # ts). validate_typed_target (i + j) ((t # ts) ! j) = Inr ()"
    using v ih by (auto simp: nth_Cons split: nat.splits)
  with ih get new show ?case
    by (fastforce split: if_splits)
qed simp

lemma target_allowlist_new_ok:
  assumes "target_allowlist_new ts = Inr al"
  shows "bt_wf al" "distinct (map target_name ts)"
    "hm_get al n = Some t \<longleftrightarrow> t \<in> set ts \<and> target_name t = n"
    "j < length ts \<Longrightarrow> validate_typed_target j (ts ! j) = Inr ()"
  using allowlist_from_ok [of 0 ts "[]" al] assms
  by (simp_all add: target_allowlist_new_def bt_wf_def)

lemma allowlist_values:
  assumes "target_allowlist_new ts = Inr al"
  shows "set al = (\<lambda>t. (target_name t, t)) ` set ts"
proof -
  have "(n, t) \<in> set al \<longleftrightarrow> t \<in> set ts \<and> target_name t = n" for n t
    using target_allowlist_new_ok [OF assms] bt_wf_hm_wf hm_get_mem by metis
  then show ?thesis by force
qed

lemma allowlist_iter_names:
  assumes "target_allowlist_new ts = Inr al"
  shows "map target_name (allowlist_iter al) = map fst al"
proof -
  have "\<forall>x \<in> set al. target_name (snd x) = fst x"
    using allowlist_values [OF assms] by auto
  then show ?thesis by (simp add: allowlist_iter_def hm_values_def)
qed

lemma allowlist_targets_valid:
  assumes "target_allowlist_new ts = Inr al" "hm_get al n = Some t"
  shows "\<exists>i. validate_typed_target i t = Inr ()"
  using target_allowlist_new_ok [OF assms(1)] assms(2) by (metis in_set_conv_nth)

subsection \<open>Properties\<close>

text \<open>Exactly the configured targets resolve: an accepted target list has distinct names, a name
  resolves to a target iff that target is configured under it, every other name is refused with
  itself, and iteration lists exactly the configured targets in strictly ascending name order.\<close>

theorem allowlist_exact:
  assumes "target_allowlist_new ts = Inr al"
  shows "distinct (map target_name ts)
    \<and> (\<forall>n t. allowlist_resolve al n = Inr t \<longleftrightarrow> t \<in> set ts \<and> target_name t = n)
    \<and> (\<forall>n e. allowlist_resolve al n = Inl e \<longleftrightarrow> n \<notin> target_name ` set ts \<and> e = UnknownTarget n)
    \<and> set (allowlist_iter al) = set ts
    \<and> sorted_wrt (<) (map target_name (allowlist_iter al))"
proof (intro conjI allI)
  note new = target_allowlist_new_ok [OF assms]
  show "distinct (map target_name ts)" by (rule new)
  fix n t e
  show "allowlist_resolve al n = Inr t \<longleftrightarrow> t \<in> set ts \<and> target_name t = n"
    by (simp add: allowlist_resolve_def new)
  have "hm_get al n = None \<longleftrightarrow> n \<notin> target_name ` set ts"
    by (metis (no_types, lifting) image_iff new(3) not_None_eq)
  then show "allowlist_resolve al n = Inl e \<longleftrightarrow> n \<notin> target_name ` set ts \<and> e = UnknownTarget n"
    by (auto simp: allowlist_resolve_def)
  show "set (allowlist_iter al) = set ts"
    using allowlist_values [OF assms] by (auto simp: allowlist_iter_def hm_values_def image_image)
  show "sorted_wrt (<) (map target_name (allowlist_iter al))"
    using new(1) by (simp add: allowlist_iter_names [OF assms] bt_wf_def)
qed

text \<open>C24: The startup contract accepts a configuration iff its public URL parses to a bare origin
  whose scheme fits the transport, and either development authentication meets development mode,
  a loopback listener and no proxy transport, or trusted-proxy authentication meets the
  trusted-proxy transport. So a production server always authenticates through a trusted proxy.\<close>

theorem startup_contract_exact:
  "validate_startup_contract lib c = Inr () \<longleftrightarrow>
     (\<exists>u. url_parse lib (sv_public_url (cf_server c)) = Some u \<and> bare_origin_url u
        \<and> url_scheme u = expected_scheme (sv_transport (cf_server c)))
     \<and> (case cf_auth c of
          AuthDev _ \<Rightarrow> sv_mode (cf_server c) = ModeDev
            \<and> is_loopback (addr_ip (sv_bind (cf_server c)))
            \<and> (\<exists>tls. sv_transport (cf_server c) \<in> {Plaintext, DirectTls tls})
        | AuthTrustedProxy _ \<Rightarrow> \<exists>p. sv_transport (cf_server c) = TrustedProxyTransport p)"
  by (cases "sv_mode (cf_server c)")
    (auto simp: validate_startup_contract_def Let_def split: auth_config.splits server_transport.splits)

text \<open>An SSH user is resolved iff the policy grants it to the authenticated identity and it is
  a safe username: 1 to 128 letters, digits, dots, underscores and hyphens, starting with a letter
  or digit and not ending with a hyphen, so it can never be read as an option.\<close>

theorem resolved_username_exact:
  "ssh_user_policy_resolve policy who = Inr user \<longleftrightarrow>
     (case policy of
        Fixed u \<Rightarrow> user = u
      | SameAsAuthenticatedUser \<Rightarrow> user = who
      | Mapping m \<Rightarrow> hm_get m who = Some user)
     \<and> 1 \<le> length user \<and> length user \<le> 128 \<and> list_all name_byte user
     \<and> is_ascii_alphanumeric (hd user) \<and> last user \<noteq> CHR ''-'' \<and> \<not> starts_with user ''-''"
proof -
  have "is_ascii_alphanumeric (hd user) \<Longrightarrow> \<not> starts_with user ''-''"
    by (cases user) (auto simp: starts_with_def ascii_defs)
  then show ?thesis
    by (auto simp: ssh_user_policy_resolve_def policy_user_def validate_username_value_ok
      safe_username_def Suc_le_eq split: ssh_user_policy.splits)
qed


subsection \<open>Canonical SSH hosts\<close>

definition host_char :: "char \<Rightarrow> bool" where
  "host_char c \<longleftrightarrow> (is_ascii_alphanumeric c \<and> \<not> is_ascii_uppercase c) \<or> c \<in> set ''.:-''"

lemma addr_char_host: "addr_char c \<Longrightarrow> host_char c \<and> c \<noteq> CHR ''-''"
proof (cases "is_ascii_digit c")
  case True
  then show ?thesis
    by (auto simp: host_char_def is_ascii_alphanumeric_def is_ascii_digit_def is_ascii_uppercase_def)
next
  case False
  have "list_all (\<lambda>d. host_char d \<and> d \<noteq> CHR ''-'') ''abcdef.:''"
    by code_simp
  moreover assume "addr_char c"
  ultimately show ?thesis
    using False by (auto simp: addr_char_def list_all_iff)
qed

lemma split_on_parts: "x \<in> set s \<Longrightarrow> x = c \<or> (\<exists>p \<in> set (split_on c s). x \<in> set p)"
proof (induction s)
  case (Cons y s)
  then show ?case by (cases "split_on c s") auto
qed simp

lemma split_on_hd: "s \<noteq> [] \<Longrightarrow> hd (split_on c s) \<noteq> [] \<Longrightarrow> hd (hd (split_on c s)) = hd s"
  by (cases s) (auto split: list.splits)

lemma ssh_labels_chars:
  assumes "list_all ssh_label (split_on (CHR ''.'') v)" "x \<in> set v"
  shows "is_ascii_alphanumeric x \<or> x \<in> {CHR ''-'', CHR ''.''}"
  using split_on_parts [OF assms(2), of "CHR ''.''"] assms(1)
  by (auto simp: list_all_iff ssh_label_def)

lemma ssh_labels_first:
  assumes "list_all ssh_label (split_on (CHR ''.'') v)" "v \<noteq> []"
  shows "is_ascii_alphanumeric (hd v)"
proof -
  have "ssh_label (hd (split_on (CHR ''.'') v))"
    using assms(1) by (cases "split_on (CHR ''.'') v") auto
  then show ?thesis
    using split_on_hd [OF assms(2), of "CHR ''.''"] by (simp add: ssh_label_def)
qed

lemma host_char_lower: "is_ascii_alphanumeric x \<or> x \<in> {CHR ''-'', CHR ''.''} \<Longrightarrow> host_char (ascii_lower x)"
proof (elim disjE)
  assume "is_ascii_alphanumeric x"
  then show ?thesis by (simp add: host_char_def)
next
  assume "x \<in> {CHR ''-'', CHR ''.''}"
  then show ?thesis by (auto simp: host_char_def ascii_lower_def is_ascii_uppercase_def)
qed

lemma alphanumeric_not_hyphen: "is_ascii_alphanumeric x \<Longrightarrow> x \<noteq> CHR ''-''"
  by (auto simp: ascii_defs)

text \<open>A host that passes \<open>canonical_ssh_host\<close> is a printed IP address or a lower-cased DNS name
  of dot-separated labels of 1 to 63 characters; either way it is not empty, does not begin with a
  hyphen, and contains only lower-case letters, digits, dots, colons and hyphens, so it can be
  neither an option nor carry user, port or pattern syntax into the SSH command line.\<close>

theorem canonical_host_safe:
  assumes "canonical_ssh_host value = Some host"
  shows "host \<noteq> [] \<and> hd host \<noteq> CHR ''-'' \<and> list_all host_char host
    \<and> ((\<exists>a. parse_ip_addr value = Some a \<and> host = show_ip_addr a)
      \<or> (host = to_ascii_lowercase value \<and> length host \<le> 253
          \<and> list_all (\<lambda>l. 1 \<le> length l \<and> length l \<le> 63) (split_on (CHR ''.'') value)))"
proof (cases "parse_ip_addr value")
  case (Some a)
  with assms have host: "host = show_ip_addr a" by (simp add: canonical_ssh_host_def)
  moreover have "host \<noteq> []"
    unfolding host using Some parse_ip_addr_V6_length by (intro show_ip_addr_nonempty) fastforce
  moreover have "list_all addr_char host"
    by (simp add: host show_ip_addr_addr)
  ultimately show ?thesis
    using Some addr_char_host by (auto simp: list_all_iff)
next
  case None
  with assms have v: "value \<noteq> []" "length value \<le> 253" "list_all ssh_label (split_on (CHR ''.'') value)"
    and host: "host = to_ascii_lowercase value"
    by (auto simp: canonical_ssh_host_def split: if_splits)
  have "host_char x" if "x \<in> set host" for x
    using that ssh_labels_chars [OF v(3)] host_char_lower by (auto simp: host to_ascii_lowercase_def)
  moreover have "hd host \<noteq> CHR ''-''"
    using ssh_labels_first [OF v(3,1)] v(1) alphanumeric_not_hyphen
    by (simp add: host to_ascii_lowercase_def hd_map)
  moreover have "list_all (\<lambda>l. 1 \<le> length l \<and> length l \<le> 63) (split_on (CHR ''.'') value)"
    using v(3) by (auto simp: list_all_iff ssh_label_def Suc_le_eq)
  ultimately show ?thesis
    using v by (auto simp: host list_all_iff to_ascii_lowercase_def)
qed

text \<open>A policy that the validators accepted grants only safe names, so resolution can fail with
  \<open>InvalidResolvedUser\<close> only for the policy that uses the authenticated name itself.\<close>

lemma validate_username_value_bad: "validate_username_value v = Inl u \<longleftrightarrow> \<not> safe_username v"
  using validate_username_value_ok [of v] by (cases "validate_username_value v") auto

lemma resolve_invalid:
  "ssh_user_policy_resolve p who = Inl InvalidResolvedUser \<longleftrightarrow>
     (\<exists>u. policy_user p who = Inr u \<and> \<not> safe_username u)"
  by (auto simp: ssh_user_policy_resolve_def policy_user_def and_then_eq_Inl map_err_eq_Inl
    validate_username_value_bad split: ssh_user_policy.splits)

lemma resolve_not_mapped:
  "ssh_user_policy_resolve p who = Inl (NotMapped w) \<longleftrightarrow>
     (\<exists>m. p = Mapping m \<and> w = who \<and> hm_get m who = None)"
  by (auto simp: ssh_user_policy_resolve_def policy_user_def and_then_eq_Inl map_err_eq_Inl
    split: ssh_user_policy.splits)

lemma resolve_ok:
  "ssh_user_policy_resolve p who = Inr u \<longleftrightarrow> policy_user p who = Inr u \<and> safe_username u"
  by (auto simp: ssh_user_policy_resolve_def validate_username_value_ok)

lemma validated_policy:
  assumes "validate_typed_policy i policy = Inr ()" "policy_user policy who = Inr u" "\<not> safe_username u"
  shows "policy = SameAsAuthenticatedUser"
proof (cases policy)
  case (Mapping m)
  with assms(2) have "(who, u) \<in> set m"
    by (simp add: policy_user_def hm_get_def map_of_SomeD)
  moreover have "\<forall>(j, v) \<in> set m. safe_username v"
    using assms(1) by (auto simp: Mapping validate_typed_policy_def for_each_ok validate_username_ok)
  ultimately show ?thesis using assms(3) by auto
qed (use assms in \<open>auto simp: policy_user_def validate_typed_policy_def validate_username_ok\<close>)

text \<open>Every target the allowlist resolves was validated: an SSH target has a canonical host, a
  port, literal paths and a policy whose resolution refuses an identity only because no mapping
  entry names it or, under the same-user policy, because the identity itself is unsafe; a PTY
  target runs a literal executable path.\<close>

theorem resolved_target_validated:
  assumes "target_allowlist_new ts = Inr al" "allowlist_resolve al name = Inr tgt"
  shows "case tgt of
      PtyTarget t \<Rightarrow> literal_path (pt_executable t)
    | SshTarget t \<Rightarrow>
        canonical_ssh_host (st_host t) \<noteq> None \<and> st_port t \<noteq> 0
        \<and> literal_path (st_ssh_executable t) \<and> literal_path (st_identity_file t)
        \<and> literal_path (st_known_hosts t)
        \<and> (case ssh_user_policy_resolve (st_user_policy t) who of
             Inr user \<Rightarrow> safe_username user
           | Inl (NotMapped w) \<Rightarrow> \<exists>m. st_user_policy t = Mapping m \<and> w = who \<and> hm_get m who = None
           | Inl InvalidResolvedUser \<Rightarrow>
               st_user_policy t = SameAsAuthenticatedUser \<and> \<not> safe_username who)"
proof -
  obtain i where i: "validate_typed_target i tgt = Inr ()"
    using allowlist_targets_valid [OF assms(1)] assms(2) by (auto simp: allowlist_resolve_def)
  show ?thesis
  proof (cases tgt)
    case (PtyTarget t)
    with i show ?thesis by (simp add: validate_typed_target_def validate_literal_path_ok)
  next
    case (SshTarget t)
    with i have ok: "canonical_ssh_host (st_host t) \<noteq> None" "st_port t \<noteq> 0"
      "literal_path (st_ssh_executable t)" "literal_path (st_identity_file t)"
      "literal_path (st_known_hosts t)" "validate_typed_policy i (st_user_policy t) = Inr ()"
      by (auto simp: validate_typed_target_def validate_ssh_option_path_def validate_literal_path_ok)
    let ?r = "ssh_user_policy_resolve (st_user_policy t) who"
    have "case ?r of
             Inr user \<Rightarrow> safe_username user
           | Inl (NotMapped w) \<Rightarrow> \<exists>m. st_user_policy t = Mapping m \<and> w = who \<and> hm_get m who = None
           | Inl InvalidResolvedUser \<Rightarrow>
               st_user_policy t = SameAsAuthenticatedUser \<and> \<not> safe_username who"
    proof -
      consider (a) user where "?r = Inr user" | (b) w where "?r = Inl (NotMapped w)"
        | (c) "?r = Inl InvalidResolvedUser"
        by (metis sum.exhaust user_policy_error.exhaust)
      then show ?thesis
      proof cases
        case c
        then obtain u where u: "policy_user (st_user_policy t) who = Inr u" "\<not> safe_username u"
          by (auto simp: resolve_invalid)
        with validated_policy [OF ok(6)] have "st_user_policy t = SameAsAuthenticatedUser" .
        with c u show ?thesis by (simp add: policy_user_def)
      qed (simp_all, simp_all add: resolve_ok resolve_not_mapped)
    qed
    with ok SshTarget show ?thesis by simp
  qed
qed

subsection \<open>What parsing returns\<close>

text \<open>What each part of a configuration is for its part of the schema, stated without the conversions.\<close>

definition transport_of_schema :: "config_lib \<Rightarrow> raw_server \<Rightarrow> server_transport \<Rightarrow> bool" where
  "transport_of_schema lib s transport =
     (case transport of
        Plaintext \<Rightarrow> rw_tls s = None \<and> rw_trusted_proxy s = None
      | DirectTls t \<Rightarrow> rw_trusted_proxy s = None
          \<and> rw_tls s = Some \<lparr>rw_certificate = Some (certificate t), rw_private_key = Some (private_key t)\<rparr>
          \<and> literal_path (certificate t) \<and> literal_path (private_key t)
      | TrustedProxyTransport p \<Rightarrow> rw_tls s = None \<and> distinct (trusted_sources p) \<and> trusted_sources p \<noteq> []
          \<and> (\<exists>sources. rw_trusted_proxy s = Some \<lparr>rw_trusted_sources = Some sources\<rparr>
               \<and> list_all2 (\<lambda>source net. ipnet_to_string lib net = source
                    \<and> map_option (ipnet_trunc lib) (ipnet_from_str lib source) = Some net) sources (trusted_sources p)))"

definition auth_of_schema :: "config_lib \<Rightarrow> raw_auth \<Rightarrow> auth_config \<Rightarrow> bool" where
  "auth_of_schema lib raw auth =
     (case auth of
        AuthDev user \<Rightarrow> raw = \<lparr>rw_provider = ProviderDev, rw_user = Some user, rw_identity_header = None\<rparr> \<and> user \<noteq> []
      | AuthTrustedProxy h \<Rightarrow> (\<exists>name. header_name_from_str lib name = Some h
          \<and> raw = \<lparr>rw_provider = ProviderTrustedProxy, rw_user = None, rw_identity_header = Some name\<rparr>))"

fun policy_of_schema :: "raw_user_policy \<Rightarrow> string option \<Rightarrow> (string \<times> string) list option \<Rightarrow> ssh_user_policy \<Rightarrow> bool" where
  "policy_of_schema raw user mapping (Fixed u) = (raw = PolicyFixed \<and> user = Some u \<and> mapping = None)"
| "policy_of_schema raw user mapping SameAsAuthenticatedUser = (raw = PolicySameAsAuthUser \<and> user = None \<and> mapping = None)"
| "policy_of_schema raw user mapping (Mapping m) = (raw = PolicyMapping \<and> user = None \<and> mapping = Some m)"

fun target_of_schema :: "raw_target \<Rightarrow> target \<Rightarrow> bool" where
  "target_of_schema (RawPty name command ro) (PtyTarget t) =
     (name = pt_name t \<and> command = pt_executable t # pt_argv t \<and> ro = pt_read_only t)"
| "target_of_schema (RawSsh r) (SshTarget t) =
     (rs_name r = st_name t \<and> rs_host r = st_host t \<and> rs_port r = st_port t
      \<and> rs_ssh_executable r = st_ssh_executable t \<and> rs_identity_file r = st_identity_file t
      \<and> rs_known_hosts r = st_known_hosts t \<and> rs_read_only r = st_read_only t
      \<and> policy_of_schema (rs_user_policy r) (rs_user r) (rs_user_mapping r) (st_user_policy t))"
| "target_of_schema _ _ = False"

definition limits_of_schema :: "raw_limits \<Rightarrow> limits \<Rightarrow> bool" where
  "limits_of_schema raw l \<longleftrightarrow>
     max_sessions l = rw_max_sessions raw \<and> max_sessions_per_user l = rw_max_sessions_per_user raw
     \<and> idle_timeout l = from_secs (rw_idle_timeout_seconds raw)
     \<and> absolute_timeout l = from_secs (rw_absolute_timeout_seconds raw)
     \<and> session_requests_per_window l = (case rw_session_requests_per_window raw of None \<Rightarrow> 10 | Some n \<Rightarrow> n)
     \<and> session_request_window l = from_secs (case rw_session_request_window_seconds raw of None \<Rightarrow> 60 | Some n \<Rightarrow> n)
     \<and> authentication_failures_per_window l = (case rw_authentication_failures_per_window raw of None \<Rightarrow> 20 | Some n \<Rightarrow> n)
     \<and> authentication_failure_window l = from_secs (case rw_authentication_failure_window_seconds raw of None \<Rightarrow> 60 | Some n \<Rightarrow> n)"

lemma convert_sources_ok:
  "convert_sources lib seen sources = Inr nets \<longleftrightarrow>
     list_all2 (\<lambda>source net. ipnet_to_string lib net = source
       \<and> map_option (ipnet_trunc lib) (ipnet_from_str lib source) = Some net) sources nets
     \<and> distinct nets \<and> set nets \<inter> set seen = {}"
proof (induction lib seen sources arbitrary: nets rule: convert_sources.induct)
  case (2 lib seen source sources)
  show ?case
  proof (cases "ipnet_from_str lib source")
    case (Some parsed)
    with 2 [OF refl] show ?thesis
      by (cases nets) (auto simp: Let_def map_ok_eq_Inr)
  qed (cases nets; simp)
qed auto

lemma trusted_sources_eta: "p = \<lparr>trusted_sources = nets\<rparr> \<longleftrightarrow> nets = trusted_sources p"
  by (cases p) auto

lemma convert_transport_ok:
  "convert_transport lib (rw_tls s) (rw_trusted_proxy s) = Inr transport \<longleftrightarrow> transport_of_schema lib s transport"
proof (cases "rw_tls s")
  case None
  show ?thesis
  proof (cases "rw_trusted_proxy s")
    case (Some p)
    with None show ?thesis
      by (cases p; cases transport)
        (auto simp: convert_transport_def transport_of_schema_def convert_sources_ok trusted_sources_eta
          dest: list_all2_lengthD)
  qed (use None in \<open>cases transport; auto simp: convert_transport_def transport_of_schema_def\<close>)
next
  case (Some t)
  then show ?thesis
    by (cases t; cases "rw_trusted_proxy s"; cases transport)
      (auto simp: convert_transport_def transport_of_schema_def validate_literal_path_ok intro: tls_config.equality)
qed

lemma convert_auth_ok: "convert_auth lib raw = Inr auth \<longleftrightarrow> auth_of_schema lib raw auth"
  by (cases raw; cases auth)
    (auto simp: convert_auth_def auth_of_schema_def validate_nonempty_ok split: raw_auth_provider.splits)

text \<open>A conversion keeps what it read; whatever else it demands, the allowlist demands too.\<close>

lemma validate_policy_index: "validate_typed_policy i policy = Inr () \<Longrightarrow> validate_typed_policy j policy = Inr ()"
  by (auto simp: validate_typed_policy_def validate_username_ok validate_identity_def for_each_ok
    split: ssh_user_policy.splits)

lemma convert_policy_ok:
  "convert_policy i r = Inr policy \<longleftrightarrow>
     policy_of_schema (rs_user_policy r) (rs_user r) (rs_user_mapping r) policy \<and> validate_typed_policy i policy = Inr ()"
  by (cases policy) (auto simp: convert_policy_def validate_typed_policy_def reject_stray_policy_fields_def
    split: raw_user_policy.splits)

lemma convert_target_ok:
  assumes valid: "validate_typed_target j t = Inr ()"
  shows "convert_target i raw = Inr t \<longleftrightarrow> target_of_schema raw t"
proof (cases t)
  case (PtyTarget p)
  with valid show ?thesis
    by (cases raw) (auto simp: convert_target_def validate_typed_target_def validate_literal_path_ok validate_target_name_ok
      intro: pty_target.equality split: list.splits)
next
  case (SshTarget q)
  from valid SshTarget have policy: "validate_typed_policy i (st_user_policy q) = Inr ()"
    by (auto simp: validate_typed_target_def intro: validate_policy_index)
  from valid SshTarget show ?thesis
    by (cases raw) (auto simp: convert_target_def validate_typed_target_def validate_literal_path_ok validate_target_name_ok
      validate_nonempty_ok validate_ssh_option_path_def convert_policy_ok policy intro: ssh_target.equality
      split: list.splits)
qed

lemma convert_targets_ok:
  assumes "is_ok (target_allowlist_new targets)"
  shows "collect_results (\<lambda>(i, t). convert_target i t) (zip [0..<length raws] raws) = Inr targets
    \<longleftrightarrow> list_all2 target_of_schema raws targets"
proof -
  from assms obtain al where "allowlist_from 0 targets [] = Inr al"
    by (auto simp: target_allowlist_new_def is_ok_def split: sum.splits)
  from allowlist_from_ok [OF this] have valid: "\<forall>j < length targets. validate_typed_target j (targets ! j) = Inr ()"
    by (simp add: bt_wf_def hm_get_def)
  show ?thesis
    by (auto simp: collect_results_ok list_all2_conv_all_nth convert_target_ok [OF valid [rule_format]])
qed

lemma build_limits_ok: "limits_of_schema raw l \<longleftrightarrow> l = build_limits raw"
  by (auto simp: limits_of_schema_def build_limits_def unwrap_or_def DEFAULT_SESSION_REQUESTS_PER_WINDOW_def
    DEFAULT_SESSION_REQUEST_WINDOW_def DEFAULT_AUTHENTICATION_FAILURES_PER_WINDOW_def DEFAULT_AUTHENTICATION_FAILURE_WINDOW_def
    intro!: limits.equality split: option.splits)

definition config_of_schema :: "config_lib \<Rightarrow> raw_config \<Rightarrow> config \<Rightarrow> bool" where
  "config_of_schema lib raw c \<longleftrightarrow>
     sv_bind (cf_server c) = rw_bind (rw_server raw) \<and> sv_mode (cf_server c) = rw_mode (rw_server raw)
     \<and> sv_public_url (cf_server c) = rw_public_url (rw_server raw)
     \<and> transport_of_schema lib (rw_server raw) (sv_transport (cf_server c))
     \<and> auth_of_schema lib (rw_auth raw) (cf_auth c)
     \<and> ac_format (cf_audit c) = rw_format (rw_audit raw) \<and> ac_path (cf_audit c) = rw_path (rw_audit raw)
     \<and> ac_recording (cf_audit c) = rw_recording (rw_audit raw)
     \<and> limits_of_schema (rw_limits raw) (cf_limits c)
     \<and> list_all2 target_of_schema (rw_targets raw) (cf_targets c)"

lemma build_config_ok:
  "config_of_schema lib raw c \<longleftrightarrow> (\<exists>transport auth targets. c = build_config raw transport auth targets
     \<and> transport_of_schema lib (rw_server raw) transport \<and> auth_of_schema lib (rw_auth raw) auth
     \<and> list_all2 target_of_schema (rw_targets raw) targets)"
proof -
  have "c = build_config raw (sv_transport (cf_server c)) (cf_auth c) (cf_targets c)" if "config_of_schema lib raw c"
    using that by (auto simp: config_of_schema_def build_config_def build_limits_ok
      intro!: config.equality server_config.equality audit_config.equality)
  then show ?thesis by (auto simp: config_of_schema_def) (auto simp: build_config_def build_limits_ok)
qed

text \<open>C25: Parsing succeeds exactly on files whose schema decodes and converts, field by field, to a
  configuration with limits inside their documented bounds, an audit path and a target list that pass
  their validators and a satisfied startup contract; the configuration returned is that one: its
  listener, mode, public URL, transport, authentication, audit settings, limits and targets are those
  of the file, defaults standing for absent rate limits only.\<close>

theorem parse_validated:
  "parse lib source = Inr c \<longleftrightarrow>
     (\<exists>raw. toml_from_str lib source = Inr raw \<and> config_of_schema lib raw c)
     \<and> limits_in_bounds (cf_limits c)
     \<and> literal_path (ac_path (cf_audit c))
     \<and> is_ok (target_allowlist_new (cf_targets c))
     \<and> sv_public_url (cf_server c) \<noteq> []
     \<and> validate_startup_contract lib c = Inr ()"
proof
  assume "parse lib source = Inr c"
  then obtain raw transport auth targets where
    raw: "toml_from_str lib source = Inr raw"
    and parts: "transport_of_schema lib (rw_server raw) transport" "auth_of_schema lib (rw_auth raw) auth"
      "collect_results (\<lambda>(i, t). convert_target i t) (zip [0..<length (rw_targets raw)] (rw_targets raw)) = Inr targets"
    and ok: "literal_path (rw_path (rw_audit raw))" "limits_in_bounds (build_limits (rw_limits raw))"
      "is_ok (target_allowlist_new targets)" "validate_startup_contract lib c = Inr ()" "rw_public_url (rw_server raw) \<noteq> []"
    and c: "c = build_config raw transport auth targets"
    by (auto simp: parse_def Let_def validate_literal_path_ok validate_limits_ok validate_nonempty_ok
      convert_transport_ok convert_auth_ok)
  from parts convert_targets_ok [OF ok(3)] have "config_of_schema lib raw c"
    by (auto simp: build_config_ok c)
  with raw ok show "(\<exists>raw. toml_from_str lib source = Inr raw \<and> config_of_schema lib raw c)
      \<and> limits_in_bounds (cf_limits c) \<and> literal_path (ac_path (cf_audit c)) \<and> is_ok (target_allowlist_new (cf_targets c))
      \<and> sv_public_url (cf_server c) \<noteq> [] \<and> validate_startup_contract lib c = Inr ()"
    by (auto simp: c build_config_def)
next
  assume ok: "(\<exists>raw. toml_from_str lib source = Inr raw \<and> config_of_schema lib raw c)
      \<and> limits_in_bounds (cf_limits c) \<and> literal_path (ac_path (cf_audit c)) \<and> is_ok (target_allowlist_new (cf_targets c))
      \<and> sv_public_url (cf_server c) \<noteq> [] \<and> validate_startup_contract lib c = Inr ()"
  then obtain raw transport auth targets where raw: "toml_from_str lib source = Inr raw"
    and c: "c = build_config raw transport auth targets" "transport_of_schema lib (rw_server raw) transport"
      "auth_of_schema lib (rw_auth raw) auth" "list_all2 target_of_schema (rw_targets raw) targets"
    by (auto simp: build_config_ok)
  have fields: "cf_targets c = targets" "ac_path (cf_audit c) = rw_path (rw_audit raw)"
    "cf_limits c = build_limits (rw_limits raw)" "sv_public_url (cf_server c) = rw_public_url (rw_server raw)"
    by (simp_all add: c(1) build_config_def)
  from ok obtain al where al: "target_allowlist_new targets = Inr al"
    by (cases "target_allowlist_new targets") (auto simp: fields)
  from ok have contract: "validate_startup_contract lib (build_config raw transport auth targets) = Inr ()"
    by (simp add: c(1))
  have "collect_results (\<lambda>(i, t). convert_target i t) (zip [0..<length (rw_targets raw)] (rw_targets raw)) = Inr targets"
    using convert_targets_ok [of targets] al c(4) by simp
  moreover have "convert_transport lib (rw_tls (rw_server raw)) (rw_trusted_proxy (rw_server raw)) = Inr transport"
    "convert_auth lib (rw_auth raw) = Inr auth" using c(2,3) by (simp_all add: convert_transport_ok convert_auth_ok)
  moreover have "validate_literal_path (rw_path (rw_audit raw)) ''audit.path'' = Inr ()"
    "validate_nonempty (rw_public_url (rw_server raw)) ''server.public_url'' ''must not be empty'' = Inr ()"
    "validate_limits (rw_limits raw) = Inr ()"
    using ok by (simp_all add: validate_literal_path_ok validate_limits_ok validate_nonempty_ok fields)
  ultimately show "parse lib source = Inr c"
    using raw al contract by (simp add: parse_def Let_def c(1) del: and_then_eq_Inr)
qed

subsection \<open>Examples\<close>

definition demo_ssh :: ssh_target where
  "demo_ssh = \<lparr>st_name = ''ssh'', st_host = ''H.ex'', st_port = 22,
     st_ssh_executable = ''/bin/ssh'', st_identity_file = ''/k/id'', st_known_hosts = ''/k/kh'',
     st_user_policy = Mapping [(''alice'', ''al'')], st_read_only = False\<rparr>"

definition demo_pty :: pty_target where
  "demo_pty = \<lparr>pt_name = ''pty'', pt_executable = ''/bin/sh'', pt_argv = [''-l''], pt_read_only = True\<rparr>"

definition demo_targets :: "target list" where
  "demo_targets = [SshTarget demo_ssh, PtyTarget demo_pty]"

definition demo_allowlist :: target_allowlist where
  "demo_allowlist = [(''pty'', PtyTarget demo_pty), (''ssh'', SshTarget demo_ssh)]"

definition demo_url :: url where
  "demo_url = \<lparr>url_scheme = ''http'', url_username = [], url_password = None,
     url_host = Some ''localhost'', url_path = ''/'', url_query = None, url_fragment = None,
     url_origin_of = TupleOrigin ''http'' ''localhost'' 80\<rparr>"

definition demo_raw :: raw_config where
  "demo_raw =
     \<lparr>rw_server = \<lparr>rw_bind = \<lparr>addr_ip = V4 127 0 0 1, addr_port = 80\<rparr>, rw_mode = ModeDev,
        rw_public_url = ''http://localhost/'', rw_tls = None, rw_trusted_proxy = None\<rparr>,
      rw_auth = \<lparr>rw_provider = ProviderDev, rw_user = Some ''dev'', rw_identity_header = None\<rparr>,
      rw_audit = \<lparr>rw_format = AuditJson, rw_path = ''/var/a'', rw_recording = False\<rparr>,
      rw_limits = \<lparr>rw_max_sessions = 2, rw_max_sessions_per_user = 1, rw_idle_timeout_seconds = 1,
        rw_absolute_timeout_seconds = 2, rw_session_requests_per_window = None,
        rw_session_request_window_seconds = None, rw_authentication_failures_per_window = None,
        rw_authentication_failure_window_seconds = None\<rparr>,
      rw_targets = [RawPty ''pty'' [''/bin/sh'', ''-l''] True]\<rparr>"

definition demo_config_lib :: config_lib where
  "demo_config_lib =
     \<lparr>toml_from_str = (\<lambda>s. if s = ''demo'' then Inr demo_raw else Inl ''expected a table''),
      url_parse = (\<lambda>s. if s = ''http://localhost/'' then Some demo_url else None),
      ipnet_from_str = (\<lambda>s. map_option (\<lambda>a. IpNet a 32) (parse_ip_addr s)),
      ipnet_trunc = id,
      ipnet_to_string = (\<lambda>n. case n of IpNet a p \<Rightarrow> show_ip_addr a),
      ipnet_contains = (\<lambda>n a. case n of IpNet b p \<Rightarrow> a = b),
      header_name_from_str = (\<lambda>s. if s = [] then None else Some (to_ascii_lowercase s))\<rparr>"

definition demo_config :: config where
  "demo_config = build_config demo_raw Plaintext (AuthDev ''dev'') [PtyTarget demo_pty]"

lemma demo_host: "canonical_ssh_host ''H.ex'' = Some ''h.ex''"
proof -
  have d: "to_digit r (CHR ''H'') = None" if "r \<le> 16" for r
    using that by (simp add: to_digit_def ascii_defs)
  have "read_groups 0 (Suc k) ''H.ex'' = ([], False, ''H.ex'')" for k
    by (simp add: read_ipv4_addr_def read_octet_def read_separator_def read_number_def d)
  from this [of 7] have "parse_ip_addr ''H.ex'' = None"
    by (simp add: parse_ip_addr_def whole_def read_ip_addr_def read_ipv4_addr_def read_octet_def
      read_separator_def read_number_def read_ipv6_addr_def d)
  moreover have "map ascii_lower ''H.ex'' = ''h.ex''"
    by code_simp
  ultimately show ?thesis
    by (simp only: canonical_ssh_host_def to_ascii_lowercase_def)
      (simp add: ascii_defs ssh_label_def is_ascii_def)
qed

lemma nul_char: "char_of (0 :: nat) = CHR 0x00"
  by (simp add: char_of_def)

lemmas demo_simps = nul_char validate_literal_path_ok validate_target_name_ok validate_username_ok
  validate_nonempty_ok literal_path_def safe_username_def name_byte_def ascii_defs starts_with_def
  chars_ascii is_ascii_is_str is_ascii_def expansion_char_def option_lexer_char_def

lemma demo_allowlist_new: "target_allowlist_new demo_targets = Inr demo_allowlist"
  by (simp add: target_allowlist_new_def demo_targets_def demo_allowlist_def demo_ssh_def demo_pty_def
    validate_typed_target_def validate_ssh_option_path_def validate_typed_policy_def
    validate_identity_def demo_host demo_simps hm_get_def is_whitespace_def is_control_def)

lemma demo_pty_valid: "validate_typed_target i (PtyTarget demo_pty) = Inr ()"
  by (simp add: validate_typed_target_def demo_pty_def demo_simps)

lemma demo_limits: "validate_limits (rw_limits demo_raw) = Inr ()"
  by (simp add: validate_limits_ok limits_in_bounds_def build_limits_def demo_raw_def from_secs_def
    unwrap_or_def DEFAULT_SESSION_REQUESTS_PER_WINDOW_def DEFAULT_SESSION_REQUEST_WINDOW_def
    DEFAULT_AUTHENTICATION_FAILURES_PER_WINDOW_def DEFAULT_AUTHENTICATION_FAILURE_WINDOW_def)

lemma demo_contract: "validate_startup_contract demo_config_lib demo_config = Inr ()"
  by (simp add: validate_startup_contract_def demo_config_lib_def demo_config_def build_config_def
    demo_raw_def demo_url_def bare_origin_url_def)

lemma demo_convert:
  "convert_target 0 (RawPty ''pty'' [''/bin/sh'', ''-l''] True) = Inr (PtyTarget demo_pty)"
  by (simp add: convert_target_def demo_pty_def demo_simps)

lemma demo_parse: "parse demo_config_lib ''demo'' = Inr demo_config"
proof -
  have "toml_from_str demo_config_lib ''demo'' = Inr demo_raw"
    by (simp add: demo_config_lib_def)
  moreover have "convert_transport demo_config_lib (rw_tls (rw_server demo_raw))
      (rw_trusted_proxy (rw_server demo_raw)) = Inr Plaintext"
    by (simp add: convert_transport_def demo_raw_def)
  moreover have "convert_auth demo_config_lib (rw_auth demo_raw) = Inr (AuthDev ''dev'')"
    by (simp add: convert_auth_def demo_raw_def demo_simps)
  moreover have "rw_targets demo_raw = [RawPty ''pty'' [''/bin/sh'', ''-l''] True]"
    by (simp add: demo_raw_def)
  moreover have "literal_path (rw_path (rw_audit demo_raw))"
    by (simp add: demo_raw_def demo_simps)
  moreover have "rw_public_url (rw_server demo_raw) \<noteq> []"
    by (simp add: demo_raw_def)
  moreover have "target_allowlist_new [PtyTarget demo_pty] = Inr [(''pty'', PtyTarget demo_pty)]"
    by (simp add: target_allowlist_new_def demo_pty_valid) (simp add: demo_pty_def)
  ultimately show ?thesis
    using demo_limits demo_contract
    by (simp add: parse_def demo_convert Let_def validate_literal_path_ok validate_nonempty_ok
      demo_config_def [symmetric])
qed

theorem allowlist_exact_witness:
  "\<exists>al. target_allowlist_new demo_targets = Inr al \<and> distinct (map target_name demo_targets)
    \<and> allowlist_resolve al ''pty'' = Inr (PtyTarget demo_pty)
    \<and> allowlist_resolve al ''sh'' = Inl (UnknownTarget ''sh'')"
proof -
  have "target_name (PtyTarget demo_pty) = ''pty''" "PtyTarget demo_pty \<in> set demo_targets"
    "''sh'' \<notin> target_name ` set demo_targets"
    by (simp_all add: demo_targets_def demo_pty_def demo_ssh_def)
  with allowlist_exact [OF demo_allowlist_new] demo_allowlist_new show ?thesis by blast
qed

theorem canonical_host_safe_witness:
  "canonical_ssh_host ''H.ex'' = Some ''h.ex'' \<and> list_all host_char ''h.ex''"
  using canonical_host_safe [OF demo_host] demo_host by blast

theorem resolved_target_validated_witness:
  "canonical_ssh_host (st_host demo_ssh) \<noteq> None
    \<and> ssh_user_policy_resolve (st_user_policy demo_ssh) ''alice'' = Inr ''al''"
proof -
  have "allowlist_resolve demo_allowlist ''ssh'' = Inr (SshTarget demo_ssh)"
    by (simp add: allowlist_resolve_def demo_allowlist_def hm_get_def)
  with resolved_target_validated [OF demo_allowlist_new this]
  have "canonical_ssh_host (st_host demo_ssh) \<noteq> None" by simp
  moreover have "ssh_user_policy_resolve (st_user_policy demo_ssh) ''alice'' = Inr ''al''"
    by (simp add: resolve_ok policy_user_def demo_ssh_def hm_get_def demo_simps)
  ultimately show ?thesis ..
qed

theorem parse_validated_witness:
  "config_of_schema demo_config_lib demo_raw demo_config \<and> limits_in_bounds (cf_limits demo_config)"
  using iffD1 [OF parse_validated demo_parse] by (auto simp: demo_config_lib_def)

end
