(* ===== verification/Capacity.thy ===== *)
theory Capacity
  imports Config
begin

text \<open>
  Admission of sessions: the validated identity of \<open>ticket.rs\<close> and the lease table of \<open>session.rs\<close>
  (\<open>Capacity\<close>, \<open>CapacityInner\<close>, \<open>Lease\<close>, \<open>Reservation\<close>). A lease is pending until a deadline or
  live; a reservation owns one lease and removes it when it is dropped. Each operation takes the
  readings of the clock it makes. Lemmas: both bounds hold after every sequence of operations,
  what exactly admits a session, that dropping gives the place back, and that a closed table
  admits nothing any more.
\<close>

subsection \<open>Identity\<close>

datatype identity = Identity string

datatype identity_error = IdentityError

definition identity_new :: "string \<Rightarrow> identity_error + identity" where
  "identity_new value =
     and_then (fail_if (value = [] \<or> length value > 128 \<or> list_ex is_control (chars value)) IdentityError)
       (\<lambda>_. Inr (Identity value))"

fun identity_str :: "identity \<Rightarrow> string" where
  "identity_str (Identity value) = value"

subsection \<open>Errors of the session manager\<close>

datatype session_error =
    GlobalLimit | IdentityLimit | SpawnUnavailable | TargetUnavailable | ManagerClosed
  | ReservationUnavailable | BackendUnavailable | AuditUnavailable | SshHostKeyFailed
  | SshConnectionFailed | SshAuthenticationFailed | SshPolicyDenied | SshFailed | SessionIsClosed
  | ReadOnly | InputTooLarge | InvalidResize | InvalidTransition

subsection \<open>Leases\<close>

datatype lease_state = Pending instant | Live

record lease =
  ls_identity :: identity
  ls_state :: lease_state

record capacity =
  cp_max_sessions :: u64
  cp_max_sessions_per_identity :: u64
  cp_next_id :: u64
  cp_closed :: bool
  cp_leases :: "(u64, lease) hash_map"

definition capacity_new :: "limits \<Rightarrow> capacity" where
  "capacity_new l =
     \<lparr>cp_max_sessions = max_sessions l, cp_max_sessions_per_identity = max_sessions_per_user l,
      cp_next_id = 0, cp_closed = False, cp_leases = []\<rparr>"

text \<open>A \<open>Reservation\<close>: the identifier of the lease it owns.\<close>

datatype reservation = Reservation "u64 option"

fun lease_expired :: "instant \<Rightarrow> lease_state \<Rightarrow> bool" where
  "lease_expired now (Pending expires_at) = (expires_at \<le> now)"
| "lease_expired now Live = False"

definition purge_expired_leases :: "instant \<Rightarrow> capacity \<Rightarrow> capacity" where
  "purge_expired_leases now c =
     c\<lparr>cp_leases := hm_retain (\<lambda>_ l. \<not> lease_expired now (ls_state l)) (cp_leases c)\<rparr>"

definition lease_count :: "identity \<Rightarrow> (u64, lease) hash_map \<Rightarrow> nat" where
  "lease_count who m = length (filter (\<lambda>l. ls_identity l = who) (hm_values m))"

definition reserve_with_state ::
  "instant \<Rightarrow> identity \<Rightarrow> lease_state \<Rightarrow> capacity \<Rightarrow> (session_error + reservation) \<times> capacity" where
  "reserve_with_state now who lease_st c0 =
     (let c = purge_expired_leases now c0 in
      if lease_expired now lease_st then (Inl ReservationUnavailable, c)
      else if cp_closed c then (Inl ManagerClosed, c)
      else if hm_len (cp_leases c) \<ge> unat (cp_max_sessions c) then (Inl GlobalLimit, c)
      else if lease_count who (cp_leases c) \<ge> unat (cp_max_sessions_per_identity c)
        then (Inl IdentityLimit, c)
      else (let i = cp_next_id c in
        (Inr (Reservation (Some i)),
         c\<lparr>cp_next_id := i + 1,
           cp_leases := hm_insert i \<lparr>ls_identity = who, ls_state = lease_st\<rparr> (cp_leases c)\<rparr>)))"

definition reserve :: "instant \<Rightarrow> identity \<Rightarrow> capacity \<Rightarrow> (session_error + reservation) \<times> capacity" where
  "reserve now who c = reserve_with_state now who Live c"

text \<open>\<open>reserve_pending\<close> reads the clock before it takes the lock and again under it.\<close>

definition reserve_pending ::
  "instant \<Rightarrow> instant \<Rightarrow> identity \<Rightarrow> instant \<Rightarrow> capacity \<Rightarrow> (session_error + reservation) \<times> capacity" where
  "reserve_pending now1 now2 who expires_at c =
     (if expires_at \<le> now1 then (Inl ReservationUnavailable, c)
      else reserve_with_state now2 who (Pending expires_at) c)"

definition close_pending :: "capacity \<Rightarrow> capacity" where
  "close_pending c =
     c\<lparr>cp_closed := True, cp_leases := hm_retain (\<lambda>_ l. ls_state l = Live) (cp_leases c)\<rparr>"

fun reservation_drop :: "reservation \<Rightarrow> capacity \<Rightarrow> capacity" where
  "reservation_drop (Reservation None) c = c"
| "reservation_drop (Reservation (Some i)) c = c\<lparr>cp_leases := hm_remove i (cp_leases c)\<rparr>"

text \<open>\<open>activate\<close> consumes the reservation: every early return drops it, after the lock is released.\<close>

definition activate ::
  "instant \<Rightarrow> reservation \<Rightarrow> identity \<Rightarrow> capacity \<Rightarrow> (session_error + reservation) \<times> capacity" where
  "activate now r who c0 =
     (case r of
        Reservation None \<Rightarrow> (Inl ReservationUnavailable, c0)
      | Reservation (Some i) \<Rightarrow>
          (let c = purge_expired_leases now c0 in
           if cp_closed c then (Inl ManagerClosed, reservation_drop r c)
           else (case hm_get (cp_leases c) i of
               None \<Rightarrow> (Inl ReservationUnavailable, reservation_drop r c)
             | Some l \<Rightarrow>
                 if ls_identity l \<noteq> who \<or> ls_state l = Live
                   then (Inl ReservationUnavailable, reservation_drop r c)
                 else (Inr r, c\<lparr>cp_leases := hm_insert i (l\<lparr>ls_state := Live\<rparr>) (cp_leases c)\<rparr>))))"

text \<open>Every operation that can reach the table, with the clock readings it makes.\<close>

datatype capacity_op =
    OpReserve instant identity
  | OpReservePending instant instant identity instant
  | OpActivate instant reservation identity
  | OpDrop reservation
  | OpClosePending

fun capacity_step :: "capacity \<Rightarrow> capacity_op \<Rightarrow> capacity" where
  "capacity_step c (OpReserve now who) = snd (reserve now who c)"
| "capacity_step c (OpReservePending now1 now2 who e) = snd (reserve_pending now1 now2 who e c)"
| "capacity_step c (OpActivate now r who) = snd (activate now r who c)"
| "capacity_step c (OpDrop r) = reservation_drop r c"
| "capacity_step c OpClosePending = close_pending c"

subsection \<open>Counting\<close>

lemma lease_count_insert:
  "lease_count who (hm_insert i l m) \<le> (if ls_identity l = who then Suc (lease_count who m) else lease_count who m)"
  by (induction m) (auto simp: lease_count_def hm_insert_def hm_values_def)

lemma lease_count_insert_new:
  "hm_get m i = None \<Longrightarrow> lease_count who (hm_insert i l m) =
     (if ls_identity l = who then Suc (lease_count who m) else lease_count who m)"
  by (induction m) (auto simp: lease_count_def hm_insert_def hm_values_def hm_get_def split: if_splits)

lemma lease_count_update:
  "hm_get m i = Some l \<Longrightarrow> ls_identity l' = ls_identity l \<Longrightarrow>
     lease_count who (hm_insert i l' m) = lease_count who m"
  by (induction m) (auto simp: lease_count_def hm_insert_def hm_values_def hm_get_def split: if_splits)

lemma lease_count_retain: "lease_count who (hm_retain P m) \<le> lease_count who m"
  by (induction m) (auto simp: lease_count_def hm_retain_def hm_values_def)

lemma lease_count_remove: "lease_count who (hm_remove i m) \<le> lease_count who m"
  by (induction m) (auto simp: lease_count_def hm_remove_def hm_values_def)

subsection \<open>The invariant\<close>

definition capacity_inv :: "capacity \<Rightarrow> bool" where
  "capacity_inv c \<longleftrightarrow> hm_wf (cp_leases c) \<and> hm_len (cp_leases c) \<le> unat (cp_max_sessions c)
     \<and> (\<forall>who. lease_count who (cp_leases c) \<le> unat (cp_max_sessions_per_identity c))
     \<and> (cp_closed c \<longrightarrow> (\<forall>i l. hm_get (cp_leases c) i = Some l \<longrightarrow> ls_state l = Live))"

lemma capacity_inv_leases:
  assumes "capacity_inv c" "hm_wf m" "hm_len m \<le> hm_len (cp_leases c)"
    "\<And>who. lease_count who m \<le> lease_count who (cp_leases c)"
    "\<And>i l. hm_get m i = Some l \<Longrightarrow> hm_get (cp_leases c) i = Some l \<or> ls_state l = Live"
  shows "capacity_inv (c\<lparr>cp_leases := m\<rparr>)"
proof -
  have "hm_len m \<le> unat (cp_max_sessions c)"
    using assms(1,3) by (simp add: capacity_inv_def)
  moreover have "lease_count who m \<le> unat (cp_max_sessions_per_identity c)" for who
    using assms(1) assms(4) [of who] by (meson capacity_inv_def le_trans)
  moreover have "ls_state l = Live" if "cp_closed c" "hm_get m i = Some l" for i l
    using assms(5) [OF that(2)] assms(1) that(1) by (auto simp: capacity_inv_def)
  ultimately show ?thesis
    using assms(2) by (simp add: capacity_inv_def)
qed

lemma capacity_inv_wf: "capacity_inv c \<Longrightarrow> hm_wf (cp_leases c)"
  by (simp add: capacity_inv_def)

lemma retain_inv: "capacity_inv c \<Longrightarrow> capacity_inv (c\<lparr>cp_leases := hm_retain P (cp_leases c)\<rparr>)"
  by (rule capacity_inv_leases)
    (simp_all add: capacity_inv_wf hm.wf_retain hm.len_retain lease_count_retain hm.get_retain_Some)

lemma purge_inv: "capacity_inv c \<Longrightarrow> capacity_inv (purge_expired_leases now c)"
  by (simp add: purge_expired_leases_def retain_inv)

lemma drop_inv: "capacity_inv c \<Longrightarrow> capacity_inv (reservation_drop r c)"
proof (cases "(r, c)" rule: reservation_drop.cases)
  case (2 i c')
  moreover assume "capacity_inv c"
  ultimately show ?thesis
    by (auto simp: capacity_inv_wf hm.wf_del hm.len_del lease_count_remove hm.get_del
      split: if_splits intro: capacity_inv_leases)
qed auto

lemma close_inv: "capacity_inv c \<Longrightarrow> capacity_inv (close_pending c)"
  using retain_inv [of c "\<lambda>_ l. ls_state l = Live"]
  by (auto simp: close_pending_def capacity_inv_def hm.get_retain_Some)

lemma reserve_inv:
  assumes "capacity_inv c" shows "capacity_inv (snd (reserve_with_state now who st c))"
proof -
  let ?c = "purge_expired_leases now c" and ?l = "\<lparr>ls_identity = who, ls_state = st\<rparr>"
  have inv: "capacity_inv ?c" by (rule purge_inv [OF assms])
  have "capacity_inv (?c\<lparr>cp_next_id := cp_next_id ?c + 1,
      cp_leases := hm_insert (cp_next_id ?c) ?l (cp_leases ?c)\<rparr>)"
    if "\<not> cp_closed ?c" "hm_len (cp_leases ?c) < unat (cp_max_sessions ?c)"
      "lease_count who (cp_leases ?c) < unat (cp_max_sessions_per_identity ?c)"
  proof -
    have "lease_count w (hm_insert (cp_next_id ?c) ?l (cp_leases ?c))
        \<le> unat (cp_max_sessions_per_identity ?c)" for w
      using lease_count_insert [of w "cp_next_id ?c" ?l "cp_leases ?c"] that inv
      by (auto simp: capacity_inv_def split: if_splits dest: spec [of _ w])
    with that inv show ?thesis
      by (auto simp: capacity_inv_def hm.wf_put hm.bounded_put)
  qed
  with inv show ?thesis
    by (auto simp: reserve_with_state_def Let_def)
qed

lemma activate_inv:
  assumes "capacity_inv c" shows "capacity_inv (snd (activate now r who c))"
proof (cases r)
  case (Reservation i')
  show ?thesis
  proof (cases i')
    case None
    then show ?thesis using assms by (simp add: activate_def Reservation)
  next
    case (Some i)
    let ?c = "purge_expired_leases now c"
    have inv: "capacity_inv ?c" by (rule purge_inv [OF assms])
    have "capacity_inv (?c\<lparr>cp_leases := hm_insert i (l\<lparr>ls_state := Live\<rparr>) (cp_leases ?c)\<rparr>)"
      if "hm_get (cp_leases ?c) i = Some l" for l
      using inv by (rule capacity_inv_leases)
        (use that inv in \<open>auto simp: capacity_inv_wf hm.wf_put hm.len_put_old lease_count_update
          split: if_splits\<close>)
    with inv drop_inv [OF inv, of r] Some show ?thesis
      by (auto simp: activate_def Reservation Let_def split: option.splits)
  qed
qed

lemma capacity_step_inv: "capacity_inv c \<Longrightarrow> capacity_inv (capacity_step c op)"
  by (cases "(c, op)" rule: capacity_step.cases)
    (auto simp: reserve_def reserve_pending_def reserve_inv activate_inv drop_inv close_inv)

interpretation cap: safety_system capacity_step capacity_inv
  by unfold_locales (rule capacity_step_inv)

lemma capacity_new_inv: "capacity_inv (capacity_new l)"
  by (simp add: capacity_inv_def capacity_new_def lease_count_def hm_values_def)

lemma capacity_run_inv: "capacity_inv (run capacity_step (capacity_new l) ops)"
  by (rule cap.run_inv [OF capacity_new_inv])

text \<open>The limits never change.\<close>

lemma purge_simps [simp]:
  "cp_max_sessions (purge_expired_leases now c) = cp_max_sessions c"
  "cp_max_sessions_per_identity (purge_expired_leases now c) = cp_max_sessions_per_identity c"
  "cp_next_id (purge_expired_leases now c) = cp_next_id c"
  "cp_closed (purge_expired_leases now c) = cp_closed c"
  by (simp_all add: purge_expired_leases_def)

lemma drop_simps [simp]:
  "cp_max_sessions (reservation_drop r c) = cp_max_sessions c"
  "cp_max_sessions_per_identity (reservation_drop r c) = cp_max_sessions_per_identity c"
  "cp_closed (reservation_drop r c) = cp_closed c"
  by (cases "(r, c)" rule: reservation_drop.cases; simp)+

lemma capacity_step_config:
  "cp_max_sessions (capacity_step c op) = cp_max_sessions c"
  "cp_max_sessions_per_identity (capacity_step c op) = cp_max_sessions_per_identity c"
  by (cases op; simp add: reserve_def reserve_pending_def reserve_with_state_def activate_def
    close_pending_def Let_def split: reservation.splits option.splits)+

lemma capacity_run_config:
  "cp_max_sessions (run capacity_step c ops) = cp_max_sessions c"
  "cp_max_sessions_per_identity (run capacity_step c ops) = cp_max_sessions_per_identity c"
  by (induction ops arbitrary: c) (simp_all add: capacity_step_config)

subsection \<open>The closed table\<close>

definition closed_cell :: "capacity \<Rightarrow> unit option" where
  "closed_cell c = (if cp_closed c then Some () else None)"

lemma capacity_step_closed: "cp_closed c \<Longrightarrow> cp_closed (capacity_step c op)"
  by (cases op) (auto simp: reserve_def reserve_pending_def reserve_with_state_def activate_def
    close_pending_def Let_def split: reservation.splits option.splits)

interpretation cap_closed: sticky_cell capacity_step closed_cell
  by unfold_locales (auto simp: closed_cell_def capacity_step_closed split: if_splits)

lemma run_closed: "cp_closed c \<Longrightarrow> cp_closed (run capacity_step c ops)"
  using cap_closed.run_sticky [of c "()" ops] by (simp add: closed_cell_def split: if_splits)

text \<open>What remains of a closed table is running sessions, and their number only goes down.\<close>

lemma closed_shrinks:
  assumes "cp_closed c" shows "hm_len (cp_leases (capacity_step c op)) \<le> hm_len (cp_leases c)"
proof -
  have p: "hm_len (cp_leases (purge_expired_leases now c)) \<le> hm_len (cp_leases c)" for now
    by (simp add: purge_expired_leases_def hm.len_retain)
  have d: "hm_len (cp_leases (reservation_drop r d)) \<le> hm_len (cp_leases d)" for r d
    by (cases "(r, d)" rule: reservation_drop.cases) (simp_all add: hm.len_del)
  have rm: "hm_len (hm_remove i (cp_leases (purge_expired_leases now c))) \<le> hm_len (cp_leases c)" for i now
    using hm.len_del p by (rule le_trans)
  show ?thesis
    using assms by (cases op) (auto simp: reserve_def reserve_pending_def reserve_with_state_def
      activate_def close_pending_def Let_def p d rm hm.len_retain split: reservation.splits option.splits)
qed

lemma run_closed_shrinks:
  "cp_closed c \<Longrightarrow> hm_len (cp_leases (run capacity_step c ops)) \<le> hm_len (cp_leases c)"
  by (induction ops arbitrary: c) (auto intro: le_trans dest: closed_shrinks capacity_step_closed)

lemma closed_refuses:
  assumes "cp_closed c"
  shows "fst (reserve now who c) = Inl ManagerClosed"
    "fst (reserve_pending now1 now2 who e c) \<in> {Inl ManagerClosed, Inl ReservationUnavailable}"
    "fst (activate now r who c) \<in> {Inl ManagerClosed, Inl ReservationUnavailable}"
  using assms by (auto simp: reserve_def reserve_pending_def reserve_with_state_def activate_def Let_def
    split: reservation.splits option.splits)

lemma closed_all_live:
  "capacity_inv c \<Longrightarrow> cp_closed c \<Longrightarrow> list_all (\<lambda>l. ls_state l = Live) (hm_values (cp_leases c))"
  by (auto simp: capacity_inv_def hm_values_def list_all_iff simp flip: hm_get_mem)

subsection \<open>Activation\<close>

definition activation_exact ::
  "instant \<Rightarrow> u64 \<Rightarrow> identity \<Rightarrow> capacity \<Rightarrow> (session_error + reservation) \<times> capacity \<Rightarrow> bool" where
  "activation_exact now i who c res \<longleftrightarrow>
     (let admissible = (\<not> cp_closed c \<and> (case hm_get (cp_leases c) i of
            Some x \<Rightarrow> ls_identity x = who \<and> ls_state x \<noteq> Live \<and> \<not> lease_expired now (ls_state x)
          | None \<Rightarrow> False)) in
      (case res of
        (Inr r, c') \<Rightarrow> r = Reservation (Some i) \<and> admissible
          \<and> hm_get (cp_leases c') i = Some \<lparr>ls_identity = who, ls_state = Live\<rparr>
          \<and> hm_len (cp_leases c') \<le> hm_len (cp_leases c)
      | (Inl _, c') \<Rightarrow> \<not> admissible \<and> hm_get (cp_leases c') i = None))"

lemma activate_result:
  assumes "hm_wf (cp_leases c)"
  shows "activation_exact now i who c (activate now (Reservation (Some i)) who c)"
proof -
  let ?p = "purge_expired_leases now c"
  have wf: "hm_wf (cp_leases ?p)"
    using assms by (simp add: purge_expired_leases_def hm.wf_retain)
  have len: "hm_len (cp_leases ?p) \<le> hm_len (cp_leases c)"
    by (simp add: purge_expired_leases_def hm.len_retain)
  have get: "hm_get (cp_leases ?p) i = (case hm_get (cp_leases c) i of None \<Rightarrow> None
      | Some x \<Rightarrow> if \<not> lease_expired now (ls_state x) then Some x else None)"
    using assms by (simp add: purge_expired_leases_def hm.get_retain)
  show ?thesis
  proof (cases "hm_get (cp_leases ?p) i")
    case None
    with get wf show ?thesis
      by (auto simp: activation_exact_def activate_def Let_def hm.get_del_same
        split: option.splits if_splits)
  next
    case p: (Some x)
    with get have x: "hm_get (cp_leases c) i = Some x" "\<not> lease_expired now (ls_state x)"
      by (auto split: option.splits if_splits)
    have "hm_len (hm_insert i (x\<lparr>ls_state := Live\<rparr>) (cp_leases ?p)) \<le> hm_len (cp_leases c)"
      using len p by (simp add: hm.len_put_old)
    then show ?thesis
      using x wf by (cases x) (auto simp add: activation_exact_def activate_def Let_def p hm.get_del_same)
  qed
qed

subsection \<open>Properties\<close>

text \<open>Whatever sequence of reservations, activations, drops and shutdown reaches the lease
  table, at any clock readings, it never holds more leases than the configured session limit, nor
  more of one identity than the configured limit per identity.\<close>

theorem capacity_bounded:
  "let c = run capacity_step (capacity_new l) ops in
     hm_len (cp_leases c) \<le> unat (max_sessions l)
     \<and> (\<forall>who. lease_count who (cp_leases c) \<le> unat (max_sessions_per_user l))"
  using capacity_run_inv [of l ops]
  by (simp add: Let_def capacity_inv_def capacity_run_config capacity_new_def)

text \<open>Shutdown is final: after \<open>close_pending\<close> no later sequence of operations makes any
  reservation or activation succeed, only live leases remain, and their number never grows.\<close>

theorem closed_table_drains:
  "let c = close_pending (run capacity_step (capacity_new l) before);
       c' = run capacity_step c later in
    fst (reserve now who c') = Inl ManagerClosed
    \<and> fst (reserve_pending now1 now2 who e c') \<in> {Inl ManagerClosed, Inl ReservationUnavailable}
    \<and> fst (activate now r who c') \<in> {Inl ManagerClosed, Inl ReservationUnavailable}
    \<and> list_all (\<lambda>l. ls_state l = Live) (hm_values (cp_leases c'))
    \<and> hm_len (cp_leases c') \<le> hm_len (cp_leases c)"
proof -
  let ?c = "close_pending (run capacity_step (capacity_new l) before)"
  have "cp_closed ?c" by (simp add: close_pending_def)
  moreover have "capacity_inv (run capacity_step ?c later)"
    by (intro cap.run_inv close_inv capacity_run_inv)
  ultimately show ?thesis
    unfolding Let_def using closed_refuses closed_all_live run_closed_shrinks run_closed by blast
qed

text \<open>A reservation activates iff the table is open and its lease is still there, pending, not
  expired and of the same identity; then the lease is live and nothing else changed. Every refusal
  gives the place back: the lease is gone.\<close>

theorem activate_exact:
  "let c = run capacity_step (capacity_new l) ops in
    activation_exact now i who c (activate now (Reservation (Some i)) who c)"
  unfolding Let_def by (intro activate_result capacity_inv_wf capacity_run_inv)

text \<open>A session is admitted iff its lease is not already expired, the table is open, and both
  limits have room once expired leases are gone; dropping the reservation restores the table.\<close>

theorem reserve_exact:
  assumes "hm_get (cp_leases c) (cp_next_id c) = None" "hm_wf (cp_leases c)"
  shows "case reserve_with_state now who st c of
      (Inr r, c') \<Rightarrow>
        \<not> lease_expired now st \<and> \<not> cp_closed c
        \<and> hm_len (cp_leases (purge_expired_leases now c)) < unat (cp_max_sessions c)
        \<and> lease_count who (cp_leases (purge_expired_leases now c)) < unat (cp_max_sessions_per_identity c)
        \<and> hm_get (cp_leases c') (cp_next_id c) = Some \<lparr>ls_identity = who, ls_state = st\<rparr>
        \<and> lease_count who (cp_leases c') = Suc (lease_count who (cp_leases (purge_expired_leases now c)))
        \<and> cp_leases (reservation_drop r c') = cp_leases (purge_expired_leases now c)
    | (Inl e, c') \<Rightarrow>
        c' = purge_expired_leases now c
        \<and> (e = ReservationUnavailable \<and> lease_expired now st
           \<or> e = ManagerClosed \<and> cp_closed c
           \<or> e = GlobalLimit \<and> unat (cp_max_sessions c) \<le> hm_len (cp_leases c')
           \<or> e = IdentityLimit \<and> unat (cp_max_sessions_per_identity c) \<le> lease_count who (cp_leases c'))"
proof -
  let ?m = "cp_leases (purge_expired_leases now c)"
  have fresh: "hm_get ?m (cp_next_id c) = None"
    using assms by (simp add: purge_expired_leases_def hm.get_retain)
  have "hm_remove (cp_next_id c) (hm_insert (cp_next_id c) v ?m) = ?m" for v
    using fresh by (simp add: hm_remove_def hm_insert_def hm_get_def delete_update_same delete_id
      map_of_eq_None_iff dom_map_of_conv_image_fst)
  with fresh show ?thesis
    by (auto simp: reserve_with_state_def Let_def lease_count_insert_new)
qed

definition demo_capacity :: capacity where
  "demo_capacity = \<lparr>cp_max_sessions = 2, cp_max_sessions_per_identity = 1, cp_next_id = 1,
     cp_closed = False, cp_leases = [(0, \<lparr>ls_identity = Identity ''al'', ls_state = Live\<rparr>)]\<rparr>"

theorem reserve_exact_witness:
  "fst (reserve_with_state 5 (Identity ''bo'') (Pending 9) demo_capacity) = Inr (Reservation (Some 1))
    \<and> cp_leases (reservation_drop (Reservation (Some 1))
        (snd (reserve_with_state 5 (Identity ''bo'') (Pending 9) demo_capacity)))
      = cp_leases (purge_expired_leases 5 demo_capacity)"
proof -
  have e: "reserve_with_state 5 (Identity ''bo'') (Pending 9) demo_capacity =
      (Inr (Reservation (Some 1)), demo_capacity\<lparr>cp_next_id := 2, cp_leases :=
        [(0, \<lparr>ls_identity = Identity ''al'', ls_state = Live\<rparr>),
         (1, \<lparr>ls_identity = Identity ''bo'', ls_state = Pending 9\<rparr>)]\<rparr>)"
    by (simp add: reserve_with_state_def demo_capacity_def purge_expired_leases_def hm_retain_def
      hm_len_def lease_count_def hm_values_def hm_insert_def)
  have "hm_get (cp_leases demo_capacity) (cp_next_id demo_capacity) = None" "hm_wf (cp_leases demo_capacity)"
    by (simp_all add: demo_capacity_def hm_get_def hm_wf_def)
  from reserve_exact [OF this, where now = 5 and who = "Identity ''bo''" and st = "Pending 9"] e show ?thesis by simp
qed

end
