(* ===== verification/Ledger.thy ===== *)
theory Ledger
  imports Capacity "HOL-Library.Multiset"
begin

text \<open>
  An abstract specification of how the program uses its session places. A stake is the right to one
  place of the lease table of \<open>session.rs\<close>: it is taken for an identity and a target by a session
  request, passes to the ticket, then to the session that the ticket starts, and is given back exactly
  once. The ledger is the lease table with the requests that ever took a place and the stakes that are
  out; its steps are the operations of the table. Lemmas: every lease has exactly one stake, a live one
  exactly for a live lease, and the n-th request is the one of the n-th place. The locale
  \<open>forward_simulation\<close> is what an implementation has to provide to inherit them.
\<close>

section \<open>Simulations\<close>

text \<open>An implementation whose steps keep its invariant and are runs of a specification.\<close>

locale forward_simulation =
  fixes impl :: "'s \<Rightarrow> 's \<Rightarrow> bool"
    and spec :: "'a \<Rightarrow> 'a \<Rightarrow> bool"
    and abs :: "'s \<Rightarrow> 'a"
    and inv :: "'s \<Rightarrow> bool"
  assumes impl_inv: "inv s \<Longrightarrow> impl s s' \<Longrightarrow> inv s'"
    and impl_spec: "inv s \<Longrightarrow> impl s s' \<Longrightarrow> spec\<^sup>*\<^sup>* (abs s) (abs s')"
begin

lemma run_simulates:
  assumes "impl\<^sup>*\<^sup>* s s'" "inv s"
  shows "inv s' \<and> spec\<^sup>*\<^sup>* (abs s) (abs s')"
  using assms by (induction rule: rtranclp_induct) (auto intro: impl_inv rtranclp_trans impl_spec)

end

section \<open>The ledger\<close>

record stake =
  sk_place :: u64
  sk_identity :: identity
  sk_target :: target
  sk_live :: bool

record ledger =
  lg_capacity :: capacity
  lg_requests :: "(identity \<times> target) list"
  lg_stakes :: "stake multiset"

inductive ledger_step :: "ledger \<Rightarrow> ledger \<Rightarrow> bool" where
  take: "reserve_pending n1 n2 who e (lg_capacity lg) = (Inr (Reservation (Some k)), cap) \<Longrightarrow>
    ledger_step lg (lg\<lparr>lg_capacity := cap, lg_requests := lg_requests lg @ [(who, t)],
      lg_stakes := add_mset \<lparr>sk_place = k, sk_identity = who, sk_target = t, sk_live = False\<rparr> (lg_stakes lg)\<rparr>)"
| turn_away: "reserve_pending n1 n2 who e (lg_capacity lg) = (Inl err, cap) \<Longrightarrow>
    ledger_step lg (lg\<lparr>lg_capacity := cap\<rparr>)"
| give_back: "lg_stakes lg = add_mset sk rest \<Longrightarrow>
    ledger_step lg (lg\<lparr>lg_capacity := reservation_drop (Reservation (Some (sk_place sk))) (lg_capacity lg),
      lg_stakes := rest\<rparr>)"
| go_live: "lg_stakes lg = add_mset sk rest \<Longrightarrow>
    activate now (Reservation (Some (sk_place sk))) (sk_identity sk) (lg_capacity lg) = (Inr r, cap) \<Longrightarrow>
    ledger_step lg (lg\<lparr>lg_capacity := cap, lg_stakes := add_mset (sk\<lparr>sk_live := True\<rparr>) rest\<rparr>)"
| lapse: "lg_stakes lg = add_mset sk rest \<Longrightarrow>
    activate now (Reservation (Some (sk_place sk))) (sk_identity sk) (lg_capacity lg) = (Inl err, cap) \<Longrightarrow>
    ledger_step lg (lg\<lparr>lg_capacity := cap, lg_stakes := rest\<rparr>)"
| close: "ledger_step lg (lg\<lparr>lg_capacity := close_pending (lg_capacity lg)\<rparr>)"

definition ledger_new :: "limits \<Rightarrow> ledger" where
  "ledger_new l = \<lparr>lg_capacity = capacity_new l, lg_requests = [], lg_stakes = {#}\<rparr>"

section \<open>The invariant\<close>

text \<open>What the table says about the place of a stake: a live stake has a live lease of its identity, a
  pending one has a pending lease of its identity or, once that was purged, none.\<close>

definition stake_ok :: "(identity \<times> target) list \<Rightarrow> (u64, lease) hash_map \<Rightarrow> stake \<Rightarrow> bool" where
  "stake_ok requests leases sk \<longleftrightarrow>
     unat (sk_place sk) < length requests
     \<and> requests ! unat (sk_place sk) = (sk_identity sk, sk_target sk)
     \<and> (case hm_get leases (sk_place sk) of
          None \<Rightarrow> \<not> sk_live sk
        | Some x \<Rightarrow> ls_identity x = sk_identity sk \<and> (ls_state x = Live \<longleftrightarrow> sk_live sk))"

definition ledger_inv :: "limits \<Rightarrow> ledger \<Rightarrow> bool" where
  "ledger_inv l lg \<longleftrightarrow>
     (let cap = lg_capacity lg; leases = cp_leases cap in
      capacity_inv cap \<and> cp_max_sessions cap = max_sessions l
      \<and> cp_max_sessions_per_identity cap = max_sessions_per_user l
      \<and> cp_next_id cap = of_nat (length (lg_requests lg))
      \<and> (\<forall>k. count (image_mset sk_place (lg_stakes lg)) k \<le> 1)
      \<and> (\<forall>sk \<in># lg_stakes lg. stake_ok (lg_requests lg) leases sk)
      \<and> (\<forall>k x. hm_get leases k = Some x \<longrightarrow> (\<exists>sk \<in># lg_stakes lg. sk_place sk = k)))"

lemma ledger_new_inv: "ledger_inv l (ledger_new l)"
  by (simp add: ledger_inv_def ledger_new_def capacity_new_inv Let_def) (simp add: capacity_new_def)

text \<open>The other stakes of a ledger have other places.\<close>

lemma other_place:
  assumes "\<forall>k. count (image_mset sk_place (add_mset sk rest)) k \<le> 1" "sk' \<in># rest"
  shows "sk_place sk' \<noteq> sk_place sk"
proof
  assume eq: "sk_place sk' = sk_place sk"
  from assms(2) have "sk_place sk' \<in># image_mset sk_place rest" by simp
  then have "1 \<le> count (image_mset sk_place rest) (sk_place sk)" by (simp add: eq Suc_le_eq)
  with assms(1) [rule_format, of "sk_place sk"] show False by simp
qed

text \<open>A table that changes at most the place of one stake and purges pending leases, together with the
  stakes that are left.\<close>

lemma ledger_inv_change:
  assumes inv: "ledger_inv l lg" and stakes: "lg_stakes lg = add_mset sk rest"
    and cap: "capacity_inv cap" "cp_max_sessions cap = cp_max_sessions (lg_capacity lg)"
      "cp_max_sessions_per_identity cap = cp_max_sessions_per_identity (lg_capacity lg)"
      "cp_next_id cap = cp_next_id (lg_capacity lg)"
    and others: "\<And>k. k \<noteq> sk_place sk \<Longrightarrow> hm_get (cp_leases cap) k = hm_get (cp_leases (lg_capacity lg)) k
      \<or> hm_get (cp_leases cap) k = None \<and> (\<exists>x. hm_get (cp_leases (lg_capacity lg)) k = Some x \<and> ls_state x \<noteq> Live)"
    and left: "new = {#} \<and> hm_get (cp_leases cap) (sk_place sk) = None
      \<or> (\<exists>sk'. new = {#sk'#} \<and> sk_place sk' = sk_place sk \<and> stake_ok (lg_requests lg) (cp_leases cap) sk')"
  shows "ledger_inv l (lg\<lparr>lg_capacity := cap, lg_stakes := new + rest\<rparr>)"
proof -
  from inv have uniq: "\<forall>k. count (image_mset sk_place (add_mset sk rest)) k \<le> 1"
    and ok: "\<forall>sk \<in># add_mset sk rest. stake_ok (lg_requests lg) (cp_leases (lg_capacity lg)) sk"
    and owned: "\<And>k x. hm_get (cp_leases (lg_capacity lg)) k = Some x \<Longrightarrow> \<exists>sk \<in># add_mset sk rest. sk_place sk = k"
    by (simp_all add: ledger_inv_def Let_def stakes)
  have "count (image_mset sk_place (new + rest)) k \<le> 1" for k
    using uniq [rule_format, of k] left by (auto split: if_splits)
  moreover have "stake_ok (lg_requests lg) (cp_leases cap) x" if "x \<in># new + rest" for x
  proof (cases "x \<in># rest")
    case True
    with other_place [OF uniq] ok others [of "sk_place x"] show ?thesis
      by (force simp: stake_ok_def split: option.splits)
  qed (use that left in auto)
  moreover have "\<exists>s \<in># new + rest. sk_place s = k" if "hm_get (cp_leases cap) k = Some x" for k x
  proof (cases "k = sk_place sk")
    case True
    with that left show ?thesis by auto
  next
    case False
    from others [OF False] that have "hm_get (cp_leases (lg_capacity lg)) k = Some x"
      by (metis option.distinct(1))
    from owned [OF this] False show ?thesis by auto
  qed
  ultimately show ?thesis using inv cap by (auto simp: ledger_inv_def Let_def)
qed

text \<open>A table that only purges pending leases.\<close>

definition purged :: "(u64, lease) hash_map \<Rightarrow> (u64, lease) hash_map \<Rightarrow> bool" where
  "purged leases leases' \<longleftrightarrow> (\<forall>k. hm_get leases' k = hm_get leases k
     \<or> hm_get leases' k = None \<and> (\<exists>x. hm_get leases k = Some x \<and> ls_state x \<noteq> Live))"

lemma stake_ok_purged: "stake_ok requests leases sk \<Longrightarrow> purged leases leases' \<Longrightarrow> stake_ok requests leases' sk"
  by (auto simp: stake_ok_def purged_def split: option.splits dest!: spec [of _ "sk_place sk"])

lemma ledger_inv_purged:
  assumes inv: "ledger_inv l lg"
    and cap: "capacity_inv cap" "cp_max_sessions cap = cp_max_sessions (lg_capacity lg)"
      "cp_max_sessions_per_identity cap = cp_max_sessions_per_identity (lg_capacity lg)"
      "cp_next_id cap = cp_next_id (lg_capacity lg)"
    and purged: "purged (cp_leases (lg_capacity lg)) (cp_leases cap)"
  shows "ledger_inv l (lg\<lparr>lg_capacity := cap\<rparr>)"
proof -
  have "\<exists>sk \<in># lg_stakes lg. sk_place sk = k" if "hm_get (cp_leases cap) k = Some x" for k x
  proof -
    from that purged [unfolded purged_def, rule_format, of k]
    have "hm_get (cp_leases (lg_capacity lg)) k = Some x" by auto
    with inv show ?thesis by (auto simp: ledger_inv_def Let_def)
  qed
  with inv cap stake_ok_purged [OF _ purged] show ?thesis by (auto simp: ledger_inv_def Let_def)
qed

lemma purge_purged: "hm_wf (cp_leases c) \<Longrightarrow> purged (cp_leases c) (cp_leases (purge_expired_leases now c))"
  by (auto simp: purged_def purge_expired_leases_def hm.get_retain split: option.split)

lemma close_purged: "hm_wf (cp_leases c) \<Longrightarrow> purged (cp_leases c) (cp_leases (close_pending c))"
  by (auto simp: purged_def close_pending_def hm.get_retain split: option.split)

subsection \<open>Every step keeps it\<close>

lemma reserve_pending_result:
  assumes "reserve_pending n1 n2 who e c = (r, c')"
  shows "case r of
      Inr rv \<Rightarrow> rv = Reservation (Some (cp_next_id c))
        \<and> c' = (purge_expired_leases n2 c)\<lparr>cp_next_id := cp_next_id c + 1,
             cp_leases := hm_insert (cp_next_id c) \<lparr>ls_identity = who, ls_state = Pending e\<rparr>
               (cp_leases (purge_expired_leases n2 c))\<rparr>
    | Inl _ \<Rightarrow> c' = c \<or> c' = purge_expired_leases n2 c"
  using assms by (auto simp: reserve_pending_def reserve_with_state_def Let_def split: if_splits)

lemma reserve_pending_inv: "capacity_inv c \<Longrightarrow> capacity_inv (snd (reserve_pending n1 n2 who e c))"
  by (simp add: reserve_pending_def reserve_inv)

lemma turn_away_inv:
  assumes "ledger_inv l lg" "reserve_pending n1 n2 who e (lg_capacity lg) = (Inl err, cap)"
  shows "ledger_inv l (lg\<lparr>lg_capacity := cap\<rparr>)"
proof -
  from assms(1) have c: "capacity_inv (lg_capacity lg)" by (simp add: ledger_inv_def Let_def)
  have refl: "purged x x" for x by (simp add: purged_def)
  from reserve_pending_result [OF assms(2)] show ?thesis
    using ledger_inv_purged [OF assms(1) purge_inv [OF c], of n2]
      purge_purged [OF capacity_inv_wf [OF c], of n2] assms(1) by auto
qed

text \<open>A new place is new as long as the counter has not wrapped.\<close>

lemma take_inv:
  assumes inv: "ledger_inv l lg" and few: "length (lg_requests lg) < 2 ^ 64"
    and r: "reserve_pending n1 n2 who e (lg_capacity lg) = (Inr (Reservation (Some k)), cap)"
  shows "ledger_inv l (lg\<lparr>lg_capacity := cap, lg_requests := lg_requests lg @ [(who, t)],
      lg_stakes := add_mset \<lparr>sk_place = k, sk_identity = who, sk_target = t, sk_live = False\<rparr> (lg_stakes lg)\<rparr>)"
proof -
  let ?c = "lg_capacity lg" and ?n = "length (lg_requests lg)"
  let ?p = "purge_expired_leases n2 ?c" and ?l = "\<lparr>ls_identity = who, ls_state = Pending e\<rparr>"
  from inv have c: "capacity_inv ?c" "cp_next_id ?c = of_nat ?n"
    and uniq: "\<And>k. count (image_mset sk_place (lg_stakes lg)) k \<le> 1"
    and ok: "\<And>sk. sk \<in># lg_stakes lg \<Longrightarrow> stake_ok (lg_requests lg) (cp_leases ?c) sk"
    and owned: "\<And>k x. hm_get (cp_leases ?c) k = Some x \<Longrightarrow> \<exists>sk \<in># lg_stakes lg. sk_place sk = k"
    by (simp_all add: ledger_inv_def Let_def)
  from reserve_pending_result [OF r] c(2) have k: "k = of_nat ?n"
    and cap: "cap = ?p\<lparr>cp_next_id := cp_next_id ?c + 1, cp_leases := hm_insert k ?l (cp_leases ?p)\<rparr>" by auto
  from few have n: "unat k = ?n" by (simp add: k unat_of_nat take_bit_nat_eq_self)
  have fresh: "sk_place sk \<noteq> k" if "sk \<in># lg_stakes lg" for sk
    using ok [OF that] n by (auto simp: stake_ok_def)
  then have "k \<notin># image_mset sk_place (lg_stakes lg)" by auto
  then have "count (image_mset sk_place (lg_stakes lg)) k = 0" by (simp only: not_in_iff)
  with uniq have u: "count (add_mset k (image_mset sk_place (lg_stakes lg))) j \<le> 1" for j by (cases "k = j") auto
  have old: "stake_ok (lg_requests lg @ [(who, t)]) (cp_leases cap) sk" if "sk \<in># lg_stakes lg" for sk
    using stake_ok_purged [OF ok [OF that] purge_purged [OF capacity_inv_wf [OF c(1)], of n2]] fresh [OF that]
    by (auto simp: stake_ok_def cap nth_append split: option.splits)
  have new: "stake_ok (lg_requests lg @ [(who, t)]) (cp_leases cap)
      \<lparr>sk_place = k, sk_identity = who, sk_target = t, sk_live = False\<rparr>"
    by (simp add: stake_ok_def cap n)
  have "\<exists>sk \<in># add_mset \<lparr>sk_place = k, sk_identity = who, sk_target = t, sk_live = False\<rparr> (lg_stakes lg). sk_place sk = j"
    if "hm_get (cp_leases cap) j = Some x" for j x
  proof (cases "j = k")
    case False
    with that have "hm_get (cp_leases ?c) j = Some x"
      using purge_purged [OF capacity_inv_wf [OF c(1)], of n2] by (auto simp: cap purged_def dest!: spec [of _ j])
    from owned [OF this] show ?thesis by simp
  qed simp
  moreover have "capacity_inv cap" using reserve_pending_inv [OF c(1), of n1 n2 who e] r by simp
  moreover have "cp_next_id cap = of_nat (Suc ?n)" "cp_max_sessions cap = cp_max_sessions ?c"
    "cp_max_sessions_per_identity cap = cp_max_sessions_per_identity ?c" by (simp_all add: cap c(2))
  ultimately show ?thesis using inv u old new by (auto simp: ledger_inv_def Let_def)
qed

lemma give_back_inv:
  assumes inv: "ledger_inv l lg" and stakes: "lg_stakes lg = add_mset sk rest"
  shows "ledger_inv l (lg\<lparr>lg_capacity := reservation_drop (Reservation (Some (sk_place sk))) (lg_capacity lg),
    lg_stakes := rest\<rparr>)"
proof -
  let ?c = "lg_capacity lg"
  from inv have c: "capacity_inv ?c" by (simp add: ledger_inv_def Let_def)
  have "ledger_inv l (lg\<lparr>lg_capacity := reservation_drop (Reservation (Some (sk_place sk))) ?c, lg_stakes := {#} + rest\<rparr>)"
    by (rule ledger_inv_change [OF inv stakes drop_inv [OF c]]) (simp_all add: hm.get_del capacity_inv_wf [OF c])
  then show ?thesis by simp
qed

lemma live_lease: "x\<lparr>ls_state := Live\<rparr> = \<lparr>ls_identity = ls_identity x, ls_state = Live\<rparr>"
  by (cases x) simp

text \<open>What an activation leaves: the place alone changes, the rest is purged at most.\<close>

lemma activate_change:
  assumes act: "activate now (Reservation (Some i)) who c = (r, cap)" and c: "capacity_inv c"
  shows "capacity_inv cap \<and> cp_max_sessions cap = cp_max_sessions c
    \<and> cp_max_sessions_per_identity cap = cp_max_sessions_per_identity c \<and> cp_next_id cap = cp_next_id c
    \<and> (\<forall>k. k \<noteq> i \<longrightarrow> hm_get (cp_leases cap) k = hm_get (cp_leases c) k
        \<or> hm_get (cp_leases cap) k = None \<and> (\<exists>x. hm_get (cp_leases c) k = Some x \<and> ls_state x \<noteq> Live))
    \<and> hm_get (cp_leases cap) i = (if is_ok r then Some \<lparr>ls_identity = who, ls_state = Live\<rparr> else None)"
proof -
  let ?p = "purge_expired_leases now c"
  have p: "capacity_inv ?p" by (rule purge_inv [OF c])
  note others = purge_purged [OF capacity_inv_wf [OF c], of now, unfolded purged_def, rule_format]
  have cap: "cap = (if is_ok r then ?p\<lparr>cp_leases := hm_insert i \<lparr>ls_identity = who, ls_state = Live\<rparr> (cp_leases ?p)\<rparr>
      else reservation_drop (Reservation (Some i)) ?p)"
    using act by (auto simp: activate_def Let_def live_lease split: if_splits option.splits)
  have "capacity_inv cap" using activate_inv [OF c, of now "Reservation (Some i)" who] act by simp
  then show ?thesis
    using others by (auto simp: cap hm.get_del [OF capacity_inv_wf [OF p]])
qed

lemma go_live_inv:
  assumes inv: "ledger_inv l lg" and stakes: "lg_stakes lg = add_mset sk rest"
    and act: "activate now (Reservation (Some (sk_place sk))) (sk_identity sk) (lg_capacity lg) = (Inr r, cap)"
  shows "ledger_inv l (lg\<lparr>lg_capacity := cap, lg_stakes := add_mset (sk\<lparr>sk_live := True\<rparr>) rest\<rparr>)"
proof -
  from inv have c: "capacity_inv (lg_capacity lg)" and ok: "stake_ok (lg_requests lg) (cp_leases (lg_capacity lg)) sk"
    by (simp_all add: ledger_inv_def Let_def stakes)
  note change = activate_change [OF act c]
  have "ledger_inv l (lg\<lparr>lg_capacity := cap, lg_stakes := {#sk\<lparr>sk_live := True\<rparr>#} + rest\<rparr>)"
    by (rule ledger_inv_change [OF inv stakes]) (use change ok in \<open>auto simp: stake_ok_def\<close>)
  then show ?thesis by simp
qed

lemma lapse_inv:
  assumes inv: "ledger_inv l lg" and stakes: "lg_stakes lg = add_mset sk rest"
    and act: "activate now (Reservation (Some (sk_place sk))) (sk_identity sk) (lg_capacity lg) = (Inl err, cap)"
  shows "ledger_inv l (lg\<lparr>lg_capacity := cap, lg_stakes := rest\<rparr>)"
proof -
  from inv have c: "capacity_inv (lg_capacity lg)" by (simp add: ledger_inv_def Let_def)
  note change = activate_change [OF act c]
  have "ledger_inv l (lg\<lparr>lg_capacity := cap, lg_stakes := {#} + rest\<rparr>)"
    by (rule ledger_inv_change [OF inv stakes]) (use change in auto)
  then show ?thesis by simp
qed

lemma close_frame:
  "cp_max_sessions (close_pending c) = cp_max_sessions c"
  "cp_max_sessions_per_identity (close_pending c) = cp_max_sessions_per_identity c"
  "cp_next_id (close_pending c) = cp_next_id c"
  by (simp_all add: close_pending_def)

lemma close_step_inv:
  assumes "ledger_inv l lg" shows "ledger_inv l (lg\<lparr>lg_capacity := close_pending (lg_capacity lg)\<rparr>)"
proof -
  from assms have c: "capacity_inv (lg_capacity lg)" by (simp add: ledger_inv_def Let_def)
  show ?thesis
    by (rule ledger_inv_purged [OF assms close_inv [OF c]])
      (simp_all add: close_purged [OF capacity_inv_wf [OF c]] close_frame)
qed

lemma ledger_step_inv:
  assumes "ledger_step lg lg'" "ledger_inv l lg" "length (lg_requests lg') \<le> 2 ^ 64"
  shows "ledger_inv l lg'"
  using assms
proof (cases rule: ledger_step.cases)
  case (take n1 n2 who e k cap t)
  from assms(3) take(1) have "length (lg_requests lg) < 2 ^ 64" by simp
  from take_inv [OF assms(2) this take(2)] take(1) show ?thesis by simp
qed (use assms(2) in \<open>simp_all add: turn_away_inv give_back_inv go_live_inv lapse_inv close_step_inv del: reservation_drop.simps\<close>)

lemma ledger_step_grows: "ledger_step lg lg' \<Longrightarrow> prefix (lg_requests lg) (lg_requests lg')"
  by (cases rule: ledger_step.cases) auto

lemma ledger_run_inv:
  assumes "ledger_step\<^sup>*\<^sup>* lg lg'" "ledger_inv l lg" "length (lg_requests lg') \<le> 2 ^ 64"
  shows "ledger_inv l lg'"
  using assms
proof (induction rule: rtranclp_induct)
  case (step lg1 lg2)
  from step(5) prefix_length_le [OF ledger_step_grows [OF step(2)]]
  have "length (lg_requests lg1) \<le> 2 ^ 64" by linarith
  from ledger_step_inv [OF step(2) step(3) [OF step(4) this] step(5)] show ?case .
qed

section \<open>What the invariant promises\<close>

text \<open>The live stakes are within the limits: each has its own live lease.\<close>

lemma live_stakes_leases:
  assumes "ledger_inv l lg"
  shows "size (filter_mset (\<lambda>sk. sk_live sk \<and> P (sk_identity sk)) (lg_stakes lg))
    \<le> length (filter (\<lambda>x. P (ls_identity x)) (hm_values (cp_leases (lg_capacity lg))))"
proof -
  let ?leases = "cp_leases (lg_capacity lg)"
  let ?S = "filter_mset (\<lambda>sk. sk_live sk \<and> P (sk_identity sk)) (lg_stakes lg)"
  let ?K = "map fst (filter (\<lambda>x. P (ls_identity (snd x))) ?leases)"
  from assms have uniq: "\<And>k. count (image_mset sk_place (lg_stakes lg)) k \<le> 1"
    and ok: "\<And>sk. sk \<in># lg_stakes lg \<Longrightarrow> stake_ok (lg_requests lg) ?leases sk"
    and wf: "hm_wf ?leases" by (simp_all add: ledger_inv_def Let_def capacity_inv_wf)
  have "image_mset sk_place ?S \<subseteq># mset ?K"
  proof (rule mset_subset_eqI)
    fix k
    show "count (image_mset sk_place ?S) k \<le> count (mset ?K) k"
    proof (cases "k \<in># image_mset sk_place ?S")
      case True
      then obtain sk where sk: "sk \<in># lg_stakes lg" "sk_live sk" "P (sk_identity sk)" "k = sk_place sk" by auto
      from ok [OF sk(1)] sk(2-4) obtain x where "hm_get ?leases k = Some x" "P (ls_identity x)"
        by (auto simp: stake_ok_def split: option.splits)
      with wf have "k \<in># mset ?K" by (force simp: hm_get_mem)
      then have "1 \<le> count (mset ?K) k" by (simp only: Suc_le_eq One_nat_def count_greater_zero_iff)
      moreover have "count (image_mset sk_place ?S) k \<le> count (image_mset sk_place (lg_stakes lg)) k"
        by (intro mset_subset_eq_count image_mset_subseteq_mono multiset_filter_subset)
      ultimately show ?thesis using uniq [of k] by linarith
    qed (simp only: not_in_iff le0)
  qed
  from size_mset_mono [OF this] show ?thesis
    by (simp add: hm_values_def filter_map comp_def del: mset_filter)
qed

lemma live_stakes_bounded:
  assumes "ledger_inv l lg"
  shows "size (filter_mset sk_live (lg_stakes lg)) \<le> unat (max_sessions l)"
    "size (filter_mset (\<lambda>sk. sk_live sk \<and> sk_identity sk = who) (lg_stakes lg)) \<le> unat (max_sessions_per_user l)"
proof -
  from assms have "hm_len (cp_leases (lg_capacity lg)) \<le> unat (max_sessions l)"
    "lease_count who (cp_leases (lg_capacity lg)) \<le> unat (max_sessions_per_user l)"
    by (auto simp: ledger_inv_def Let_def capacity_inv_def)
  with live_stakes_leases [OF assms, of "\<lambda>_. True"] live_stakes_leases [OF assms, of "\<lambda>i. i = who"]
  show "size (filter_mset sk_live (lg_stakes lg)) \<le> unat (max_sessions l)"
    "size (filter_mset (\<lambda>sk. sk_live sk \<and> sk_identity sk = who) (lg_stakes lg)) \<le> unat (max_sessions_per_user l)"
    by (simp_all add: hm_len_def hm_values_def lease_count_def)
qed

end
