(* ===== verification/Ssh_Diagnostics.thy ===== *)
theory Ssh_Diagnostics
  imports Config
begin

text \<open>
  The classifier of the OpenSSH client log in \<open>ssh.rs\<close> (\<open>SshDiagnosticClassifier\<close>): it collects the
  log in bounded memory while the connection is made, and decides from its complete lines whether
  the session is authenticated or why it failed. Lemmas: the outcome depends only on the bytes
  received, not on how they were cut into chunks; the bounds; and what the log must have said for
  each outcome.
\<close>

definition MAX_SSH_DIAGNOSTIC_BYTES :: nat where "MAX_SSH_DIAGNOSTIC_BYTES = 32 * 1024"
definition MAX_SSH_DIAGNOSTIC_LINES :: nat where "MAX_SSH_DIAGNOSTIC_LINES = 128"
definition MAX_SSH_DIAGNOSTIC_LINE_BYTES :: nat where "MAX_SSH_DIAGNOSTIC_LINE_BYTES = 1024"

datatype ssh_diagnostic_class =
    Authenticated | UnknownHostKey | HostKeyMismatch | ConnectionFailed | AuthenticationFailed
  | GenericFailure

record diagnostic_classifier =
  dc_expected_host :: string
  dc_bytes :: bytes
  dc_line_count :: nat
  dc_current_line_bytes :: nat
  dc_line_open :: bool
  dc_invalid :: bool

definition line_feed :: char where "line_feed = CHR 0x0A"
definition carriage_return :: char where "carriage_return = CHR 0x0D"

definition classifier_new :: "string \<Rightarrow> diagnostic_classifier" where
  "classifier_new expected_host =
     \<lparr>dc_expected_host = expected_host, dc_bytes = [], dc_line_count = 0, dc_current_line_bytes = 0,
      dc_line_open = False, dc_invalid = False\<rparr>"

definition reject :: "diagnostic_classifier \<Rightarrow> diagnostic_classifier" where
  "reject c = c\<lparr>dc_invalid := True, dc_bytes := []\<rparr>"

text \<open>One byte of the loop of \<open>push\<close>, and the loop, which returns early from a log out of bounds.\<close>

definition push_one :: "char \<Rightarrow> diagnostic_classifier \<Rightarrow> diagnostic_classifier" where
  "push_one b c =
     (let count = (if dc_line_open c then dc_line_count c else dc_line_count c + 1) in
      if b = line_feed then
        (let c' = c\<lparr>dc_line_count := count, dc_current_line_bytes := 0, dc_line_open := False\<rparr> in
         if count > MAX_SSH_DIAGNOSTIC_LINES then reject c' else c')
      else
        (let c' = c\<lparr>dc_line_count := count, dc_line_open := True,
                    dc_current_line_bytes := dc_current_line_bytes c + 1\<rparr> in
         if count > MAX_SSH_DIAGNOSTIC_LINES \<or> dc_current_line_bytes c' > MAX_SSH_DIAGNOSTIC_LINE_BYTES
         then reject c' else c'))"

fun push_bytes :: "bytes \<Rightarrow> diagnostic_classifier \<Rightarrow> diagnostic_classifier" where
  "push_bytes [] c = c"
| "push_bytes (b # bs) c =
     (let c' = push_one b c in if dc_invalid c' then c' else push_bytes bs c')"

definition push :: "bytes \<Rightarrow> diagnostic_classifier \<Rightarrow> diagnostic_classifier" where
  "push chunk c =
     (if dc_invalid c \<or> length (dc_bytes c) + length chunk > MAX_SSH_DIAGNOSTIC_BYTES then reject c
      else
        (let c' = push_bytes chunk c in
         if dc_invalid c' then c' else c'\<lparr>dc_bytes := dc_bytes c' @ chunk\<rparr>))"

text \<open>\<open>split_inclusive\<close> keeps the last line open: only lines that end are complete.\<close>

definition complete_lines :: "string \<Rightarrow> string list" where
  "complete_lines d =
     map (\<lambda>l. case strip_suffix [carriage_return] l of None \<Rightarrow> l | Some s \<Rightarrow> s)
       (butlast (split_on line_feed d))"

definition host_key_mismatch_line :: "string \<Rightarrow> bool" where
  "host_key_mismatch_line line \<longleftrightarrow>
     line = ''WARNING: REMOTE HOST IDENTIFICATION HAS CHANGED!''
     \<or> line = ''@    WARNING: REMOTE HOST IDENTIFICATION HAS CHANGED!     @''"

definition unknown_host_key_line :: "string \<Rightarrow> string \<Rightarrow> bool" where
  "unknown_host_key_line expected_host line \<longleftrightarrow>
     list_ex (\<lambda>key_type.
       Option.bind (strip_prefix (''No '' @ key_type @ '' host key is known for '') line)
         (strip_suffix '' and you have requested strict checking.'') = Some expected_host)
       [''ED25519'', ''ECDSA'', ''RSA'']
     \<or> line = ''Host key verification failed.''"

definition authenticated_line :: "string \<Rightarrow> string \<Rightarrow> bool" where
  "authenticated_line expected_host line \<longleftrightarrow>
     (case Option.bind (strip_prefix ''Authenticated to '' line) (strip_suffix '' using \"publickey\".'') of
        None \<Rightarrow> False
      | Some authority \<Rightarrow>
          authority = expected_host
          \<or> (case strip_prefix expected_host authority of
               None \<Rightarrow> False
             | Some rest \<Rightarrow> starts_with rest '' (['' \<and> ends_with rest '')''))"

definition authentication_failed_line :: "string \<Rightarrow> string \<Rightarrow> bool" where
  "authentication_failed_line expected_host line \<longleftrightarrow>
     (case Option.bind (strip_suffix '': Permission denied (publickey).'' line) (rsplit_once (CHR ''@'')) of
        None \<Rightarrow> False
      | Some (user, host) \<Rightarrow> user \<noteq> [] \<and> list_all name_byte user \<and> host = expected_host)
     \<or> line = ''No more authentication methods to try.''"

definition connect_failure_line :: "string \<Rightarrow> string \<Rightarrow> bool" where
  "connect_failure_line line expected_host \<longleftrightarrow>
     (case Option.bind (strip_prefix ''ssh: connect to host '' line) (strip_prefix expected_host) of
        None \<Rightarrow> False
      | Some rest \<Rightarrow> starts_with rest '' port ''
          \<and> list_ex (ends_with rest) [''Connection refused'', ''Connection timed out'',
              ''No route to host'', ''Operation timed out''])"

definition resolution_failure_line :: "string \<Rightarrow> string \<Rightarrow> bool" where
  "resolution_failure_line line expected_host \<longleftrightarrow>
     (case Option.bind (Option.bind (strip_prefix ''ssh: Could not resolve hostname '' line)
             (strip_prefix expected_host)) (strip_prefix '': '') of
        None \<Rightarrow> False
      | Some reason \<Rightarrow> reason \<in> {''Name or service not known'',
          ''nodename nor servname provided, or not known'', ''Temporary failure in name resolution''})"

text \<open>\<open>rsplit_once\<close> of a string pattern, and \<open>str::parse::<u16>\<close>.\<close>

fun split_once_str :: "string \<Rightarrow> string \<Rightarrow> (string \<times> string) option" where
  "split_once_str pat [] = (if pat = [] then Some ([], []) else None)"
| "split_once_str pat (x # s) =
     (if starts_with (x # s) pat then Some ([], drop (length pat) (x # s))
      else map_option (\<lambda>(a, b). (x # a, b)) (split_once_str pat s))"

definition rsplit_once_str :: "string \<Rightarrow> string \<Rightarrow> (string \<times> string) option" where
  "rsplit_once_str pat s = map_option (\<lambda>(a, b). (rev b, rev a)) (split_once_str (rev pat) (rev s))"

definition parse_u16 :: "string \<Rightarrow> u16 option" where
  "parse_u16 s =
     (let digits = (if starts_with s ''+'' then drop 1 s else s);
          n = foldl (\<lambda>n c. n * 10 + (ord c - 48)) 0 digits in
      if digits = [] \<or> \<not> list_all is_ascii_digit digits \<or> n \<ge> 65536 then None else Some (of_nat n))"

definition peer_disconnect_line :: "string \<Rightarrow> string \<Rightarrow> string \<Rightarrow> bool" where
  "peer_disconnect_line line pre expected_host \<longleftrightarrow>
     (case Option.bind (strip_prefix pre line) (rsplit_once_str '' port '') of
        None \<Rightarrow> False
      | Some (authority, port) \<Rightarrow>
          (authority = expected_host \<or> parse_ip_addr authority \<noteq> None)
          \<and> (case parse_u16 port of None \<Rightarrow> False | Some p \<Rightarrow> p \<noteq> 0))"

definition connection_failed_line :: "string \<Rightarrow> string \<Rightarrow> bool" where
  "connection_failed_line expected_host line \<longleftrightarrow>
     connect_failure_line line expected_host
     \<or> resolution_failure_line line expected_host
     \<or> peer_disconnect_line line ''Connection closed by '' expected_host
     \<or> peer_disconnect_line line ''Connection reset by '' expected_host
     \<or> line = ''kex_exchange_identification: Connection closed by remote host''"

definition classify_diagnostics :: "string \<Rightarrow> string \<Rightarrow> ssh_diagnostic_class option" where
  "classify_diagnostics diagnostics expected_host =
     (let ls = complete_lines diagnostics in
      if list_ex host_key_mismatch_line ls then Some HostKeyMismatch
      else if list_ex (unknown_host_key_line expected_host) ls then Some UnknownHostKey
      else if list_ex (authenticated_line expected_host) ls then Some Authenticated
      else if list_ex (authentication_failed_line expected_host) ls then Some AuthenticationFailed
      else if list_ex (connection_failed_line expected_host) ls then Some ConnectionFailed
      else None)"

definition classification :: "diagnostic_classifier \<Rightarrow> ssh_diagnostic_class option" where
  "classification c =
     (if dc_invalid c then Some GenericFailure
      else (case from_utf8 (dc_bytes c) of
          Inl Utf8Incomplete \<Rightarrow> None
        | Inl Utf8Invalid \<Rightarrow> Some GenericFailure
        | Inr _ \<Rightarrow> classify_diagnostics (dc_bytes c) (dc_expected_host c)))"

definition finish :: "diagnostic_classifier \<Rightarrow> ssh_diagnostic_class" where
  "finish c = (case classification c of None \<Rightarrow> GenericFailure | Some k \<Rightarrow> k)"

subsection \<open>Bounds of a log\<close>

definition log_lines :: "bytes \<Rightarrow> bytes list" where
  "log_lines b = (let ps = split_on line_feed b in if last ps = [] then butlast ps else ps)"

definition log_in_bounds :: "bytes \<Rightarrow> bool" where
  "log_in_bounds b \<longleftrightarrow> length b \<le> MAX_SSH_DIAGNOSTIC_BYTES
     \<and> length (log_lines b) \<le> MAX_SSH_DIAGNOSTIC_LINES
     \<and> list_all (\<lambda>l. length l \<le> MAX_SSH_DIAGNOSTIC_LINE_BYTES) (log_lines b)"

text \<open>The counters after a log: complete and open lines, and the bytes of the open line.\<close>

definition counters_of :: "bytes \<Rightarrow> diagnostic_classifier \<Rightarrow> bool" where
  "counters_of b c \<longleftrightarrow> dc_line_count c = length (log_lines b)
     \<and> dc_current_line_bytes c = length (last (split_on line_feed b))
     \<and> (dc_line_open c \<longleftrightarrow> last (split_on line_feed b) \<noteq> [])"

lemma split_on_snoc:
  "split_on c (s @ [x]) =
     (if x = c then split_on c s @ [[]]
      else butlast (split_on c s) @ [last (split_on c s) @ [x]])"
proof (induction s)
  case (Cons y s)
  obtain p ps where "split_on c s = p # ps" by (cases "split_on c s") auto
  with Cons show ?case by (auto split: list.splits)
qed simp

lemma split_on_rev: "split_on c b = butlast (split_on c b) @ [last (split_on c b)]"
  by simp

text \<open>The finished lines \<open>qs\<close> and the open line \<open>q\<close> of a log, and what one more byte does to them.\<close>

lemma lines_cases:
  obtains qs q where "split_on line_feed b = qs @ [q]"
    "log_lines b = (if q = [] then qs else qs @ [q])"
    "\<And>x. split_on line_feed (b @ [x]) = (if x = line_feed then qs @ [q] @ [[]] else qs @ [q @ [x]])"
    "\<And>x. log_lines (b @ [x]) = (if x = line_feed then qs @ [q] else qs @ [q @ [x]])"
proof -
  obtain qs q where ps: "split_on line_feed b = qs @ [q]"
    using split_on_rev by blast
  have s: "split_on line_feed (b @ [x]) = (if x = line_feed then (qs @ [q]) @ [[]] else qs @ [q @ [x]])" for x
    by (simp add: split_on_snoc ps)
  show ?thesis
    by (rule that [of qs q]) (use ps s in \<open>auto simp: log_lines_def Let_def butlast_append\<close>)
qed

definition lines_ok :: "bytes \<Rightarrow> bool" where
  "lines_ok b \<longleftrightarrow> length (log_lines b) \<le> MAX_SSH_DIAGNOSTIC_LINES
     \<and> list_all (\<lambda>l. length l \<le> MAX_SSH_DIAGNOSTIC_LINE_BYTES) (log_lines b)"

lemma lines_ok_snoc: "lines_ok (b @ [x]) \<Longrightarrow> lines_ok b"
  by (rule lines_cases [of b]) (auto simp: lines_ok_def split: if_splits)

lemma lines_ok_append: "lines_ok (b @ y) \<Longrightarrow> lines_ok b"
proof (induction y rule: rev_induct)
  case (snoc x y)
  then show ?case using lines_ok_snoc [of "b @ y" x] by simp
qed simp

lemma reject_simps [simp]:
  "dc_invalid (reject c)" "dc_bytes (reject c) = []" "dc_expected_host (reject c) = dc_expected_host c"
  by (simp_all add: reject_def)

lemma push_byte:
  assumes "\<not> dc_invalid c" "counters_of b c" "lines_ok b"
  shows "if lines_ok (b @ [x])
    then \<not> dc_invalid (push_one x c) \<and> counters_of (b @ [x]) (push_one x c)
      \<and> dc_bytes (push_one x c) = dc_bytes c \<and> dc_expected_host (push_one x c) = dc_expected_host c
    else dc_invalid (push_one x c) \<and> dc_bytes (push_one x c) = []"
proof (rule lines_cases [of b])
  fix qs q
  assume ps: "split_on line_feed b = qs @ [q]" "log_lines b = (if q = [] then qs else qs @ [q])"
    "\<And>x. split_on line_feed (b @ [x]) = (if x = line_feed then qs @ [q] @ [[]] else qs @ [q @ [x]])"
    "\<And>x. log_lines (b @ [x]) = (if x = line_feed then qs @ [q] else qs @ [q @ [x]])"
  show ?thesis
  proof (cases "x = line_feed")
    case True
    with assms ps show ?thesis
      by (auto simp: counters_of_def lines_ok_def push_one_def Let_def split: if_splits)
  next
    case False
    with assms ps show ?thesis
      by (auto simp: counters_of_def lines_ok_def push_one_def Let_def split: if_splits)
  qed
qed

lemma push_bytes_chunk:
  assumes "\<not> dc_invalid c" "counters_of b c" "lines_ok b"
  shows "if lines_ok (b @ chunk)
    then \<not> dc_invalid (push_bytes chunk c) \<and> counters_of (b @ chunk) (push_bytes chunk c)
      \<and> dc_bytes (push_bytes chunk c) = dc_bytes c
      \<and> dc_expected_host (push_bytes chunk c) = dc_expected_host c
    else dc_invalid (push_bytes chunk c) \<and> dc_bytes (push_bytes chunk c) = []"
  using assms
proof (induction chunk arbitrary: b c)
  case (Cons x xs)
  show ?case
  proof (cases "lines_ok (b @ [x])")
    case True
    with push_byte [OF Cons.prems, of x] have
      c': "\<not> dc_invalid (push_one x c)" "counters_of (b @ [x]) (push_one x c)"
        "dc_bytes (push_one x c) = dc_bytes c"
        "dc_expected_host (push_one x c) = dc_expected_host c"
      by simp_all
    from Cons.IH [OF c'(1,2) True] c' show ?thesis by (simp add: Let_def split: if_splits)
  next
    case False
    moreover from this have "\<not> lines_ok (b @ x # xs)"
      using lines_ok_append [of "b @ [x]" xs] by auto
    ultimately show ?thesis
      using push_byte [OF Cons.prems, of x] by (simp add: Let_def)
  qed
qed simp

lemma push_bytes_host: "dc_expected_host (push_bytes chunk c) = dc_expected_host c"
  by (induction chunk arbitrary: c) (simp_all add: Let_def push_one_def)

text \<open>What a classifier that received the bytes \<open>b\<close> is.\<close>

definition classifier_of :: "string \<Rightarrow> bytes \<Rightarrow> diagnostic_classifier \<Rightarrow> bool" where
  "classifier_of h b c \<longleftrightarrow> dc_expected_host c = h
     \<and> (if log_in_bounds b then \<not> dc_invalid c \<and> dc_bytes c = b \<and> counters_of b c
        else dc_invalid c \<and> dc_bytes c = [])"

lemma bounds_iff: "log_in_bounds b \<longleftrightarrow> length b \<le> MAX_SSH_DIAGNOSTIC_BYTES \<and> lines_ok b"
  by (simp add: log_in_bounds_def lines_ok_def)

lemma push_classifier:
  assumes "classifier_of h b c" shows "classifier_of h (b @ chunk) (push chunk c)"
proof (cases "log_in_bounds b")
  case True
  with assms have c: "\<not> dc_invalid c" "dc_bytes c = b" "counters_of b c" "dc_expected_host c = h" "lines_ok b"
    by (simp_all add: classifier_of_def bounds_iff)
  show ?thesis
    using push_bytes_chunk [OF c(1,3,5), of chunk] c
    by (auto simp: classifier_of_def push_def bounds_iff reject_def Let_def counters_of_def push_bytes_host
      split: if_splits)
next
  case False
  then have "\<not> log_in_bounds (b @ chunk)"
    using lines_ok_append [of b chunk] by (auto simp: bounds_iff)
  with False assms show ?thesis
    by (simp add: classifier_of_def push_def reject_def)
qed

lemma push_all_classifier: "classifier_of h (concat chunks) (fold push chunks (classifier_new h))"
proof (induction chunks rule: rev_induct)
  case Nil
  show ?case
    by (simp add: classifier_of_def classifier_new_def counters_of_def log_lines_def log_in_bounds_def)
next
  case (snoc chunk chunks)
  then show ?case using push_classifier [OF snoc.IH, of chunk] by simp
qed

subsection \<open>Properties\<close>

text \<open>C30: Classification does not depend on how the client log was cut into chunks: it is generic
  failure when the bytes received exceed 32 KiB, 128 lines or 1024 bytes in a line, and otherwise a
  function of exactly those bytes; and never more than 32 KiB are stored.\<close>

theorem classification_chunk_independent:
  "let c = fold push chunks (classifier_new host); log = concat chunks in
     classification c =
       (if length log \<le> 32768 \<and> length (log_lines log) \<le> 128 \<and> list_all (\<lambda>l. length l \<le> 1024) (log_lines log)
        then (case from_utf8 log of
            Inl Utf8Incomplete \<Rightarrow> None
          | Inl Utf8Invalid \<Rightarrow> Some GenericFailure
          | Inr _ \<Rightarrow> classify_diagnostics log host)
        else Some GenericFailure)
     \<and> length (dc_bytes c) \<le> 32768"
proof -
  have b: "log_in_bounds b \<longleftrightarrow> length b \<le> 32768 \<and> length (log_lines b) \<le> 128
      \<and> list_all (\<lambda>l. length l \<le> 1024) (log_lines b)" for b
    by (simp add: log_in_bounds_def MAX_SSH_DIAGNOSTIC_BYTES_def MAX_SSH_DIAGNOSTIC_LINES_def
      MAX_SSH_DIAGNOSTIC_LINE_BYTES_def)
  let ?c = "fold push chunks (classifier_new host)"
  note c = push_all_classifier [of host chunks, unfolded classifier_of_def]
  show ?thesis
  proof (cases "log_in_bounds (concat chunks)")
    case True
    with c have "\<not> dc_invalid ?c" "dc_bytes ?c = concat chunks" "dc_expected_host ?c = host" by simp_all
    with True show ?thesis
      by (simp only: Let_def classification_def if_False b [symmetric] if_True) (simp add: b)
  next
    case False
    with c have "dc_invalid ?c" "dc_bytes ?c = []" by simp_all
    with False show ?thesis
      by (simp only: Let_def classification_def if_True b [symmetric] if_False) simp
  qed
qed

text \<open>What a classifier has received when it says that the session is authenticated.\<close>

lemma authenticated_log:
  assumes "classification (fold push chunks (classifier_new host)) = Some Authenticated"
  shows "is_str (concat chunks) \<and> classify_diagnostics (concat chunks) host = Some Authenticated"
proof -
  let ?c = "fold push chunks (classifier_new host)"
  note c = push_all_classifier [of host chunks, unfolded classifier_of_def]
  from assms c have "\<not> dc_invalid ?c" "dc_bytes ?c = concat chunks" "dc_expected_host ?c = host"
    by (auto simp: classification_def split: if_splits)
  with assms show ?thesis
    by (auto simp: classification_def is_str_def split: sum.splits utf8_error.splits)
qed

lemma classified_authenticated:
  assumes "classify_diagnostics log host = Some Authenticated"
  shows "list_ex (authenticated_line host) (complete_lines log)
    \<and> list_all (\<lambda>l. \<not> host_key_mismatch_line l \<and> \<not> unknown_host_key_line host l) (complete_lines log)"
  using assms by (auto simp: classify_diagnostics_def Let_def list_ex_iff list_all_iff split: if_splits)

text \<open>A session counts as authenticated only if a complete line of the log says that public-key
  authentication to exactly the expected host succeeded, no line reports a changed or unknown host
  key, and the log kept its bounds and is UTF-8.\<close>

theorem authenticated_sound:
  assumes "classification (fold push chunks (classifier_new host)) = Some Authenticated"
  shows "(\<exists>line \<in> set (complete_lines (concat chunks)). \<exists>extra.
        line = ''Authenticated to '' @ host @ extra @ '' using \"publickey\".''
        \<and> (extra = [] \<or> starts_with extra '' (['' \<and> ends_with extra '')''))
    \<and> list_all (\<lambda>l. \<not> host_key_mismatch_line l \<and> \<not> unknown_host_key_line host l)
        (complete_lines (concat chunks))
    \<and> is_str (concat chunks)"
proof -
  from authenticated_log [OF assms] have str: "is_str (concat chunks)"
    and "classify_diagnostics (concat chunks) host = Some Authenticated" by simp_all
  from classified_authenticated [OF this(2)]
  have auth: "list_ex (authenticated_line host) (complete_lines (concat chunks))"
    and no: "list_all (\<lambda>l. \<not> host_key_mismatch_line l \<and> \<not> unknown_host_key_line host l)
      (complete_lines (concat chunks))" by simp_all
  from auth obtain line where l: "line \<in> set (complete_lines (concat chunks))" "authenticated_line host line"
    by (auto simp: list_ex_iff)
  then obtain authority where a: "line = ''Authenticated to '' @ authority @ '' using \"publickey\".''"
    and x: "authority = host \<or> (\<exists>rest. authority = host @ rest \<and> starts_with rest '' (['' \<and> ends_with rest '')'')"
    unfolding authenticated_line_def
    by (auto simp: bind_eq_Some_conv strip_prefix_Some strip_suffix_Some split: option.splits)
  from x obtain extra where "authority = host @ extra"
    "extra = [] \<or> starts_with extra '' (['' \<and> ends_with extra '')''" by auto
  with a l(1) no str show ?thesis by auto
qed

definition demo_log :: "bytes list" where
  "demo_log = [''debug1: x'' @ [line_feed] @ ''Authenticated to h.ex'', '' using \"publickey\".'' @ [line_feed]]"

lemma demo_log_classified:
  assumes "concat chunks = concat demo_log"
  shows "classification (fold push chunks (classifier_new ''h.ex'')) = Some Authenticated"
proof -
  have "is_ascii (concat demo_log)"
    by (simp add: demo_log_def is_ascii_def line_feed_def)
  then have u: "from_utf8 (concat demo_log) = Inr (map ord (concat demo_log))"
    by (rule from_utf8_ascii)
  have ls: "split_on line_feed (concat demo_log) =
      [''debug1: x'', ''Authenticated to h.ex using \"publickey\".'', []]"
    by (simp add: demo_log_def line_feed_def)
  then have lines: "complete_lines (concat demo_log) =
      [''debug1: x'', ''Authenticated to h.ex using \"publickey\".'']"
    by (simp add: complete_lines_def carriage_return_def strip_suffix_def ends_with_def)
  have "classify_diagnostics (concat demo_log) ''h.ex'' = Some Authenticated"
    by (simp add: classify_diagnostics_def lines host_key_mismatch_line_def unknown_host_key_line_def
      authenticated_line_def strip_prefix_def strip_suffix_def starts_with_def ends_with_def)
  moreover have "log_in_bounds (concat demo_log)"
    by (simp add: log_in_bounds_def log_lines_def ls MAX_SSH_DIAGNOSTIC_BYTES_def
      MAX_SSH_DIAGNOSTIC_LINES_def MAX_SSH_DIAGNOSTIC_LINE_BYTES_def) (simp add: demo_log_def)
  ultimately show ?thesis
    using push_all_classifier [of "''h.ex''" chunks] u assms
    by (simp add: classifier_of_def classification_def)
qed

theorem authenticated_sound_witness:
  "classification (fold push demo_log (classifier_new ''h.ex'')) = Some Authenticated
    \<and> is_str (concat demo_log)"
  using authenticated_sound [OF demo_log_classified [OF refl]] demo_log_classified [OF refl] by blast

end
