(* ===== verification/Protocol.thy ===== *)
theory Protocol
  imports Prelude "HOL-Library.Finite_Map"
begin

text \<open>
  The wire protocol of \<open>protocol.rs\<close>: binary frames with a size bound and JSON control messages in
  two directions. The JSON library is a parameter (\<open>json_lib\<close>): what its deserializer feeds a
  visitor, the value it parses, the text it prints and how it displays a custom error. Everything
  between the library and the message types is modelled: the duplicate-field visitor, the version
  and type header, the exact key sets, the field checks and the encoders.
\<close>

section \<open>Data\<close>

definition PROTOCOL_VERSION :: u8 where "PROTOCOL_VERSION = 1"
definition MAX_CONTROL_BYTES :: nat where "MAX_CONTROL_BYTES = 4096"
definition MAX_BINARY_BYTES :: nat where "MAX_BINARY_BYTES = 65536"
definition MAX_DIMENSION :: u16 where "MAX_DIMENSION = 4096"

record resize =
  cols :: u16
  rows :: u16

datatype client_control = ClientResize resize | ClientClose

datatype exit_status = ExitCode u8 | ExitSignal u8 | ExitUnavailable

record protocol_error_message =
  pe_code :: string
  pe_message :: string

datatype close_reason =
  ClientRequest | Exited | Timeout | Policy | ProtocolErrorReason | TransportError | InternalError

datatype server_control =
  ServerExitStatus exit_status | ServerError protocol_error_message | ServerClose close_reason

datatype client_frame = TerminalInput bytes | ClientControlFrame client_control

datatype server_frame = TerminalOutput bytes | ServerControlFrame server_control

datatype protocol_error =
  BinaryTooLarge | ControlTooLarge | MalformedText | MalformedControl | InvalidControl
  | DuplicateField | MissingField | UnknownField | UnknownMessageType | UnsupportedVersion
  | InvalidDirection | InvalidField

text \<open>\<open>serde_json::Value\<close>; an object is a finite map, a number keeps whether it is a \<open>u64\<close>.\<close>

datatype json_number = PosInt u64 | NegInt int | Float string

datatype json =
  JNull | JBool bool | JNumber json_number | JString string | JArray "json list"
  | JObject "(string, json) fmap"

type_synonym json_object = "(string, json) fmap"

text \<open>
  What the streaming deserializer hands a visitor: the members of a container in input order, up
  to its end (\<open>None\<close>) or to the point where the library reports an error.
\<close>

datatype raw_json =
  RawScalar
| RawSeq "raw_json list" "string option"
| RawMap "(string \<times> raw_json) list" "string option"
| RawError string

record json_lib =
  jl_events :: "bytes \<Rightarrow> raw_json"
  jl_custom :: "string \<Rightarrow> string"
  jl_from_str :: "bytes \<Rightarrow> string + json"
  jl_to_string :: "json \<Rightarrow> string + bytes"

section \<open>Constructors with checks\<close>

definition dimension_ok :: "u16 \<Rightarrow> bool" where
  "dimension_ok d \<longleftrightarrow> 1 \<le> d \<and> d \<le> MAX_DIMENSION"

definition resize_new :: "u16 \<Rightarrow> u16 \<Rightarrow> protocol_error + resize" where
  "resize_new c r =
     (if \<not> dimension_ok c \<or> \<not> dimension_ok r then Inl InvalidField else Inr \<lparr>cols = c, rows = r\<rparr>)"

definition exit_status_code :: "u16 \<Rightarrow> protocol_error + exit_status" where
  "exit_status_code c = (if unat c < 256 then Inr (ExitCode (ucast c)) else Inl InvalidField)"

definition exit_status_signal :: "u8 \<Rightarrow> protocol_error + exit_status" where
  "exit_status_signal s = (if 1 \<le> s \<and> s \<le> 127 then Inr (ExitSignal s) else Inl InvalidField)"

fun has_double_hyphen :: "bytes \<Rightarrow> bool" where
  "has_double_hyphen (a # b # s) = (a = CHR ''-'' \<and> b = CHR ''-'' \<or> has_double_hyphen (b # s))"
| "has_double_hyphen _ = False"

definition valid_error_code :: "string \<Rightarrow> bool" where
  "valid_error_code c \<longleftrightarrow> c \<noteq> [] \<and> length c \<le> 64 \<and> is_ascii_lowercase (hd c)
     \<and> last c \<noteq> CHR ''-''
     \<and> list_all (\<lambda>b. is_ascii_lowercase b \<or> is_ascii_digit b \<or> b = CHR ''-'') c
     \<and> \<not> has_double_hyphen c"

definition valid_error_message :: "string \<Rightarrow> bool" where
  "valid_error_message m \<longleftrightarrow> 1 \<le> length (chars m) \<and> length (chars m) \<le> 256
     \<and> \<not> list_ex is_ascii_control (chars m)"

definition protocol_error_message_new ::
  "string \<Rightarrow> string \<Rightarrow> protocol_error + protocol_error_message" where
  "protocol_error_message_new c m =
     (if valid_error_code c \<and> valid_error_message m then Inr \<lparr>pe_code = c, pe_message = m\<rparr>
      else Inl InvalidField)"

fun protocol_error_code :: "protocol_error \<Rightarrow> string" where
  "protocol_error_code BinaryTooLarge = ''binary-too-large''"
| "protocol_error_code ControlTooLarge = ''control-too-large''"
| "protocol_error_code MalformedText = ''malformed-text''"
| "protocol_error_code MalformedControl = ''malformed-control''"
| "protocol_error_code InvalidControl = ''invalid-control''"
| "protocol_error_code DuplicateField = ''duplicate-field''"
| "protocol_error_code MissingField = ''missing-field''"
| "protocol_error_code UnknownField = ''unknown-field''"
| "protocol_error_code UnknownMessageType = ''unknown-message-type''"
| "protocol_error_code UnsupportedVersion = ''unsupported-version''"
| "protocol_error_code InvalidDirection = ''invalid-direction''"
| "protocol_error_code InvalidField = ''invalid-field''"

section \<open>Binary frames\<close>

definition check_binary_len :: "bytes \<Rightarrow> protocol_error + unit" where
  "check_binary_len b = fail_if (MAX_BINARY_BYTES < length b) BinaryTooLarge"

definition decode_client_binary :: "bytes \<Rightarrow> protocol_error + client_frame" where
  "decode_client_binary b = and_then (check_binary_len b) (\<lambda>_. Inr (TerminalInput b))"

definition decode_server_binary :: "bytes \<Rightarrow> protocol_error + server_frame" where
  "decode_server_binary b = and_then (check_binary_len b) (\<lambda>_. Inr (TerminalOutput b))"

section \<open>Parsing control text\<close>

text \<open>The visitor that finds duplicate keys, at any depth, before the value is built.\<close>

fun detect_raw :: "(string \<Rightarrow> string) \<Rightarrow> raw_json \<Rightarrow> string + unit"
  and detect_seq :: "(string \<Rightarrow> string) \<Rightarrow> raw_json list \<Rightarrow> string option \<Rightarrow> string + unit"
  and detect_map ::
    "(string \<Rightarrow> string) \<Rightarrow> string list \<Rightarrow> (string \<times> raw_json) list \<Rightarrow> string option \<Rightarrow> string + unit"
where
  "detect_raw cust RawScalar = Inr ()"
| "detect_raw cust (RawError e) = Inl e"
| "detect_raw cust (RawSeq xs e) = detect_seq cust xs e"
| "detect_raw cust (RawMap kvs e) = detect_map cust [] kvs e"
| "detect_seq cust [] e = (case e of None \<Rightarrow> Inr () | Some m \<Rightarrow> Inl m)"
| "detect_seq cust (x # xs) e = and_then (detect_raw cust x) (\<lambda>_. detect_seq cust xs e)"
| "detect_map cust seen [] e = (case e of None \<Rightarrow> Inr () | Some m \<Rightarrow> Inl m)"
| "detect_map cust seen ((k, v) # kvs) e =
     (if k \<in> set seen then Inl (cust ''duplicate field'')
      else and_then (detect_raw cust v) (\<lambda>_. detect_map cust (k # seen) kvs e))"

fun contains :: "string \<Rightarrow> string \<Rightarrow> bool" where
  "contains [] p = (p = [])"
| "contains (c # s) p = (starts_with (c # s) p \<or> contains s p)"

definition unicode_escape_error :: "string \<Rightarrow> bool" where
  "unicode_escape_error e \<longleftrightarrow> contains e ''surrogate'' \<or> contains e ''unexpected end of hex escape''"

definition detect_duplicate_fields :: "json_lib \<Rightarrow> bytes \<Rightarrow> protocol_error + unit" where
  "detect_duplicate_fields lib text =
     map_err (\<lambda>e. if starts_with e ''duplicate field'' then DuplicateField
                  else if unicode_escape_error e then InvalidField else MalformedControl)
       (detect_raw (jl_custom lib) (jl_events lib text))"

definition classify_json_error :: "string \<Rightarrow> protocol_error" where
  "classify_json_error e = (if unicode_escape_error e then InvalidField else MalformedControl)"

fun as_object :: "json \<Rightarrow> json_object option" where
  "as_object (JObject m) = Some m"
| "as_object _ = None"

fun as_str :: "json \<Rightarrow> string option" where
  "as_str (JString s) = Some s"
| "as_str _ = None"

fun as_u64 :: "json \<Rightarrow> u64 option" where
  "as_u64 (JNumber (PosInt n)) = Some n"
| "as_u64 _ = None"

definition parse_control :: "json_lib \<Rightarrow> bytes \<Rightarrow> protocol_error + json_object" where
  "parse_control lib b =
     and_then (fail_if (MAX_CONTROL_BYTES < length b) ControlTooLarge) (\<lambda>_.
     and_then (fail_if (\<not> is_str b) MalformedText) (\<lambda>_.
     and_then (detect_duplicate_fields lib b) (\<lambda>_.
     and_then (map_err classify_json_error (jl_from_str lib b)) (\<lambda>v.
     ok_or InvalidControl (as_object v)))))"

section \<open>Fields\<close>

definition field :: "json_object \<Rightarrow> string \<Rightarrow> protocol_error + json" where
  "field ob k = ok_or MissingField (fmlookup ob k)"

definition string_field :: "json_object \<Rightarrow> string \<Rightarrow> protocol_error + string" where
  "string_field ob k = and_then (field ob k) (\<lambda>v. ok_or InvalidField (as_str v))"

definition u64_field :: "json_object \<Rightarrow> string \<Rightarrow> protocol_error + u64" where
  "u64_field ob k = and_then (field ob k) (\<lambda>v. ok_or InvalidField (as_u64 v))"

definition header :: "json_object \<Rightarrow> protocol_error + string" where
  "header ob =
     and_then (u64_field ob ''version'') (\<lambda>v.
     and_then (fail_if (v \<noteq> ucast PROTOCOL_VERSION) UnsupportedVersion) (\<lambda>_.
     string_field ob ''type''))"

definition exact_keys :: "json_object \<Rightarrow> string list \<Rightarrow> protocol_error + unit" where
  "exact_keys ob expected =
     and_then (fail_if (list_ex (\<lambda>k. fmlookup ob k = None) expected) MissingField) (\<lambda>_.
     fail_if (\<not> fBall (fmdom ob) (\<lambda>k. k \<in> set expected)) UnknownField)"

definition u16_try_from :: "u64 \<Rightarrow> protocol_error + u16" where
  "u16_try_from v = (if unat v < 65536 then Inr (ucast v) else Inl InvalidField)"

definition u8_try_from :: "u64 \<Rightarrow> protocol_error + u8" where
  "u8_try_from v = (if unat v < 256 then Inr (ucast v) else Inl InvalidField)"

definition dimension :: "json_object \<Rightarrow> string \<Rightarrow> protocol_error + u16" where
  "dimension ob k =
     and_then (u64_field ob k) (\<lambda>n.
     and_then (u16_try_from n) (\<lambda>v.
     if dimension_ok v then Inr v else Inl InvalidField))"

definition parse_exit_status :: "json \<Rightarrow> protocol_error + exit_status" where
  "parse_exit_status v =
     and_then (ok_or InvalidField (as_object v)) (\<lambda>ob.
     and_then (string_field ob ''kind'') (\<lambda>kind.
     if kind = ''code'' then
       and_then (exact_keys ob [''kind'', ''code'']) (\<lambda>_.
       and_then (u64_field ob ''code'') (\<lambda>n.
       and_then (u16_try_from n) exit_status_code))
     else if kind = ''signal'' then
       and_then (exact_keys ob [''kind'', ''signal'']) (\<lambda>_.
       and_then (u64_field ob ''signal'') (\<lambda>n.
       and_then (u8_try_from n) exit_status_signal))
     else if kind = ''unavailable'' then
       and_then (exact_keys ob [''kind'']) (\<lambda>_. Inr ExitUnavailable)
     else Inl InvalidField))"

fun close_reason_name :: "close_reason \<Rightarrow> string" where
  "close_reason_name ClientRequest = ''client-request''"
| "close_reason_name Exited = ''exited''"
| "close_reason_name Timeout = ''timeout''"
| "close_reason_name Policy = ''policy''"
| "close_reason_name ProtocolErrorReason = ''protocol-error''"
| "close_reason_name TransportError = ''transport-error''"
| "close_reason_name InternalError = ''internal-error''"

definition parse_close_reason :: "string \<Rightarrow> protocol_error + close_reason" where
  "parse_close_reason s =
     (if s = ''client-request'' then Inr ClientRequest
      else if s = ''exited'' then Inr Exited
      else if s = ''timeout'' then Inr Timeout
      else if s = ''policy'' then Inr Policy
      else if s = ''protocol-error'' then Inr ProtocolErrorReason
      else if s = ''transport-error'' then Inr TransportError
      else if s = ''internal-error'' then Inr InternalError
      else Inl InvalidField)"

section \<open>Decoders\<close>

text \<open>Each decoder parses the text, then reads the message off the object.\<close>

definition client_of_object :: "json_object \<Rightarrow> protocol_error + client_control" where
  "client_of_object ob =
     and_then (header ob) (\<lambda>ty.
     if ty = ''resize'' then
       and_then (exact_keys ob [''version'', ''type'', ''cols'', ''rows'']) (\<lambda>_.
       and_then (dimension ob ''cols'') (\<lambda>c.
       and_then (dimension ob ''rows'') (\<lambda>r.
       Inr (ClientResize \<lparr>cols = c, rows = r\<rparr>))))
     else if ty = ''close'' then
       and_then (fail_if (fmlookup ob ''reason'' \<noteq> None) InvalidDirection) (\<lambda>_.
       and_then (exact_keys ob [''version'', ''type'']) (\<lambda>_. Inr ClientClose))
     else if ty = ''exit-status'' \<or> ty = ''error'' then Inl InvalidDirection
     else Inl UnknownMessageType)"

definition decode_client_control :: "json_lib \<Rightarrow> bytes \<Rightarrow> protocol_error + client_control" where
  "decode_client_control lib b = and_then (parse_control lib b) client_of_object"

definition server_of_object :: "json_object \<Rightarrow> protocol_error + server_control" where
  "server_of_object ob =
     and_then (header ob) (\<lambda>ty.
     if ty = ''exit-status'' then
       and_then (exact_keys ob [''version'', ''type'', ''status'']) (\<lambda>_.
       and_then (field ob ''status'') (\<lambda>v.
       map_ok ServerExitStatus (parse_exit_status v)))
     else if ty = ''error'' then
       and_then (exact_keys ob [''version'', ''type'', ''code'', ''message'']) (\<lambda>_.
       and_then (string_field ob ''code'') (\<lambda>c.
       and_then (string_field ob ''message'') (\<lambda>m.
       map_ok ServerError (protocol_error_message_new c m))))
     else if ty = ''close'' then
       and_then (fail_if (fcard (fmdom ob) = 2 \<and> fmlookup ob ''version'' \<noteq> None
                            \<and> fmlookup ob ''type'' \<noteq> None) InvalidDirection) (\<lambda>_.
       and_then (exact_keys ob [''version'', ''type'', ''reason'']) (\<lambda>_.
       and_then (string_field ob ''reason'') (\<lambda>s.
       map_ok ServerClose (parse_close_reason s))))
     else if ty = ''resize'' then Inl InvalidDirection
     else Inl UnknownMessageType)"

definition decode_server_control :: "json_lib \<Rightarrow> bytes \<Rightarrow> protocol_error + server_control" where
  "decode_server_control lib b = and_then (parse_control lib b) server_of_object"

section \<open>Encoders\<close>

definition serialize :: "json_lib \<Rightarrow> json \<Rightarrow> protocol_error + bytes" where
  "serialize lib v =
     and_then (map_err (\<lambda>_. InvalidField) (jl_to_string lib v)) (\<lambda>s.
     if MAX_CONTROL_BYTES < length s then Inl ControlTooLarge else Inr s)"

definition j_uint :: "'a::len word \<Rightarrow> json" where
  "j_uint w = JNumber (PosInt (ucast w))"

text \<open>The derived \<open>Serialize\<close> of the wire structs.\<close>

definition client_resize_wire :: "resize \<Rightarrow> json" where
  "client_resize_wire z = JObject (fmap_of_list
     [(''version'', j_uint PROTOCOL_VERSION), (''type'', JString ''resize''),
      (''cols'', j_uint (cols z)), (''rows'', j_uint (rows z))])"

definition close_wire :: json where
  "close_wire = JObject (fmap_of_list
     [(''version'', j_uint PROTOCOL_VERSION), (''type'', JString ''close'')])"

fun status_wire :: "exit_status \<Rightarrow> protocol_error + json" where
  "status_wire (ExitCode c) =
     Inr (JObject (fmap_of_list [(''kind'', JString ''code''), (''code'', j_uint c)]))"
| "status_wire (ExitSignal s) =
     (if 1 \<le> s \<and> s \<le> 127 then
        Inr (JObject (fmap_of_list [(''kind'', JString ''signal''), (''signal'', j_uint s)]))
      else Inl InvalidField)"
| "status_wire ExitUnavailable = Inr (JObject (fmap_of_list [(''kind'', JString ''unavailable'')]))"

definition exit_status_wire :: "json \<Rightarrow> json" where
  "exit_status_wire st = JObject (fmap_of_list
     [(''version'', j_uint PROTOCOL_VERSION), (''type'', JString ''exit-status''), (''status'', st)])"

definition error_wire :: "protocol_error_message \<Rightarrow> json" where
  "error_wire e = JObject (fmap_of_list
     [(''version'', j_uint PROTOCOL_VERSION), (''type'', JString ''error''),
      (''code'', JString (pe_code e)), (''message'', JString (pe_message e))])"

definition server_close_wire :: "close_reason \<Rightarrow> json" where
  "server_close_wire r = JObject (fmap_of_list
     [(''version'', j_uint PROTOCOL_VERSION), (''type'', JString ''close''),
      (''reason'', JString (close_reason_name r))])"

fun client_wire :: "client_control \<Rightarrow> protocol_error + json" where
  "client_wire (ClientResize z) =
     and_then (resize_new (cols z) (rows z)) (\<lambda>_. Inr (client_resize_wire z))"
| "client_wire ClientClose = Inr close_wire"

fun server_wire :: "server_control \<Rightarrow> protocol_error + json" where
  "server_wire (ServerExitStatus st) = map_ok exit_status_wire (status_wire st)"
| "server_wire (ServerError e) =
     map_ok error_wire (protocol_error_message_new (pe_code e) (pe_message e))"
| "server_wire (ServerClose r) = Inr (server_close_wire r)"

definition encode_client_control :: "json_lib \<Rightarrow> client_control \<Rightarrow> protocol_error + bytes" where
  "encode_client_control lib m = and_then (client_wire m) (serialize lib)"

definition encode_server_control :: "json_lib \<Rightarrow> server_control \<Rightarrow> protocol_error + bytes" where
  "encode_server_control lib m = and_then (server_wire m) (serialize lib)"

section \<open>Valid messages\<close>

definition valid_resize :: "resize \<Rightarrow> bool" where
  "valid_resize z \<longleftrightarrow> dimension_ok (cols z) \<and> dimension_ok (rows z)"

fun valid_client :: "client_control \<Rightarrow> bool" where
  "valid_client (ClientResize z) = valid_resize z"
| "valid_client ClientClose = True"

fun valid_status :: "exit_status \<Rightarrow> bool" where
  "valid_status (ExitSignal s) = (1 \<le> s \<and> s \<le> 127)"
| "valid_status _ = True"

fun valid_server :: "server_control \<Rightarrow> bool" where
  "valid_server (ServerExitStatus st) = valid_status st"
| "valid_server (ServerError e) = (valid_error_code (pe_code e) \<and> valid_error_message (pe_message e))"
| "valid_server (ServerClose r) = True"

lemma dimension_valid: "dimension ob k = Inr d \<Longrightarrow> dimension_ok d"
  by (auto simp: dimension_def split: if_splits)

lemma client_wire_ok: "is_ok (client_wire m) \<longleftrightarrow> valid_client m"
  by (cases m) (auto simp: resize_new_def valid_resize_def)

lemma server_wire_ok: "is_ok (server_wire m) \<longleftrightarrow> valid_server m"
proof (cases m)
  case (ServerExitStatus st)
  then show ?thesis by (cases st) auto
qed (auto simp: protocol_error_message_new_def)

lemma client_of_object_valid: "client_of_object ob = Inr m \<Longrightarrow> valid_client m"
  by (auto simp: client_of_object_def valid_resize_def dimension_valid split: if_splits)

lemma parse_exit_status_valid: "parse_exit_status v = Inr st \<Longrightarrow> valid_status st"
  by (auto simp: parse_exit_status_def exit_status_code_def exit_status_signal_def split: if_splits)

lemma server_of_object_valid: "server_of_object ob = Inr m \<Longrightarrow> valid_server m"
  by (auto simp: server_of_object_def protocol_error_message_new_def parse_exit_status_valid
      split: if_splits)

lemma parse_control_size: "parse_control lib b = Inr ob \<Longrightarrow> length b \<le> MAX_CONTROL_BYTES \<and> is_str b"
  by (auto simp: parse_control_def)

text \<open>a decoded control message is well formed: terminal dimensions lie in 1 to 4096, signals
  in 1 to 127, error codes and messages satisfy their syntax; and it came from at most 4096
  bytes of valid UTF-8. So whatever a peer sends, only messages that the encoder would itself produce
  get through.\<close>

theorem decoded_messages_valid:
  "(decode_client_control lib b = Inr c \<longrightarrow>
      is_ok (client_wire c) \<and> valid_client c \<and> length b \<le> 4096 \<and> is_str b) \<and>
   (decode_server_control lib b = Inr m \<longrightarrow>
      is_ok (server_wire m) \<and> valid_server m \<and> length b \<le> 4096 \<and> is_str b)"
  using client_of_object_valid server_of_object_valid parse_control_size [of lib b]
  by (auto simp: decode_client_control_def decode_server_control_def client_wire_ok server_wire_ok
      MAX_CONTROL_BYTES_def)

section \<open>Direction\<close>

lemma exact_keys_card:
  "exact_keys ob ks = Inr u \<Longrightarrow> distinct ks \<Longrightarrow> fcard (fmdom ob) = length ks"
proof -
  assume *: "exact_keys ob ks = Inr u" "distinct ks"
  then have "fset (fmdom ob) = set ks"
    by (auto simp: exact_keys_def list_ex_iff fmdom'_alt_def [symmetric] fmlookup_dom'_iff
        fmlookup_dom_iff)
  then show ?thesis
    using * by (simp add: fcard.rep_eq distinct_card)
qed

text \<open>the two directions are disjoint: the text of a message for the server is refused by the
  client's decoder as going the wrong way, and conversely.\<close>

theorem directions_disjoint:
  "(decode_client_control lib b = Inr c \<longrightarrow> decode_server_control lib b = Inl InvalidDirection) \<and>
   (decode_server_control lib b = Inr m \<longrightarrow> decode_client_control lib b = Inl InvalidDirection)"
proof (intro conjI impI)
  assume "decode_client_control lib b = Inr c"
  then obtain ob where ob: "parse_control lib b = Inr ob" "client_of_object ob = Inr c"
    by (auto simp: decode_client_control_def)
  then have "server_of_object ob = Inl InvalidDirection"
    using exact_keys_card [of ob "[''version'', ''type'']"]
    by (auto simp: client_of_object_def server_of_object_def exact_keys_def split: if_splits)
  with ob(1) show "decode_server_control lib b = Inl InvalidDirection"
    by (simp add: decode_server_control_def)
next
  assume "decode_server_control lib b = Inr m"
  then obtain ob where ob: "parse_control lib b = Inr ob" "server_of_object ob = Inr m"
    by (auto simp: decode_server_control_def)
  then have "client_of_object ob = Inl InvalidDirection"
    by (auto simp: client_of_object_def server_of_object_def exact_keys_def split: if_splits)
  with ob(1) show "decode_client_control lib b = Inl InvalidDirection"
    by (simp add: decode_client_control_def)
qed

section \<open>Duplicate fields\<close>

fun clean_raw :: "raw_json \<Rightarrow> bool" where
  "clean_raw RawScalar = True"
| "clean_raw (RawError e) = False"
| "clean_raw (RawSeq xs e) = (e = None \<and> list_all clean_raw xs)"
| "clean_raw (RawMap kvs e) =
     (e = None \<and> distinct (map fst kvs) \<and> list_all (\<lambda>kv. clean_raw (snd kv)) kvs)"

fun syntax_ok :: "raw_json \<Rightarrow> bool" where
  "syntax_ok RawScalar = True"
| "syntax_ok (RawError e) = False"
| "syntax_ok (RawSeq xs e) = (e = None \<and> list_all syntax_ok xs)"
| "syntax_ok (RawMap kvs e) = (e = None \<and> list_all (\<lambda>kv. syntax_ok (snd kv)) kvs)"

lemma detect_clean:
  "(detect_raw cust r = Inr () \<longleftrightarrow> clean_raw r)"
  "(detect_seq cust rs e = Inr () \<longleftrightarrow> e = None \<and> list_all clean_raw rs)"
  "(detect_map cust seen kvs e = Inr () \<longleftrightarrow>
     e = None \<and> distinct (map fst kvs) \<and> set seen \<inter> fst ` set kvs = {}
     \<and> list_all (\<lambda>kv. clean_raw (snd kv)) kvs)"
  by (induction cust r and cust rs e and cust seen kvs e rule: detect_raw_detect_seq_detect_map.induct)
    (auto split: option.splits)

lemma detect_syntax_ok:
  "(syntax_ok r \<longrightarrow> detect_raw cust r = Inr () \<or> detect_raw cust r = Inl (cust ''duplicate field''))"
  "(e = None \<and> list_all syntax_ok rs \<longrightarrow>
     detect_seq cust rs e = Inr () \<or> detect_seq cust rs e = Inl (cust ''duplicate field''))"
  "(e = None \<and> list_all (\<lambda>kv. syntax_ok (snd kv)) kvs \<longrightarrow>
     detect_map cust seen kvs e = Inr () \<or> detect_map cust seen kvs e = Inl (cust ''duplicate field''))"
  by (induction cust r and cust rs e and cust seen kvs e rule: detect_raw_detect_seq_detect_map.induct)
    (auto split: option.splits)

text \<open>C36: the duplicate check is exact. The visitor accepts a text iff no object in it, at any depth,
  repeats a key and the deserializer meets no error; and on a text without syntax errors the only
  refusal is the duplicate-field one.\<close>

theorem duplicate_detection_exact:
  assumes "starts_with (jl_custom lib ''duplicate field'') ''duplicate field''"
  shows "(detect_duplicate_fields lib b = Inr () \<longleftrightarrow> clean_raw (jl_events lib b)) \<and>
    (syntax_ok (jl_events lib b) \<longrightarrow>
       detect_duplicate_fields lib b = (if clean_raw (jl_events lib b) then Inr () else Inl DuplicateField))"
  using detect_clean(1) [of "jl_custom lib" "jl_events lib b"]
    detect_syntax_ok(1) [of "jl_events lib b" "jl_custom lib"] assms
  by (auto simp: detect_duplicate_fields_def)

definition demo_lib :: "raw_json \<Rightarrow> json \<Rightarrow> bytes \<Rightarrow> json_lib" where
  "demo_lib r v t =
     \<lparr>jl_events = (\<lambda>_. r), jl_custom = (\<lambda>m. m @ '' at line 1 column 9''),
      jl_from_str = (\<lambda>_. Inr v), jl_to_string = (\<lambda>_. Inr t)\<rparr>"

theorem duplicate_detection_exact_witness:
  "detect_duplicate_fields
     (demo_lib (RawSeq [RawMap [(''a'', RawScalar), (''a'', RawScalar)] None] None) JNull ''x'') ''x''
   = Inl DuplicateField"
  using duplicate_detection_exact
    [of "demo_lib (RawSeq [RawMap [(''a'', RawScalar), (''a'', RawScalar)] None] None) JNull ''x''" "''x''"]
  by (simp add: demo_lib_def starts_with_def)

section \<open>Round trips\<close>

text \<open>
  What the code relies on from the JSON library for one value: printing it, when that succeeds,
  gives UTF-8 text that parses back to the value, without duplicate keys or errors.
\<close>

definition json_faithful :: "json_lib \<Rightarrow> json \<Rightarrow> bool" where
  "json_faithful lib v \<longleftrightarrow>
     (case jl_to_string lib v of
        Inl _ \<Rightarrow> True
      | Inr s \<Rightarrow> is_str s \<and> clean_raw (jl_events lib s) \<and> jl_from_str lib s = Inr v)"

lemma parse_control_serialize:
  assumes "json_faithful lib (JObject ob)" and "serialize lib (JObject ob) = Inr s"
  shows "parse_control lib s = Inr ob"
  using assms detect_clean(1) [of "jl_custom lib" "jl_events lib s"]
  by (auto simp: json_faithful_def serialize_def parse_control_def detect_duplicate_fields_def
      split: if_splits)

text \<open>The contract of a message format: reading the object of a message's wire value gives the
  message back.\<close>

locale wire_format =
  fixes wire :: "'m \<Rightarrow> protocol_error + json"
    and of_object :: "json_object \<Rightarrow> protocol_error + 'm"
  assumes wire_object: "wire m = Inr v \<Longrightarrow> \<exists>ob. v = JObject ob \<and> of_object ob = Inr m"
begin

lemma decode_encode:
  assumes "wire m = Inr v" and "json_faithful lib v" and "serialize lib v = Inr s"
  shows "and_then (parse_control lib s) of_object = Inr m"
  using wire_object [OF assms(1)] parse_control_serialize assms(2,3) by fastforce

lemma wire_inj: "wire m = Inr v \<Longrightarrow> wire m' = Inr v \<Longrightarrow> m = m'"
  using wire_object [of m v] wire_object [of m' v] by auto

end

lemma unat_u16_less [simp]: "unat (w :: u16) < 65536" "unat (w :: u16) < 18446744073709551616"
  using unsigned_less [of w, where ?'a = nat] by simp_all

lemma unat_u8_less [simp]:
  "unat (w :: u8) < 256" "unat (w :: u8) < 65536" "unat (w :: u8) < 18446744073709551616"
  using unsigned_less [of w, where ?'a = nat] by simp_all

lemma unat_ucast_u16 [simp]: "unat (ucast (w :: u16) :: u64) = unat w"
  by (simp add: unsigned_ucast_eq unsigned_take_bit_eq take_bit_nat_eq_self_iff)

lemma unat_ucast_u8 [simp]: "unat (ucast (w :: u8) :: u64) = unat w"
  by (simp add: unsigned_ucast_eq unsigned_take_bit_eq take_bit_nat_eq_self_iff)

lemma ucast_u16_roundtrip [simp]: "ucast (ucast (w :: u16) :: u64) = w"
  by (simp add: word_unat_eq_iff unsigned_ucast_eq unsigned_take_bit_eq take_bit_nat_eq_self_iff)

lemma ucast_u8_roundtrip [simp]: "ucast (ucast (w :: u8) :: u64) = w"
  by (simp add: word_unat_eq_iff unsigned_ucast_eq unsigned_take_bit_eq take_bit_nat_eq_self_iff)

lemma ucast_u8_u64_u16 [simp]: "unat (ucast (ucast (w :: u8) :: u64) :: u16) = unat w"
  by (simp add: unsigned_ucast_eq unsigned_take_bit_eq take_bit_nat_eq_self_iff)

lemma ucast_u8_u64_u16_u8 [simp]: "ucast (ucast (ucast (w :: u8) :: u64) :: u16) = w"
  by (simp add: word_unat_eq_iff unsigned_ucast_eq unsigned_take_bit_eq take_bit_nat_eq_self_iff)

lemmas wire_simps = field_def string_field_def u64_field_def header_def exact_keys_def dimension_def
  u16_try_from_def u8_try_from_def j_uint_def fmdom_fmap_of_list

interpretation client_format: wire_format client_wire client_of_object
proof
  fix m v
  assume v: "client_wire m = Inr v"
  show "\<exists>ob. v = JObject ob \<and> client_of_object ob = Inr m"
  proof (cases m)
    case (ClientResize z)
    with v have "v = client_resize_wire z" "dimension_ok (cols z)" "dimension_ok (rows z)"
      by (auto simp: resize_new_def split: if_splits)
    with ClientResize show ?thesis
      by (simp add: client_of_object_def wire_simps client_resize_wire_def del: and_then_eq_Inr)
  next
    case ClientClose
    then have "client_of_object (fmap_of_list
        [(''version'', j_uint PROTOCOL_VERSION), (''type'', JString ''close'')]) = Inr m"
      by (simp add: client_of_object_def wire_simps del: and_then_eq_Inr)
    with ClientClose v show ?thesis by (auto simp: close_wire_def)
  qed
qed

lemma parse_close_reason_name: "parse_close_reason (close_reason_name r) = Inr r"
  by (cases r) (simp_all add: parse_close_reason_def)

lemma parse_status_wire:
  assumes "status_wire st = Inr v"
  shows "parse_exit_status v = Inr st"
proof (cases st)
  case (ExitSignal n)
  with assms have "v = JObject (fmap_of_list [(''kind'', JString ''signal''), (''signal'', j_uint n)])"
    "1 \<le> n" "n \<le> 127"
    by (auto split: if_splits)
  with ExitSignal show ?thesis
    by (simp add: parse_exit_status_def wire_simps exit_status_signal_def del: and_then_eq_Inr)
qed (use assms in \<open>auto simp: parse_exit_status_def wire_simps exit_status_code_def
        simp del: and_then_eq_Inr\<close>)

interpretation server_format: wire_format server_wire server_of_object
proof
  fix m v
  assume v: "server_wire m = Inr v"
  show "\<exists>ob. v = JObject ob \<and> server_of_object ob = Inr m"
  proof (cases m)
    case (ServerExitStatus st)
    with v obtain w where w: "status_wire st = Inr w" "v = exit_status_wire w" by auto
    have "server_of_object (fmap_of_list
        [(''version'', j_uint PROTOCOL_VERSION), (''type'', JString ''exit-status''), (''status'', w)])
      = Inr m"
      using ServerExitStatus parse_status_wire [OF w(1)]
      by (simp add: server_of_object_def wire_simps del: and_then_eq_Inr map_ok_eq_Inr)
    with w(2) show ?thesis by (auto simp: exit_status_wire_def)
  next
    case (ServerError e)
    with v have e: "v = error_wire e" "protocol_error_message_new (pe_code e) (pe_message e) = Inr e"
      by (cases e; auto simp: protocol_error_message_new_def split: if_splits)+
    have "server_of_object (fmap_of_list
        [(''version'', j_uint PROTOCOL_VERSION), (''type'', JString ''error''),
         (''code'', JString (pe_code e)), (''message'', JString (pe_message e))]) = Inr m"
      using ServerError e(2)
      by (simp add: server_of_object_def wire_simps del: and_then_eq_Inr map_ok_eq_Inr)
    with e(1) show ?thesis by (auto simp: error_wire_def)
  next
    case (ServerClose r)
    with v have "v = server_close_wire r" by simp
    moreover have "server_of_object (fmap_of_list
        [(''version'', j_uint PROTOCOL_VERSION), (''type'', JString ''close''),
         (''reason'', JString (close_reason_name r))]) = Inr m"
      using ServerClose
      by (simp add: server_of_object_def wire_simps parse_close_reason_name fcard_finsert_if
          del: and_then_eq_Inr map_ok_eq_Inr)
    ultimately show ?thesis by (auto simp: server_close_wire_def)
  qed
qed

text \<open>what the encoder of client messages writes, the decoder of client messages reads back, for
  every message, given a JSON library that parses what it prints.\<close>

theorem client_control_roundtrip:
  assumes "\<And>v. client_wire m = Inr v \<Longrightarrow> json_faithful lib v"
    and "encode_client_control lib m = Inr s"
  shows "decode_client_control lib s = Inr m"
  using client_format.decode_encode assms
  by (fastforce simp: encode_client_control_def decode_client_control_def)

theorem client_control_roundtrip_witness:
  "let lib = demo_lib (RawMap [] None) (client_resize_wire \<lparr>cols = 80, rows = 24\<rparr>) ''{...}''
   in decode_client_control lib ''{...}'' = Inr (ClientResize \<lparr>cols = 80, rows = 24\<rparr>)"
proof -
  let ?lib = "demo_lib (RawMap [] None) (client_resize_wire \<lparr>cols = 80, rows = 24\<rparr>) ''{...}''"
  have ok: "resize_new 80 24 = Inr \<lparr>cols = 80, rows = 24\<rparr>"
    by (simp add: resize_new_def dimension_ok_def MAX_DIMENSION_def)
  have "json_faithful ?lib v" if "client_wire (ClientResize \<lparr>cols = 80, rows = 24\<rparr>) = Inr v" for v
    using that ok by (auto simp: json_faithful_def demo_lib_def is_str_def)
  moreover have "encode_client_control ?lib (ClientResize \<lparr>cols = 80, rows = 24\<rparr>) = Inr ''{...}''"
    using ok by (simp add: encode_client_control_def serialize_def demo_lib_def MAX_CONTROL_BYTES_def)
  ultimately have "decode_client_control ?lib ''{...}'' = Inr (ClientResize \<lparr>cols = 80, rows = 24\<rparr>)"
    by (rule client_control_roundtrip)
  then show ?thesis by simp
qed

text \<open>C37: what the encoder of server messages writes, the decoder of server messages reads back: exit
  statuses, errors and close reasons.\<close>

theorem server_control_roundtrip:
  assumes "\<And>v. server_wire m = Inr v \<Longrightarrow> json_faithful lib v"
    and "encode_server_control lib m = Inr s"
  shows "decode_server_control lib s = Inr m"
  using server_format.decode_encode assms
  by (fastforce simp: encode_server_control_def decode_server_control_def)

theorem server_control_roundtrip_witness:
  "let lib = demo_lib (RawMap [] None) (server_close_wire Policy) ''{...}''
   in decode_server_control lib ''{...}'' = Inr (ServerClose Policy)"
proof -
  let ?lib = "demo_lib (RawMap [] None) (server_close_wire Policy) ''{...}''"
  have "json_faithful ?lib v" if "server_wire (ServerClose Policy) = Inr v" for v
    using that by (auto simp: json_faithful_def demo_lib_def is_str_def)
  moreover have "encode_server_control ?lib (ServerClose Policy) = Inr ''{...}''"
    by (simp add: encode_server_control_def serialize_def demo_lib_def MAX_CONTROL_BYTES_def)
  ultimately have "decode_server_control ?lib ''{...}'' = Inr (ServerClose Policy)"
    by (rule server_control_roundtrip)
  then show ?thesis by simp
qed

text \<open>A library on which a concrete resize message decodes.\<close>

lemma demo_resize_decodes:
  "decode_client_control
     (demo_lib (RawMap [] None) (client_resize_wire \<lparr>cols = 80, rows = 24\<rparr>) ''{...}'') ''{...}''
   = Inr (ClientResize \<lparr>cols = 80, rows = 24\<rparr>)"
proof -
  let ?z = "\<lparr>cols = 80, rows = 24\<rparr> :: resize"
  have w: "client_wire (ClientResize ?z) = Inr (client_resize_wire ?z)"
    by (simp add: resize_new_def dimension_ok_def MAX_DIMENSION_def)
  show ?thesis
    unfolding decode_client_control_def
    by (rule client_format.decode_encode [OF w])
      (simp_all add: json_faithful_def demo_lib_def is_str_def serialize_def MAX_CONTROL_BYTES_def)
qed

theorem directions_disjoint_witness:
  "decode_server_control
     (demo_lib (RawMap [] None) (client_resize_wire \<lparr>cols = 80, rows = 24\<rparr>) ''{...}'') ''{...}''
   = Inl InvalidDirection"
  using directions_disjoint demo_resize_decodes by blast

theorem decoded_messages_valid_witness:
  "valid_client (ClientResize \<lparr>cols = 80, rows = 24\<rparr>)"
  using decoded_messages_valid demo_resize_decodes by blast

end
