(* ===== verification/Audit_Log.thy ===== *)
theory Audit_Log
  imports Protocol Capacity
begin

text \<open>
  \<open>audit.rs\<close>: the audit events and their JSON form, the append-only log with its fail-stop flag,
  and the checks a destination passes before it is opened. The JSON and time libraries, the base64
  encoder, and the answers of the operating system (file metadata, \<open>openat\<close>, the last byte, every
  write and flush) are parameters or arguments. Lemmas: the file holds exactly the accepted events
  as whole lines in their order, followed by at most one torn line after which nothing is ever
  written; and an opened destination satisfied every safety condition.
\<close>

section \<open>Values\<close>

definition AUDIT_SCHEMA_VERSION :: u8 where "AUDIT_SCHEMA_VERSION = 1"
definition OPAQUE_ID_BYTES :: nat where "OPAQUE_ID_BYTES = 16"
definition MAX_AUDIT_RECORD_BYTES :: nat where "MAX_AUDIT_RECORD_BYTES = 4096"

datatype audit_value_error = AuditValueError

text \<open>\<open>AuditTimestamp\<close>; the time library formats a system time or fails.\<close>

type_synonym system_time = nat

datatype audit_timestamp = AuditTimestamp string

definition from_system_time ::
  "(system_time \<Rightarrow> string option) \<Rightarrow> system_time \<Rightarrow> audit_value_error + audit_timestamp" where
  "from_system_time rfc3339 t = ok_or AuditValueError (map_option AuditTimestamp (rfc3339 t))"

datatype session_id = SessionId string
datatype correlation_id = CorrelationId string

definition session_id_from_bytes :: "(bytes \<Rightarrow> string) \<Rightarrow> bytes \<Rightarrow> session_id" where
  "session_id_from_bytes encode raw = SessionId (encode raw)"

definition session_id_generate ::
  "(bytes \<Rightarrow> string) \<Rightarrow> unit + bytes \<Rightarrow> audit_value_error + session_id" where
  "session_id_generate encode fill =
     map_ok (session_id_from_bytes encode) (map_err (\<lambda>_. AuditValueError) fill)"

definition correlation_id_generate ::
  "(bytes \<Rightarrow> string) \<Rightarrow> unit + bytes \<Rightarrow> audit_value_error + correlation_id" where
  "correlation_id_generate encode fill =
     map_ok (\<lambda>raw. CorrelationId (encode raw)) (map_err (\<lambda>_. AuditValueError) fill)"

datatype resolved_audit_target = ResolvedAuditTarget string

definition audit_target_resolve :: "target_allowlist \<Rightarrow> string \<Rightarrow> unknown_target + resolved_audit_target" where
  "audit_target_resolve targets name =
     map_ok (\<lambda>t. ResolvedAuditTarget (target_name t)) (allowlist_resolve targets name)"

fun audit_target_str :: "resolved_audit_target \<Rightarrow> string" where
  "audit_target_str (ResolvedAuditTarget name) = name"

datatype denial_category =
    CatAuthentication | CatRateLimit | CatCapacity | CatTarget | CatTicket | CatOrigin | CatHostKey

datatype denial_reason =
    DenyIdentityRequired | DenyIdentityUnavailable | DenyAuthenticationRateLimited
  | DenySessionRateLimited | DenyGlobalSessionLimit | DenyIdentitySessionLimit | DenyTargetNotFound
  | DenyTargetUnavailable | DenyTicketMalformed | DenyTicketUnknown | DenyTicketExpired
  | DenyTicketWrongIdentity | DenyTicketCapacity | DenyTicketGeneration | DenyOriginDenied
  | DenyHostKeyVerificationFailed | DenyUnknownHostKey | DenyHostKeyMismatch
  | DenySshConnectionFailed | DenySshAuthenticationFailed | DenySshUserPolicyDenied | DenySshFailed
  | DenySessionCancelled | DenySessionUnavailable | DenyAuditUnavailable

datatype audit_close_reason =
    AuditChildExited | AuditExplicit | AuditWebsocketDisconnect | AuditProtocolViolation
  | AuditPolicyViolation | AuditInternalFailure | AuditManagerShutdown | AuditIdleTimeout
  | AuditAbsoluteTimeout | AuditSpawnFailure | AuditCancellation | AuditSupervisorUnwind
  | AuditBackendFailure

datatype audit_outcome = OutcomeCode u8 | OutcomeSignal u8 | OutcomeUnavailable

datatype audit_event_kind =
    AuthenticationSucceeded string "string option" audit_timestamp
  | SessionStarted session_id string string "string option" audit_timestamp
  | SessionEnded session_id string string "string option" audit_timestamp audit_timestamp
      audit_close_reason "audit_outcome option"
  | AccessDenied correlation_id denial_category denial_reason "string option" "string option"
      "string option" audit_timestamp

record audit_event =
  ev_schema_version :: u8
  ev_event :: audit_event_kind

definition audit_event_new :: "audit_event_kind \<Rightarrow> audit_event" where
  "audit_event_new e = \<lparr>ev_schema_version = AUDIT_SCHEMA_VERSION, ev_event = e\<rparr>"

definition show_socket_addr :: "socket_addr \<Rightarrow> string" where
  "show_socket_addr a =
     (case addr_ip a of
        V4 _ _ _ _ \<Rightarrow> show_ip_addr (addr_ip a) @ '':'' @ show_nat (unat (addr_port a))
      | V6 _ \<Rightarrow> ''['' @ show_ip_addr (addr_ip a) @ '']:'' @ show_nat (unat (addr_port a)))"

definition format_address :: "socket_addr option \<Rightarrow> string option" where
  "format_address address = map_option show_socket_addr address"

definition authentication_succeeded ::
  "identity \<Rightarrow> socket_addr option \<Rightarrow> audit_timestamp \<Rightarrow> audit_event" where
  "authentication_succeeded who remote occurred_at =
     audit_event_new (AuthenticationSucceeded (identity_str who) (format_address remote) occurred_at)"

definition session_started ::
  "session_id \<Rightarrow> identity \<Rightarrow> resolved_audit_target \<Rightarrow> socket_addr option \<Rightarrow> audit_timestamp \<Rightarrow> audit_event" where
  "session_started sid who tgt remote started_at =
     audit_event_new (SessionStarted sid (identity_str who) (audit_target_str tgt)
       (format_address remote) started_at)"

definition session_ended ::
  "session_id \<Rightarrow> identity \<Rightarrow> resolved_audit_target \<Rightarrow> socket_addr option \<Rightarrow> audit_timestamp \<Rightarrow>
   audit_timestamp \<Rightarrow> audit_close_reason \<Rightarrow> audit_outcome option \<Rightarrow> audit_event" where
  "session_ended sid who tgt remote started_at ended_at reason outcome =
     audit_event_new (SessionEnded sid (identity_str who) (audit_target_str tgt)
       (format_address remote) started_at ended_at reason outcome)"

definition access_denied ::
  "correlation_id \<Rightarrow> denial_category \<Rightarrow> denial_reason \<Rightarrow> identity option \<Rightarrow>
   resolved_audit_target option \<Rightarrow> socket_addr option \<Rightarrow> audit_timestamp \<Rightarrow> audit_event" where
  "access_denied cid category reason who tgt remote occurred_at =
     audit_event_new (AccessDenied cid category reason (map_option identity_str who)
       (map_option audit_target_str tgt) (format_address remote) occurred_at)"

section \<open>The JSON form\<close>

text \<open>The derived \<open>Serialize\<close> implementations: kebab-case names, tagged variants, absent options
  skipped.\<close>

fun denial_category_name :: "denial_category \<Rightarrow> string" where
  "denial_category_name CatAuthentication = ''authentication''"
| "denial_category_name CatRateLimit = ''rate-limit''"
| "denial_category_name CatCapacity = ''capacity''"
| "denial_category_name CatTarget = ''target''"
| "denial_category_name CatTicket = ''ticket''"
| "denial_category_name CatOrigin = ''origin''"
| "denial_category_name CatHostKey = ''host-key''"

fun denial_reason_name :: "denial_reason \<Rightarrow> string" where
  "denial_reason_name DenyIdentityRequired = ''identity-required''"
| "denial_reason_name DenyIdentityUnavailable = ''identity-unavailable''"
| "denial_reason_name DenyAuthenticationRateLimited = ''authentication-rate-limited''"
| "denial_reason_name DenySessionRateLimited = ''session-rate-limited''"
| "denial_reason_name DenyGlobalSessionLimit = ''global-session-limit''"
| "denial_reason_name DenyIdentitySessionLimit = ''identity-session-limit''"
| "denial_reason_name DenyTargetNotFound = ''target-not-found''"
| "denial_reason_name DenyTargetUnavailable = ''target-unavailable''"
| "denial_reason_name DenyTicketMalformed = ''ticket-malformed''"
| "denial_reason_name DenyTicketUnknown = ''ticket-unknown''"
| "denial_reason_name DenyTicketExpired = ''ticket-expired''"
| "denial_reason_name DenyTicketWrongIdentity = ''ticket-wrong-identity''"
| "denial_reason_name DenyTicketCapacity = ''ticket-capacity''"
| "denial_reason_name DenyTicketGeneration = ''ticket-generation''"
| "denial_reason_name DenyOriginDenied = ''origin-denied''"
| "denial_reason_name DenyHostKeyVerificationFailed = ''host-key-verification-failed''"
| "denial_reason_name DenyUnknownHostKey = ''unknown-host-key''"
| "denial_reason_name DenyHostKeyMismatch = ''host-key-mismatch''"
| "denial_reason_name DenySshConnectionFailed = ''ssh-connection-failed''"
| "denial_reason_name DenySshAuthenticationFailed = ''ssh-authentication-failed''"
| "denial_reason_name DenySshUserPolicyDenied = ''ssh-user-policy-denied''"
| "denial_reason_name DenySshFailed = ''ssh-failed''"
| "denial_reason_name DenySessionCancelled = ''session-cancelled''"
| "denial_reason_name DenySessionUnavailable = ''session-unavailable''"
| "denial_reason_name DenyAuditUnavailable = ''audit-unavailable''"

fun audit_close_reason_name :: "audit_close_reason \<Rightarrow> string" where
  "audit_close_reason_name AuditChildExited = ''child-exited''"
| "audit_close_reason_name AuditExplicit = ''explicit''"
| "audit_close_reason_name AuditWebsocketDisconnect = ''websocket-disconnect''"
| "audit_close_reason_name AuditProtocolViolation = ''protocol-violation''"
| "audit_close_reason_name AuditPolicyViolation = ''policy-violation''"
| "audit_close_reason_name AuditInternalFailure = ''internal-failure''"
| "audit_close_reason_name AuditManagerShutdown = ''manager-shutdown''"
| "audit_close_reason_name AuditIdleTimeout = ''idle-timeout''"
| "audit_close_reason_name AuditAbsoluteTimeout = ''absolute-timeout''"
| "audit_close_reason_name AuditSpawnFailure = ''spawn-failure''"
| "audit_close_reason_name AuditCancellation = ''cancellation''"
| "audit_close_reason_name AuditSupervisorUnwind = ''supervisor-unwind''"
| "audit_close_reason_name AuditBackendFailure = ''backend-failure''"

fun outcome_wire :: "audit_outcome \<Rightarrow> json" where
  "outcome_wire (OutcomeCode c) = JObject (fmap_of_list [(''kind'', JString ''code''), (''value'', j_uint c)])"
| "outcome_wire (OutcomeSignal s) = JObject (fmap_of_list [(''kind'', JString ''signal''), (''value'', j_uint s)])"
| "outcome_wire OutcomeUnavailable = JObject (fmap_of_list [(''kind'', JString ''unavailable'')])"

definition optional_field :: "string \<Rightarrow> json option \<Rightarrow> (string \<times> json) list" where
  "optional_field name v = (case v of None \<Rightarrow> [] | Some j \<Rightarrow> [(name, j)])"

fun timestamp_wire :: "audit_timestamp \<Rightarrow> json" where
  "timestamp_wire (AuditTimestamp s) = JString s"

fun event_fields :: "audit_event_kind \<Rightarrow> (string \<times> json) list" where
  "event_fields (AuthenticationSucceeded who remote at) =
     [(''event_type'', JString ''authentication-succeeded''), (''identity'', JString who)]
     @ optional_field ''remote_address'' (map_option JString remote)
     @ [(''occurred_at'', timestamp_wire at)]"
| "event_fields (SessionStarted (SessionId sid) who tgt remote at) =
     [(''event_type'', JString ''session-started''), (''session_id'', JString sid),
      (''identity'', JString who), (''target'', JString tgt)]
     @ optional_field ''remote_address'' (map_option JString remote)
     @ [(''started_at'', timestamp_wire at)]"
| "event_fields (SessionEnded (SessionId sid) who tgt remote started ended reason outcome) =
     [(''event_type'', JString ''session-ended''), (''session_id'', JString sid),
      (''identity'', JString who), (''target'', JString tgt)]
     @ optional_field ''remote_address'' (map_option JString remote)
     @ [(''started_at'', timestamp_wire started), (''ended_at'', timestamp_wire ended),
        (''close_reason'', JString (audit_close_reason_name reason))]
     @ optional_field ''outcome'' (map_option outcome_wire outcome)"
| "event_fields (AccessDenied (CorrelationId cid) category reason who tgt remote at) =
     [(''event_type'', JString ''access-denied''), (''correlation_id'', JString cid),
      (''category'', JString (denial_category_name category)),
      (''reason'', JString (denial_reason_name reason))]
     @ optional_field ''identity'' (map_option JString who)
     @ optional_field ''target'' (map_option JString tgt)
     @ optional_field ''remote_address'' (map_option JString remote)
     @ [(''occurred_at'', timestamp_wire at)]"

definition event_wire :: "audit_event \<Rightarrow> json" where
  "event_wire e = JObject (fmap_of_list
     ((''schema_version'', j_uint (ev_schema_version e)) # event_fields (ev_event e)))"

section \<open>The log\<close>

datatype audit_error =
    UnsafeDestination | DestinationUnavailable | IncompleteExistingLog | RecordTooLarge
  | SerializationUnavailable | AuditWriterUnavailable

text \<open>\<open>AuditWriterState\<close>: what the file holds stands for the writer, with the fail-stop flag.\<close>

record audit_log =
  al_written :: bytes
  al_failed :: bool

definition from_writer :: "bytes \<Rightarrow> audit_log" where
  "from_writer existing = \<lparr>al_written = existing, al_failed = False\<rparr>"

text \<open>The answer of one \<open>write\<close>: how many bytes were taken, or an error; then of \<open>flush\<close>.\<close>

datatype write_result = Wrote nat | WriteError

definition newline :: char where "newline = CHR 0x0A"

definition audit_line :: "json_lib \<Rightarrow> audit_event \<Rightarrow> audit_error + bytes" where
  "audit_line lib e =
     and_then (map_err (\<lambda>_. SerializationUnavailable) (jl_to_string lib (event_wire e))) (\<lambda>json.
     let line = json @ [newline] in
     and_then (fail_if (length line > MAX_AUDIT_RECORD_BYTES) RecordTooLarge) (\<lambda>_. Inr line))"

definition append_line :: "bytes \<Rightarrow> write_result \<Rightarrow> bool \<Rightarrow> audit_log \<Rightarrow> (audit_error + unit) \<times> audit_log" where
  "append_line line write_res flush_ok log =
     (case write_res of
        WriteError \<Rightarrow> (Inl AuditWriterUnavailable, log\<lparr>al_failed := True\<rparr>)
      | Wrote count \<Rightarrow>
          (let log' = log\<lparr>al_written := al_written log @ take count line\<rparr> in
           if count = length line \<and> flush_ok then (Inr (), log')
           else (Inl AuditWriterUnavailable, log'\<lparr>al_failed := True\<rparr>)))"

definition record_event ::
  "json_lib \<Rightarrow> audit_event \<Rightarrow> write_result \<Rightarrow> bool \<Rightarrow> audit_log \<Rightarrow> (audit_error + unit) \<times> audit_log" where
  "record_event lib e write_res flush_ok log =
     (case audit_line lib e of
        Inl err \<Rightarrow> (Inl err, log)
      | Inr line \<Rightarrow>
          if al_failed log then (Inl AuditWriterUnavailable, log)
          else append_line line write_res flush_ok log)"

definition is_available :: "audit_log \<Rightarrow> bool" where
  "is_available log \<longleftrightarrow> \<not> al_failed log"

definition authority_guard :: "audit_log \<Rightarrow> audit_error + unit" where
  "authority_guard log = fail_if (al_failed log) AuditWriterUnavailable"

text \<open>A run of the log; it keeps the lines of the events that were accepted.\<close>

record audit_trace =
  at_log :: audit_log
  at_accepted :: "bytes list"

type_synonym audit_op = "audit_event \<times> write_result \<times> bool"

fun audit_step :: "json_lib \<Rightarrow> audit_trace \<Rightarrow> audit_op \<Rightarrow> audit_trace" where
  "audit_step lib s (e, write_res, flush_ok) =
     (case record_event lib e write_res flush_ok (at_log s) of
        (Inl _, log) \<Rightarrow> s\<lparr>at_log := log\<rparr>
      | (Inr _, log) \<Rightarrow>
          \<lparr>at_log = log, at_accepted = at_accepted s
             @ (case audit_line lib e of Inr line \<Rightarrow> [line] | Inl _ \<Rightarrow> [])\<rparr>)"

definition is_line :: "bytes \<Rightarrow> bool" where
  "is_line l \<longleftrightarrow> length l \<le> MAX_AUDIT_RECORD_BYTES \<and> (\<exists>body. l = body @ [newline] \<and> newline \<notin> set body)"

definition audit_inv :: "bytes \<Rightarrow> audit_trace \<Rightarrow> bool" where
  "audit_inv existing s \<longleftrightarrow>
     (\<exists>torn. al_written (at_log s) = existing @ concat (at_accepted s) @ torn
        \<and> (torn = [] \<or> al_failed (at_log s)) \<and> (\<exists>l. is_line l \<and> prefix torn l))
     \<and> (\<forall>l \<in> set (at_accepted s). is_line l)"

text \<open>The one law of the JSON printer the log relies on: its output has no line break.\<close>

definition prints_one_line :: "json_lib \<Rightarrow> bool" where
  "prints_one_line lib \<longleftrightarrow> (\<forall>v s. jl_to_string lib v = Inr s \<longrightarrow> newline \<notin> set s)"

lemma audit_line_is_line:
  "prints_one_line lib \<Longrightarrow> audit_line lib e = Inr l \<Longrightarrow> is_line l"
  by (auto simp: audit_line_def Let_def is_line_def prints_one_line_def)

lemma record_failed:
  "al_failed log \<Longrightarrow> snd (record_event lib e w f log) = log \<and> \<not> is_ok (fst (record_event lib e w f log))"
  by (auto simp: record_event_def split: sum.splits)

lemma audit_step_inv:
  assumes lib: "prints_one_line lib" and inv: "audit_inv existing s"
  shows "audit_inv existing (audit_step lib s op)"
proof -
  obtain e w f where op: "op = (e, w, f)" by (metis prod_cases3)
  show ?thesis
  proof (cases "audit_line lib e")
    case (Inl err)
    with inv op show ?thesis by (simp add: record_event_def)
  next
    case (Inr l)
    show ?thesis
    proof (cases "al_failed (at_log s)")
      case True
      with Inr inv op show ?thesis by (simp add: record_event_def)
    next
      case False
      with inv have w0: "al_written (at_log s) = existing @ concat (at_accepted s)"
        and acc: "\<forall>l \<in> set (at_accepted s). is_line l"
        by (auto simp: audit_inv_def)
      have l: "is_line l" by (rule audit_line_is_line [OF lib Inr])
      show ?thesis
      proof (cases w)
        case WriteError
        with Inr False w0 acc l op show ?thesis
          by (auto simp: record_event_def append_line_def audit_inv_def)
      next
        case (Wrote n)
        with Inr False w0 acc l op show ?thesis
          by (auto simp: record_event_def append_line_def audit_inv_def Let_def
            intro!: exI [of _ "take n l"] exI [of _ l] take_is_prefix)
      qed
    qed
  qed
qed

lemma failed_step: "al_failed (at_log s) \<Longrightarrow> audit_step lib s op = s"
proof -
  assume "al_failed (at_log s)"
  moreover obtain e w f where "op = (e, w, f)" by (metis prod_cases3)
  ultimately show ?thesis
    using record_failed [of "at_log s" lib e w f]
    by (cases "record_event lib e w f (at_log s)") (auto split: sum.splits)
qed

text \<open>The failure flag, with what the file holds then, is written once.\<close>

definition failed_cell :: "audit_trace \<Rightarrow> bytes option" where
  "failed_cell s = (if al_failed (at_log s) then Some (al_written (at_log s)) else None)"

interpretation audit_failed: sticky_cell "audit_step lib" failed_cell for lib
  by unfold_locales (auto simp: failed_cell_def failed_step split: if_splits)

lemma audit_run_inv:
  assumes "prints_one_line lib" "audit_inv existing s"
  shows "audit_inv existing (run (audit_step lib) s ops)"
  using assms(2)
proof (induction ops arbitrary: s)
  case (Cons op ops)
  show ?case
    using Cons.IH [OF audit_step_inv [OF assms(1) Cons.prems]] by simp
qed simp

section \<open>The destination\<close>

unbundle bit_operations_syntax

text \<open>\<open>Path::components\<close>, \<open>parent\<close> and \<open>file_name\<close>, on Unix.\<close>

datatype path_component = RootDir | CurDir | ParentDir | NormalComponent bytes

definition is_absolute :: "path \<Rightarrow> bool" where
  "is_absolute p \<longleftrightarrow> starts_with p ''/''"

definition component_of :: "bytes \<Rightarrow> path_component list" where
  "component_of piece =
     (if piece = [] \<or> piece = ''.'' then [] else if piece = ''..'' then [ParentDir]
      else [NormalComponent piece])"

definition path_components :: "path \<Rightarrow> path_component list" where
  "path_components p =
     (if p = [] then []
      else
       (let pieces = split_on (CHR ''/'') p;
            leading = (if is_absolute p then [RootDir] else if hd pieces = ''.'' then [CurDir] else [])
        in leading @ concat (map component_of pieces)))"

definition file_name :: "path \<Rightarrow> bytes option" where
  "file_name p =
     (case rev (path_components p) of NormalComponent n # _ \<Rightarrow> Some n | _ \<Rightarrow> None)"

text \<open>\<open>PathBuf::push\<close> of a relative component.\<close>

definition path_push :: "path \<Rightarrow> bytes \<Rightarrow> path" where
  "path_push p name = (if ends_with p ''/'' then p @ name else p @ ''/'' @ name)"

datatype file_kind = KindMissing | KindInaccessible | KindSymlink | KindDirectory | KindRegular | KindOther

record file_metadata =
  md_is_file :: bool
  md_mode :: u32
  md_uid :: u32
  md_len :: u64

text \<open>An opened file: its metadata when it can be read, and the answers of the seek to its last byte
  and of reading that byte.\<close>

record opened_file =
  of_metadata :: "file_metadata option"
  of_seek_end :: bool
  of_last_byte :: "char option"
  of_contents :: bytes

text \<open>The operating system: \<open>symlink_metadata\<close> by path, and \<open>open\<close>/\<open>openat\<close> with the no-follow flags,
  on directory handles.\<close>

record file_system =
  fs_kind :: "path \<Rightarrow> file_kind"
  fs_open_base :: "bool \<Rightarrow> nat option"
  fs_openat_dir :: "nat \<Rightarrow> bytes \<Rightarrow> nat option"
  fs_openat_file :: "nat \<Rightarrow> bytes \<Rightarrow> opened_file option"

text \<open>The components of the parent of a path that has a file name.\<close>

definition parent_components :: "path \<Rightarrow> path_component list" where
  "parent_components p = butlast (path_components p)"

fun validate_components :: "file_system \<Rightarrow> path \<Rightarrow> path_component list \<Rightarrow> audit_error + unit" where
  "validate_components fs current [] = Inr ()"
| "validate_components fs current (RootDir # cs) = validate_components fs current cs"
| "validate_components fs current (c # cs) =
     (let next = (case c of ParentDir \<Rightarrow> path_push current ''..''
                  | NormalComponent n \<Rightarrow> path_push current n
                  | _ \<Rightarrow> current) in
      if fs_kind fs next \<in> {KindMissing, KindInaccessible} then Inl DestinationUnavailable
      else if fs_kind fs next \<noteq> KindDirectory then Inl UnsafeDestination
      else validate_components fs next cs)"

definition validate_parent_components :: "file_system \<Rightarrow> path \<Rightarrow> audit_error + unit" where
  "validate_parent_components fs p =
     validate_components fs (if is_absolute p then ''/'' else ''.'') (parent_components p)"

definition validate_audit_path :: "file_system \<Rightarrow> path \<Rightarrow> audit_error + unit" where
  "validate_audit_path fs p =
     and_then (fail_if (p = [] \<or> file_name p = None) UnsafeDestination) (\<lambda>_.
     and_then (validate_parent_components fs p) (\<lambda>_.
     (case fs_kind fs p of
        KindRegular \<Rightarrow> Inr ()
      | KindMissing \<Rightarrow> Inr ()
      | KindInaccessible \<Rightarrow> Inl DestinationUnavailable
      | _ \<Rightarrow> Inl UnsafeDestination)))"

fun open_directories :: "file_system \<Rightarrow> nat \<Rightarrow> path_component list \<Rightarrow> audit_error + nat" where
  "open_directories fs dir [] = Inr dir"
| "open_directories fs dir (c # cs) =
     (case c of
        RootDir \<Rightarrow> open_directories fs dir cs
      | CurDir \<Rightarrow> open_directories fs dir cs
      | _ \<Rightarrow>
          and_then (ok_or UnsafeDestination
            (fs_openat_dir fs dir (case c of NormalComponent n \<Rightarrow> n | _ \<Rightarrow> ''..''))) (\<lambda>d.
          open_directories fs d cs))"

definition open_anchored_audit_file :: "file_system \<Rightarrow> path \<Rightarrow> audit_error + opened_file" where
  "open_anchored_audit_file fs p =
     and_then (ok_or DestinationUnavailable (fs_open_base fs (is_absolute p))) (\<lambda>base.
     and_then (open_directories fs base (parent_components p)) (\<lambda>directory.
     and_then (ok_or UnsafeDestination (file_name p)) (\<lambda>name.
     ok_or DestinationUnavailable (fs_openat_file fs directory name))))"

definition validate_complete_tail :: "opened_file \<Rightarrow> u64 \<Rightarrow> audit_error + unit" where
  "validate_complete_tail f len =
     (if len = 0 then Inr ()
      else and_then (fail_if (\<not> of_seek_end f) DestinationUnavailable) (\<lambda>_.
        and_then (ok_or DestinationUnavailable (of_last_byte f)) (\<lambda>final_byte.
        fail_if (final_byte \<noteq> newline) IncompleteExistingLog)))"

definition audit_open :: "file_system \<Rightarrow> file_system \<Rightarrow> path \<Rightarrow> u32 \<Rightarrow> audit_error + audit_log" where
  "audit_open fs fs' p expected_owner =
     and_then (validate_audit_path fs p) (\<lambda>_.
     and_then (open_anchored_audit_file fs' p) (\<lambda>file.
     and_then (ok_or DestinationUnavailable (of_metadata file)) (\<lambda>md.
     and_then (fail_if (\<not> md_is_file md \<or> md_mode md AND 63 \<noteq> 0 \<or> md_uid md \<noteq> expected_owner)
       UnsafeDestination) (\<lambda>_.
     and_then (validate_complete_tail file (md_len md)) (\<lambda>_. Inr (from_writer (of_contents file)))))))"

text \<open>The paths of the directories on the way, and that validation checks each of them.\<close>

fun component_paths :: "path \<Rightarrow> path_component list \<Rightarrow> path list" where
  "component_paths current [] = []"
| "component_paths current (RootDir # cs) = component_paths current cs"
| "component_paths current (CurDir # cs) = current # component_paths current cs"
| "component_paths current (ParentDir # cs) =
     path_push current ''..'' # component_paths (path_push current ''..'') cs"
| "component_paths current (NormalComponent n # cs) =
     path_push current n # component_paths (path_push current n) cs"

lemma validate_components_ok:
  "validate_components fs current cs = Inr () \<longleftrightarrow>
     list_all (\<lambda>q. fs_kind fs q = KindDirectory) (component_paths current cs)"
  by (induction current cs rule: component_paths.induct) (auto simp: Let_def split: if_splits)

subsection \<open>Properties\<close>

text \<open>C22: The audit log is append-only and fail-stop. After any sequence of records the file holds
  what it held before, then exactly the accepted events as whole lines in their order, then at most
  a torn beginning of one line, which implies that the log has failed; and a failed log never
  writes or accepts anything again.\<close>

theorem audit_log_fail_stop:
  assumes "prints_one_line lib"
  shows "let s = run (audit_step lib) \<lparr>at_log = from_writer existing, at_accepted = []\<rparr> ops in
    (\<exists>torn line. al_written (at_log s) = existing @ concat (at_accepted s) @ torn
        \<and> prefix torn line \<and> is_line line \<and> (torn = [] \<or> al_failed (at_log s)))
    \<and> list_all is_line (at_accepted s)
    \<and> (al_failed (at_log s) \<longrightarrow>
        (\<forall>more. run (audit_step lib) s more = s)
        \<and> (\<forall>e w f. \<not> is_ok (fst (record_event lib e w f (at_log s))))
        \<and> \<not> is_ok (authority_guard (at_log s)))"
proof -
  let ?start = "\<lparr>at_log = from_writer existing, at_accepted = []\<rparr> :: audit_trace"
  let ?s = "run (audit_step lib) ?start ops"
  have "audit_inv existing ?start"
    unfolding audit_inv_def
    by (auto simp: from_writer_def is_line_def MAX_AUDIT_RECORD_BYTES_def intro: exI [of _ "[newline]"])
  from audit_run_inv [OF assms this] have inv: "audit_inv existing ?s" .
  have "run (audit_step lib) ?s more = ?s" if "al_failed (at_log ?s)" for more
    using that by (induction more) (simp_all add: failed_step del: audit_step.simps)
  with inv show ?thesis
    by (auto simp: Let_def audit_inv_def list_all_iff authority_guard_def is_ok_iff
      dest: record_failed simp flip: is_ok_iff)
qed

text \<open>C38: A destination that opens was safe: no component of its parent was a symbolic link or
  anything but a directory when it was checked, nor was the destination anything but a regular
  file or absent; the opened file is a regular file of the expected owner without group or other
  permissions, and is empty or ends with a complete line.\<close>

theorem audit_open_safe:
  assumes "audit_open fs fs' p owner = Inr log"
  shows "(case fs_kind fs p of KindRegular \<Rightarrow> True | KindMissing \<Rightarrow> True | _ \<Rightarrow> False)
    \<and> list_all (\<lambda>q. fs_kind fs q = KindDirectory)
        (component_paths (if is_absolute p then ''/'' else ''.'') (butlast (path_components p)))
    \<and> (\<exists>file md. open_anchored_audit_file fs' p = Inr file \<and> of_metadata file = Some md
        \<and> md_is_file md \<and> md_uid md = owner \<and> md_mode md AND 63 = 0
        \<and> (md_len md = 0 \<or> of_last_byte file = Some newline)
        \<and> log = \<lparr>al_written = of_contents file, al_failed = False\<rparr>)"
  using assms
  by (auto simp: audit_open_def validate_audit_path_def validate_complete_tail_def from_writer_def
    validate_parent_components_def parent_components_def validate_components_ok
    split: file_kind.splits if_splits)

definition plain_json_lib :: json_lib where
  "plain_json_lib = demo_lib RawScalar JNull ''{}''"

lemma plain_json_lib_one_line: "prints_one_line plain_json_lib"
  by (simp add: prints_one_line_def plain_json_lib_def demo_lib_def newline_def)

definition demo_event :: audit_event where
  "demo_event = authentication_succeeded (Identity ''al'') None (AuditTimestamp ''now'')"

theorem audit_log_fail_stop_witness:
  "let s = run (audit_step plain_json_lib) \<lparr>at_log = from_writer [], at_accepted = []\<rparr>
       [(demo_event, Wrote 3, True), (demo_event, Wrote 1, True)] in
     al_written (at_log s) = ''{}'' @ [newline] @ ''{''
     \<and> run (audit_step plain_json_lib) s [(demo_event, Wrote 3, True)] = s"
proof -
  let ?s = "run (audit_step plain_json_lib) \<lparr>at_log = from_writer [], at_accepted = []\<rparr>
       [(demo_event, Wrote 3, True), (demo_event, Wrote 1, True)]"
  have l: "audit_line plain_json_lib demo_event = Inr (''{}'' @ [newline])"
    by (simp add: audit_line_def plain_json_lib_def demo_lib_def MAX_AUDIT_RECORD_BYTES_def)
  have w: "al_written (at_log ?s) = ''{}'' @ [newline] @ ''{'' \<and> al_failed (at_log ?s)"
    by (simp add: record_event_def l append_line_def from_writer_def)
  with audit_log_fail_stop [OF plain_json_lib_one_line, of "[]"
      "[(demo_event, Wrote 3, True), (demo_event, Wrote 1, True)]"]
  have "run (audit_step plain_json_lib) ?s [(demo_event, Wrote 3, True)] = ?s"
    unfolding Let_def by blast
  with w show ?thesis unfolding Let_def by blast
qed

definition demo_file :: opened_file where
  "demo_file = \<lparr>of_metadata = Some \<lparr>md_is_file = True, md_mode = 384, md_uid = 7, md_len = 1\<rparr>,
     of_seek_end = True, of_last_byte = Some newline, of_contents = [newline]\<rparr>"

definition demo_fs :: file_system where
  "demo_fs = \<lparr>fs_kind = (\<lambda>p. if p = ''/v'' then KindDirectory else KindRegular),
     fs_open_base = (\<lambda>_. Some 0), fs_openat_dir = (\<lambda>d n. Some (Suc d)),
     fs_openat_file = (\<lambda>d n. if d = 1 \<and> n = ''a'' then Some demo_file else None)\<rparr>"

theorem audit_open_safe_witness:
  "audit_open demo_fs demo_fs ''/v/a'' 7 = Inr (from_writer [newline])
    \<and> md_mode \<lparr>md_is_file = True, md_mode = 384, md_uid = 7, md_len = 1\<rparr> AND 63 = 0"
proof -
  have o: "audit_open demo_fs demo_fs ''/v/a'' 7 = Inr (from_writer [newline])"
    by (simp add: audit_open_def validate_audit_path_def validate_parent_components_def file_name_def
      parent_components_def path_components_def is_absolute_def starts_with_def component_of_def
      demo_fs_def path_push_def ends_with_def open_anchored_audit_file_def demo_file_def
      validate_complete_tail_def)
  from audit_open_safe [OF o] have "\<exists>file md. of_metadata file = Some md \<and> md_mode md AND 63 = 0
      \<and> open_anchored_audit_file demo_fs ''/v/a'' = Inr file" by blast
  moreover have "open_anchored_audit_file demo_fs ''/v/a'' = Inr demo_file"
    by (simp add: file_name_def parent_components_def path_components_def is_absolute_def
      starts_with_def component_of_def demo_fs_def open_anchored_audit_file_def)
  ultimately show ?thesis
    using o by (auto simp: demo_file_def)
qed

end
