(* ===== verification/Pty_Backend.thy ===== *)
theory Pty_Backend
  imports Protocol Config
begin

text \<open>
  \<open>pty_backend.rs\<close>: spawning a terminal child and the cleanup of its process group. The kernel's
  answers (\<open>waitid\<close>, \<open>wait\<close>, \<open>killpg\<close>) are arguments; the deadline of a loop is where the list of
  the answers it can still obtain ends. A child carries the trace of its group operations, as the
  source's own test recorder does. Lemmas: over any sequence of cleanup calls the group receives
  SIGKILL at most once, and no signal at all once its leader was reaped; a cleanup that succeeds
  killed the group, reaped the leader and saw the group gone.
\<close>

datatype backend_error = BackendFailed

datatype cleanup_state = CleanupRunning | ExitObservedUnreaped | FinalSignalAttempted | Reaped

datatype group_operation = OpObserve | OpHup | OpKill | OpReap | OpProbe

text \<open>\<open>ExitStatus\<close> of the standard library: the code or the terminating signal of the child.\<close>

record process_status =
  ps_code :: "int option"
  ps_signal :: "int option"

record pty_child =
  pc_process_group :: int
  pc_exit_status :: "process_status option"
  pc_cleanup_state :: cleanup_state
  pc_trace :: "group_operation list"

subsection \<open>Spawning\<close>

record child_command =
  cc_executable :: path
  cc_args :: "string list"
  cc_env :: "(string \<times> string) list option"
  cc_stderr_piped :: bool
  cc_kill_on_drop :: bool

text \<open>What the operating system answers: opening the terminal, sizing it, and the process of a
  command with the identifier it reports.\<close>

record spawn_os =
  os_open_pty :: bool
  os_resize :: "u16 \<Rightarrow> u16 \<Rightarrow> bool"
  os_spawn :: "child_command \<Rightarrow> int option option"

definition new_child :: "int \<Rightarrow> pty_child" where
  "new_child pid = \<lparr>pc_process_group = pid, pc_exit_status = None, pc_cleanup_state = CleanupRunning,
     pc_trace = []\<rparr>"

definition pty_command :: "pty_target \<Rightarrow> child_command" where
  "pty_command t = \<lparr>cc_executable = pt_executable t, cc_args = pt_argv t, cc_env = None,
     cc_stderr_piped = False, cc_kill_on_drop = True\<rparr>"

text \<open>The SSH client runs with exactly the environment of its specification.\<close>

definition ssh_command :: "path \<Rightarrow> string list \<Rightarrow> (string \<times> string) list \<Rightarrow> child_command" where
  "ssh_command executable argv environment =
     \<lparr>cc_executable = executable, cc_args = argv, cc_env = Some environment, cc_stderr_piped = True,
      cc_kill_on_drop = True\<rparr>"

definition open_terminal :: "spawn_os \<Rightarrow> resize \<Rightarrow> backend_error + unit" where
  "open_terminal os dims =
     and_then (fail_if (\<not> os_open_pty os) BackendFailed) (\<lambda>_.
     fail_if (\<not> os_resize os (rows dims) (cols dims)) BackendFailed)"

definition spawn :: "spawn_os \<Rightarrow> pty_target \<Rightarrow> resize \<Rightarrow> backend_error + pty_child" where
  "spawn os t dims =
     and_then (open_terminal os dims) (\<lambda>_.
     and_then (ok_or BackendFailed (os_spawn os (pty_command t))) (\<lambda>spawned.
     and_then (ok_or BackendFailed spawned) (\<lambda>pid. Inr (new_child pid))))"

text \<open>\<open>spawn_ssh\<close> expects that a spawned child has an identifier; None is its panic.\<close>

definition spawn_ssh ::
  "spawn_os \<Rightarrow> path \<Rightarrow> string list \<Rightarrow> (string \<times> string) list \<Rightarrow> resize \<Rightarrow> (backend_error + pty_child) option" where
  "spawn_ssh os executable argv environment dims =
     (case and_then (open_terminal os dims) (\<lambda>_.
           ok_or BackendFailed (os_spawn os (ssh_command executable argv environment))) of
        Inl e \<Rightarrow> Some (Inl e)
      | Inr None \<Rightarrow> None
      | Inr (Some pid) \<Rightarrow> Some (Inr (new_child pid)))"

subsection \<open>Cleanup\<close>

datatype waitid_answer = ChildExited | ChildRunning | WaitidFailed
datatype wait_answer = WaitStatus process_status | WaitFailed | WaitTimedOut
datatype killpg_answer = GroupSignalled | GroupMissing | GroupForbidden | KillpgFailed

definition signal_group :: "killpg_answer \<Rightarrow> backend_error + unit" where
  "signal_group a =
     (case a of GroupSignalled \<Rightarrow> Inr () | GroupMissing \<Rightarrow> Inr () | _ \<Rightarrow> Inl BackendFailed)"

definition note_op :: "group_operation \<Rightarrow> pty_child \<Rightarrow> pty_child" where
  "note_op op c = c\<lparr>pc_trace := pc_trace c @ [op]\<rparr>"

definition poll_exit_observed :: "waitid_answer \<Rightarrow> pty_child \<Rightarrow> (backend_error + bool) \<times> pty_child" where
  "poll_exit_observed a c =
     (if pc_cleanup_state c \<noteq> CleanupRunning then (Inr True, c)
      else if pc_process_group c = 0 then (Inl BackendFailed, c)
      else (case a of
          WaitidFailed \<Rightarrow> (Inl BackendFailed, c)
        | ChildRunning \<Rightarrow> (Inr False, c)
        | ChildExited \<Rightarrow> (Inr True, note_op OpObserve (c\<lparr>pc_cleanup_state := ExitObservedUnreaped\<rparr>))))"

text \<open>\<open>wait_for_exit_observed\<close> polls until the exit is observed; the answers still to come are a
  list, and None is a wait that has not ended when they are used up.\<close>

fun wait_for_exit_observed ::
  "waitid_answer list \<Rightarrow> pty_child \<Rightarrow> (backend_error + unit) option \<times> pty_child" where
  "wait_for_exit_observed [] c =
     (if pc_cleanup_state c \<noteq> CleanupRunning then (Some (Inr ()), c) else (None, c))"
| "wait_for_exit_observed (a # as) c =
     (case poll_exit_observed a c of
        (Inl e, c') \<Rightarrow> (Some (Inl e), c')
      | (Inr observed, c') \<Rightarrow> if observed then (Some (Inr ()), c') else wait_for_exit_observed as c')"

text \<open>The loop up to the grace deadline: one answer per poll made before it.\<close>

fun grace_loop :: "waitid_answer list \<Rightarrow> pty_child \<Rightarrow> (backend_error + unit) \<times> pty_child" where
  "grace_loop [] c = (Inr (), c)"
| "grace_loop (a # as) c =
     (if pc_cleanup_state c \<noteq> CleanupRunning then (Inr (), c)
      else (case poll_exit_observed a c of
          (Inl e, c') \<Rightarrow> (Inl e, c')
        | (Inr _, c') \<Rightarrow> grace_loop as c'))"

definition child_wait :: "wait_answer \<Rightarrow> pty_child \<Rightarrow> (backend_error + process_status) \<times> pty_child" where
  "child_wait a c =
     (case pc_exit_status c of
        Some status \<Rightarrow> (Inr status, c)
      | None \<Rightarrow>
          (case a of
             WaitStatus status \<Rightarrow>
               (Inr status, note_op OpReap (c\<lparr>pc_exit_status := Some status, pc_cleanup_state := Reaped\<rparr>))
           | _ \<Rightarrow> (Inl BackendFailed, c)))"

definition process_group_absent :: "killpg_answer \<Rightarrow> backend_error + bool" where
  "process_group_absent a =
     (case a of
        GroupMissing \<Rightarrow> Inr True
      | GroupSignalled \<Rightarrow> Inr False
      | GroupForbidden \<Rightarrow> Inr False
      | KillpgFailed \<Rightarrow> Inl BackendFailed)"

text \<open>At least one probe; the deadline is the end of the list of the further ones.\<close>

fun wait_for_group_absence ::
  "killpg_answer \<Rightarrow> killpg_answer list \<Rightarrow> pty_child \<Rightarrow> (backend_error + unit) \<times> pty_child" where
  "wait_for_group_absence a as c =
     (case process_group_absent a of
        Inl e \<Rightarrow> (Inl e, note_op OpProbe c)
      | Inr True \<Rightarrow> (Inr (), note_op OpProbe c)
      | Inr False \<Rightarrow>
          (case as of
             [] \<Rightarrow> (Inl BackendFailed, note_op OpProbe c)
           | b # bs \<Rightarrow> wait_for_group_absence b bs (note_op OpProbe c)))"

definition signal_phase :: "waitid_answer list \<Rightarrow> pty_child \<Rightarrow> (backend_error + unit) \<times> pty_child" where
  "signal_phase polls c =
     (if pc_cleanup_state c \<in> {CleanupRunning, ExitObservedUnreaped} then
        (case grace_loop polls (note_op OpHup c) of
           (Inl e, c') \<Rightarrow> (Inl e, c')
         | (Inr _, c') \<Rightarrow> (Inr (), note_op OpKill (c'\<lparr>pc_cleanup_state := FinalSignalAttempted\<rparr>)))
      else (Inr (), c))"

definition terminate ::
  "waitid_answer list \<Rightarrow> wait_answer \<Rightarrow> killpg_answer \<Rightarrow> killpg_answer list \<Rightarrow> pty_child \<Rightarrow>
   (backend_error + process_status) \<times> pty_child" where
  "terminate polls w probe probes c =
     (case signal_phase polls c of
        (Inl e, c1) \<Rightarrow> (Inl e, c1)
      | (Inr _, c1) \<Rightarrow>
          (case child_wait w c1 of
             (Inl e, c2) \<Rightarrow> (Inl e, c2)
           | (Inr status, c2) \<Rightarrow>
               (case wait_for_group_absence probe probes c2 of
                  (Inl e, c3) \<Rightarrow> (Inl e, c3)
                | (Inr _, c3) \<Rightarrow> (Inr status, c3))))"

text \<open>The calls the supervisor makes on a child.\<close>

datatype child_call =
    CallObserve "waitid_answer list"
  | CallTerminate "waitid_answer list" wait_answer killpg_answer "killpg_answer list"

fun child_step :: "pty_child \<Rightarrow> child_call \<Rightarrow> pty_child" where
  "child_step c (CallObserve as) = snd (wait_for_exit_observed as c)"
| "child_step c (CallTerminate polls w probe probes) = snd (terminate polls w probe probes c)"

subsection \<open>The invariant\<close>

definition signals :: "group_operation list \<Rightarrow> group_operation list" where
  "signals ops = filter (\<lambda>op. op \<in> {OpHup, OpKill}) ops"

text \<open>What the trace of a child looks like in each cleanup state.\<close>

definition child_inv :: "pty_child \<Rightarrow> bool" where
  "child_inv c \<longleftrightarrow>
     (case pc_cleanup_state c of
        CleanupRunning \<Rightarrow> pc_exit_status c = None \<and> set (pc_trace c) \<subseteq> {OpHup}
      | ExitObservedUnreaped \<Rightarrow> pc_exit_status c = None \<and> set (pc_trace c) \<subseteq> {OpHup, OpObserve}
      | FinalSignalAttempted \<Rightarrow> pc_exit_status c = None
          \<and> (\<exists>pre. pc_trace c = pre @ [OpKill] \<and> set pre \<subseteq> {OpHup, OpObserve})
      | Reaped \<Rightarrow> pc_exit_status c \<noteq> None
          \<and> (\<exists>pre post. pc_trace c = pre @ [OpKill, OpReap] @ post \<and> set pre \<subseteq> {OpHup, OpObserve}
              \<and> set post \<subseteq> {OpProbe}))"

lemma poll_inv:
  "child_inv c \<Longrightarrow> child_inv (snd (poll_exit_observed a c))
     \<and> pc_cleanup_state (snd (poll_exit_observed a c)) \<in> {pc_cleanup_state c, ExitObservedUnreaped}"
  by (auto simp: poll_exit_observed_def child_inv_def note_op_def
    split: waitid_answer.splits cleanup_state.splits)

lemma poll_state:
  "pc_cleanup_state c \<in> {CleanupRunning, ExitObservedUnreaped} \<Longrightarrow>
     pc_cleanup_state (snd (poll_exit_observed a c)) \<in> {CleanupRunning, ExitObservedUnreaped}"
  by (auto simp: poll_exit_observed_def note_op_def split: waitid_answer.splits)

lemma observe_inv: "child_inv c \<Longrightarrow> child_inv (snd (wait_for_exit_observed as c))"
proof (induction as c rule: wait_for_exit_observed.induct)
  case (2 a as c)
  obtain r c' where p: "poll_exit_observed a c = (r, c')" by fastforce
  with poll_inv [OF 2(2), of a] have "child_inv c'" by simp
  with p 2(1) show ?case by (cases r) auto
qed simp

lemma grace_inv:
  "child_inv c \<Longrightarrow> pc_cleanup_state c \<in> {CleanupRunning, ExitObservedUnreaped} \<Longrightarrow>
     child_inv (snd (grace_loop as c))
     \<and> pc_cleanup_state (snd (grace_loop as c)) \<in> {CleanupRunning, ExitObservedUnreaped}"
proof (induction as c rule: grace_loop.induct)
  case (2 a as c)
  obtain r c' where p: "poll_exit_observed a c = (r, c')" by fastforce
  with poll_inv [OF 2(2), of a] poll_state [OF 2(3), of a]
  have "child_inv c'" "pc_cleanup_state c' \<in> {CleanupRunning, ExitObservedUnreaped}" by simp_all
  with p 2 show ?case by (cases r) auto
qed simp

lemma signal_phase_inv:
  assumes "child_inv c"
  shows "child_inv (snd (signal_phase polls c))
    \<and> (fst (signal_phase polls c) = Inr () \<longrightarrow>
        pc_cleanup_state (snd (signal_phase polls c)) \<in> {FinalSignalAttempted, Reaped})"
proof (cases "pc_cleanup_state c \<in> {CleanupRunning, ExitObservedUnreaped}")
  case True
  with assms have "child_inv (note_op OpHup c)"
    "pc_cleanup_state (note_op OpHup c) \<in> {CleanupRunning, ExitObservedUnreaped}"
    by (auto simp: child_inv_def note_op_def)
  from grace_inv [OF this, of polls] obtain r c' where
    g: "grace_loop polls (note_op OpHup c) = (r, c')" and c': "child_inv c'"
      "pc_cleanup_state c' \<in> {CleanupRunning, ExitObservedUnreaped}"
    by (cases "grace_loop polls (note_op OpHup c)") auto
  from c' have "child_inv (note_op OpKill (c'\<lparr>pc_cleanup_state := FinalSignalAttempted\<rparr>))"
    by (auto simp: child_inv_def note_op_def)
  with True g c' show ?thesis
    by (auto simp: signal_phase_def note_op_def split: sum.splits)
next
  case False
  with assms show ?thesis
    by (cases "pc_cleanup_state c") (auto simp: signal_phase_def)
qed

lemma child_inv_reaped:
  assumes "pc_cleanup_state c = Reaped"
  shows "child_inv c \<longleftrightarrow> pc_exit_status c \<noteq> None
    \<and> (\<exists>pre post. pc_trace c = pre @ [OpKill, OpReap] @ post \<and> set pre \<subseteq> {OpHup, OpObserve}
        \<and> set post \<subseteq> {OpProbe})"
  using assms by (simp add: child_inv_def)

lemma child_inv_reapedI:
  assumes "pc_cleanup_state c = Reaped" "pc_exit_status c \<noteq> None"
    "pc_trace c = pre @ [OpKill, OpReap] @ post" "set pre \<subseteq> {OpHup, OpObserve}" "set post \<subseteq> {OpProbe}"
  shows "child_inv c"
  unfolding child_inv_reaped [OF assms(1)] using assms(2-5) by blast

lemma reap_inv:
  assumes "child_inv c" "pc_cleanup_state c = FinalSignalAttempted"
  shows "child_inv (note_op OpReap (c\<lparr>pc_exit_status := Some status, pc_cleanup_state := Reaped\<rparr>))"
proof -
  obtain pre where "pc_trace c = pre @ [OpKill]" "set pre \<subseteq> {OpHup, OpObserve}"
    using assms by (auto simp: child_inv_def)
  then show ?thesis
    by (intro child_inv_reapedI [where pre = pre and post = "[]"]) (simp_all add: note_op_def)
qed

lemma probe_inv:
  assumes "child_inv c" "pc_cleanup_state c = Reaped"
  shows "child_inv (note_op OpProbe c)"
proof -
  obtain pre post where "pc_trace c = pre @ [OpKill, OpReap] @ post" "set pre \<subseteq> {OpHup, OpObserve}"
    "set post \<subseteq> {OpProbe}" "pc_exit_status c \<noteq> None"
    using assms by (auto simp: child_inv_reaped)
  with assms(2) show ?thesis
    by (intro child_inv_reapedI [where pre = pre and post = "post @ [OpProbe]"]) (auto simp: note_op_def)
qed

lemma child_wait_inv:
  assumes "child_inv c" "pc_cleanup_state c \<in> {FinalSignalAttempted, Reaped}"
  shows "child_inv (snd (child_wait w c)) \<and> (is_ok (fst (child_wait w c)) \<longrightarrow>
    pc_cleanup_state (snd (child_wait w c)) = Reaped
    \<and> fst (child_wait w c) = Inr (the (pc_exit_status (snd (child_wait w c)))))"
proof (cases "pc_exit_status c")
  case None
  with assms have "pc_cleanup_state c = FinalSignalAttempted"
    by (auto simp: child_inv_def)
  with reap_inv [OF assms(1)] assms(1) None show ?thesis
    by (auto simp: child_wait_def note_op_def split: wait_answer.splits)
next
  case (Some status)
  with assms have "pc_cleanup_state c = Reaped"
    by (auto simp: child_inv_def)
  with assms Some show ?thesis by (simp add: child_wait_def)
qed

lemma absence_inv:
  "child_inv c \<Longrightarrow> pc_cleanup_state c = Reaped \<Longrightarrow>
     child_inv (snd (wait_for_group_absence a as c))
     \<and> pc_cleanup_state (snd (wait_for_group_absence a as c)) = Reaped
     \<and> pc_exit_status (snd (wait_for_group_absence a as c)) = pc_exit_status c
     \<and> (fst (wait_for_group_absence a as c) = Inr () \<longrightarrow> GroupMissing \<in> set (a # as))"
proof (induction a as c rule: wait_for_group_absence.induct)
  case (1 a as c)
  have n: "child_inv (note_op OpProbe c)" "pc_cleanup_state (note_op OpProbe c) = Reaped"
    "pc_exit_status (note_op OpProbe c) = pc_exit_status c"
    using probe_inv [OF 1(2,3)] 1(3) by (simp_all add: note_op_def)
  show ?case
  proof (cases "process_group_absent a")
    case (Inl e)
    with n show ?thesis by simp
  next
    case (Inr absent)
    show ?thesis
    proof (cases absent)
      case True
      with n Inr show ?thesis
        by (auto simp: process_group_absent_def split: killpg_answer.splits)
    next
      case False
      with n Inr 1(1) [OF Inr] show ?thesis by (cases as) auto
    qed
  qed
qed

lemma terminate_inv:
  assumes "child_inv c"
  shows "child_inv (snd (terminate polls w probe probes c))
    \<and> (\<forall>status. fst (terminate polls w probe probes c) = Inr status \<longrightarrow>
        pc_cleanup_state (snd (terminate polls w probe probes c)) = Reaped
        \<and> pc_exit_status (snd (terminate polls w probe probes c)) = Some status
        \<and> GroupMissing \<in> set (probe # probes))"
proof -
  obtain r1 c1 where s: "signal_phase polls c = (r1, c1)" by fastforce
  note i1 = signal_phase_inv [OF assms, of polls, unfolded s]
  show ?thesis
  proof (cases r1)
    case (Inl e)
    with s i1 show ?thesis by (simp add: terminate_def)
  next
    case (Inr u)
    obtain r2 c2 where w: "child_wait w c1 = (r2, c2)" by fastforce
    have i2: "child_inv c2 \<and> (is_ok r2 \<longrightarrow> pc_cleanup_state c2 = Reaped \<and> r2 = Inr (the (pc_exit_status c2)))"
      using child_wait_inv [of c1 w] i1 Inr w by simp
    show ?thesis
    proof (cases r2)
      case (Inl e)
      with s w i2 Inr show ?thesis by (simp add: terminate_def)
    next
      case st: (Inr status)
      with i2 have c2: "child_inv c2" "pc_cleanup_state c2 = Reaped" "status = the (pc_exit_status c2)"
        by simp_all
      then have "pc_exit_status c2 = Some status"
        by (auto simp: child_inv_reaped)
      with absence_inv [OF c2(1,2), of probe probes] s w Inr st show ?thesis
        by (cases "wait_for_group_absence probe probes c2")
          (auto simp: terminate_def split: sum.splits)
    qed
  qed
qed

lemma child_step_inv: "child_inv c \<Longrightarrow> child_inv (child_step c call)"
  using observe_inv terminate_inv by (cases call) auto

interpretation child: safety_system child_step child_inv
  by unfold_locales (rule child_step_inv)

lemma new_child_inv: "child_inv (new_child pid)"
  by (simp add: child_inv_def new_child_def)

lemma child_run_inv: "child_inv (run child_step (new_child pid) calls)"
  by (rule child.run_inv [OF new_child_inv])

lemma count_list_outside: "x \<notin> set xs \<Longrightarrow> count_list xs x = 0"
  by (induction xs) auto

text \<open>The reaped status is kept: the exit status is written once.\<close>

lemma poll_status: "pc_exit_status (snd (poll_exit_observed a c)) = pc_exit_status c"
  by (simp add: poll_exit_observed_def note_op_def split: waitid_answer.splits)

lemma observe_status: "pc_exit_status (snd (wait_for_exit_observed as c)) = pc_exit_status c"
proof (induction as c rule: wait_for_exit_observed.induct)
  case (2 a as c)
  then show ?case
    using poll_status [of a c] by (cases "poll_exit_observed a c") (auto split: sum.splits)
qed simp

lemma grace_status: "pc_exit_status (snd (grace_loop as c)) = pc_exit_status c"
proof (induction as c rule: grace_loop.induct)
  case (2 a as c)
  then show ?case
    using poll_status [of a c] by (cases "poll_exit_observed a c") (auto split: sum.splits)
qed simp

lemma absence_status: "pc_exit_status (snd (wait_for_group_absence a as c)) = pc_exit_status c"
proof (induction a as c rule: wait_for_group_absence.induct)
  case (1 a as c)
  then show ?case
    by (subst wait_for_group_absence.simps)
      (auto simp: note_op_def simp del: wait_for_group_absence.simps split: sum.splits bool.splits list.splits)
qed

lemma terminate_status:
  "pc_exit_status c = Some status \<Longrightarrow> pc_exit_status (snd (terminate polls w probe probes c)) = Some status"
proof -
  assume c: "pc_exit_status c = Some status"
  have s: "pc_exit_status (snd (signal_phase polls c)) = Some status"
    using c grace_status [of polls "note_op OpHup c"]
    by (cases "grace_loop polls (note_op OpHup c)") (auto simp: signal_phase_def note_op_def split: sum.splits)
  obtain r1 c1 where e1: "signal_phase polls c = (r1, c1)" by fastforce
  with s have c1: "pc_exit_status c1 = Some status" by simp
  then have "child_wait w c1 = (Inr status, c1)" by (simp add: child_wait_def)
  with e1 c1 absence_status [of probe probes c1] show ?thesis
    by (cases "wait_for_group_absence probe probes c1") (auto simp: terminate_def split: sum.splits)
qed

interpretation child_status: sticky_cell child_step pc_exit_status
proof
  fix c :: pty_child and call status assume "pc_exit_status c = Some status"
  then show "pc_exit_status (child_step c call) = Some status"
    using terminate_status by (cases call) (simp_all add: observe_status)
qed

subsection \<open>Properties\<close>

text \<open>C20: However often and with whatever outcomes cleanup is attempted on a spawned child, its
  process group is sent SIGKILL at most once, and after its leader was reaped, when the group
  number may be reused, no signal at all; the reaped status is never replaced.\<close>

theorem group_signals_safe:
  "let c = run child_step (new_child pid) calls in
     count_list (pc_trace c) OpKill \<le> 1
     \<and> signals (dropWhile (\<lambda>op. op \<noteq> OpReap) (pc_trace c)) = []
     \<and> (pc_exit_status c = None \<or> pc_exit_status (run child_step c later) = pc_exit_status c)"
proof -
  let ?c = "run child_step (new_child pid) calls"
  note inv = child_run_inv [of pid calls]
  have kill: "count_list (pc_trace ?c) OpKill \<le> 1 \<and> signals (dropWhile (\<lambda>op. op \<noteq> OpReap) (pc_trace ?c)) = []"
  proof (cases "pc_cleanup_state ?c")
    case FinalSignalAttempted
    with inv obtain pre where p: "pc_trace ?c = pre @ [OpKill]" "set pre \<subseteq> {OpHup, OpObserve}"
      by (auto simp: child_inv_def)
    then have "OpKill \<notin> set pre" "\<forall>x \<in> set pre. x \<noteq> OpReap" by auto
    then show ?thesis by (simp add: p(1) count_list_outside dropWhile_append3 signals_def)
  next
    case Reaped
    with inv obtain pre post where p: "pc_trace ?c = pre @ [OpKill, OpReap] @ post"
      "set pre \<subseteq> {OpHup, OpObserve}" "set post \<subseteq> {OpProbe}"
      by (auto simp: child_inv_reaped)
    then have "OpKill \<notin> set pre" "OpKill \<notin> set post" "\<forall>x \<in> set pre. x \<noteq> OpReap"
      "filter (\<lambda>op. op = OpHup \<or> op = OpKill) post = []"
      by (auto simp: filter_empty_conv)
    then show ?thesis by (simp add: p(1) count_list_outside dropWhile_append3 signals_def)
  next
    case CleanupRunning
    with inv have "set (pc_trace ?c) \<subseteq> {OpHup}" by (simp add: child_inv_def)
    then have "OpKill \<notin> set (pc_trace ?c)" "dropWhile (\<lambda>op. op \<noteq> OpReap) (pc_trace ?c) = []" by auto
    then show ?thesis by (simp add: count_list_outside signals_def del: dropWhile_eq_Nil_conv)
  next
    case ExitObservedUnreaped
    with inv have "set (pc_trace ?c) \<subseteq> {OpHup, OpObserve}" by (simp add: child_inv_def)
    then have "OpKill \<notin> set (pc_trace ?c)" "dropWhile (\<lambda>op. op \<noteq> OpReap) (pc_trace ?c) = []" by auto
    then show ?thesis by (simp add: count_list_outside signals_def del: dropWhile_eq_Nil_conv)
  qed
  have "pc_exit_status ?c = None \<or> pc_exit_status (run child_step ?c later) = pc_exit_status ?c"
    using child_status.run_sticky by (cases "pc_exit_status ?c") auto
  with kill show ?thesis unfolding Let_def by blast
qed

text \<open>A cleanup that succeeds is complete: the group was sent SIGKILL before its leader was
  reaped, the status returned is the reaped one, and the group was then seen to be gone.\<close>

theorem terminate_complete:
  assumes "terminate polls w probe probes (run child_step (new_child pid) calls) = (Inr status, c)"
  shows "pc_cleanup_state c = Reaped \<and> pc_exit_status c = Some status
    \<and> (\<exists>pre post. pc_trace c = pre @ [OpKill, OpReap] @ post
        \<and> set pre \<subseteq> {OpHup, OpObserve} \<and> set post \<subseteq> {OpProbe})
    \<and> GroupMissing \<in> set (probe # probes)"
proof -
  from terminate_inv [OF child_run_inv, of polls w probe probes pid calls] assms
  have "child_inv c" "pc_cleanup_state c = Reaped" "pc_exit_status c = Some status"
    "GroupMissing \<in> set (probe # probes)"
    by simp_all
  then show ?thesis by (simp add: child_inv_reaped)
qed

theorem terminate_complete_witness:
  "let c = snd (terminate [ChildRunning, ChildExited] (WaitStatus \<lparr>ps_code = Some 0, ps_signal = None\<rparr>)
       GroupForbidden [GroupMissing] (run child_step (new_child 7) [])) in
     pc_trace c = [OpHup, OpObserve, OpKill, OpReap, OpProbe, OpProbe] \<and> pc_cleanup_state c = Reaped"
proof -
  have e: "terminate [ChildRunning, ChildExited] (WaitStatus \<lparr>ps_code = Some 0, ps_signal = None\<rparr>)
       GroupForbidden [GroupMissing] (run child_step (new_child 7) []) =
     (Inr \<lparr>ps_code = Some 0, ps_signal = None\<rparr>,
      \<lparr>pc_process_group = 7, pc_exit_status = Some \<lparr>ps_code = Some 0, ps_signal = None\<rparr>,
       pc_cleanup_state = Reaped,
       pc_trace = [OpHup, OpObserve, OpKill, OpReap, OpProbe, OpProbe]\<rparr>)"
    by (simp add: terminate_def signal_phase_def new_child_def note_op_def poll_exit_observed_def
      child_wait_def process_group_absent_def)
  from terminate_complete [OF e] e show ?thesis by (simp add: Let_def)
qed

text \<open>SIGHUP, in contrast, is repeated while observing the leader fails: such a cleanup returns
  before the kill, and the next one starts over.\<close>

theorem hangup_repeats:
  "pc_trace (run child_step (new_child 7)
     [CallTerminate [WaitidFailed] w GroupMissing [], CallTerminate [WaitidFailed] w GroupMissing []]) =
   [OpHup, OpHup]"
  by (simp add: terminate_def signal_phase_def new_child_def note_op_def poll_exit_observed_def)

end
