(* ===== verification/Session.thy ===== *)
theory Session
  imports Ssh
begin

text \<open>
  \<open>session.rs\<close>, the life of one session: its state machine, the close request cell, the workers of
  the terminal, the supervisor and the end of a session, and the calls on its handle. A task that
  waits in \<open>select!\<close> is a function of the list of its polls: what each branch answers when the
  task is woken, with the reading of the clock; a list that is used up is a task that still waits.
  Lemmas: the supervisor's loop ends by its deadlines whatever else happens, the reasons it reports
  are sound, and a session ends once, after its process group is proven gone, with its one audit
  record, before its place is given back.
\<close>

section \<open>Values\<close>

definition INPUT_CHANNEL_CAPACITY :: nat where "INPUT_CHANNEL_CAPACITY = 8"
definition LIFECYCLE_CHANNEL_CAPACITY :: nat where "LIFECYCLE_CHANNEL_CAPACITY = 3"

datatype session_state = SessionCreated | SessionRunning | SessionClosed

datatype timeout_kind = IdleTimeout | AbsoluteTimeout

datatype session_close_reason =
    CloseChildExited | CloseExplicit | CloseTransportDropped | CloseProtocolViolation
  | ClosePolicyViolation | CloseInternalFailure | CloseHandleDropped | CloseSupervisorUnwind
  | CloseManagerShutdown | CloseTimeout timeout_kind | CloseBackendFailure

datatype child_outcome = ChildCode u8 | ChildSignal u8 | ChildUnavailable

definition u8_of_i32 :: "int \<Rightarrow> u8 option" where
  "u8_of_i32 i = (if 0 \<le> i \<and> i < 256 then Some (word_of_int i) else None)"

definition from_status :: "process_status \<Rightarrow> child_outcome" where
  "from_status s =
     (case Option.bind (ps_code s) u8_of_i32 of
        Some code \<Rightarrow> ChildCode code
      | None \<Rightarrow>
          (case Option.bind (ps_signal s) u8_of_i32 of
             Some signal \<Rightarrow> ChildSignal signal
           | None \<Rightarrow> ChildUnavailable))"

fun as_protocol :: "child_outcome \<Rightarrow> exit_status" where
  "as_protocol (ChildCode code) = ExitCode code"
| "as_protocol (ChildSignal signal) =
     (if 1 \<le> signal \<and> signal \<le> 127 then ExitSignal signal else ExitUnavailable)"
| "as_protocol ChildUnavailable = ExitUnavailable"

datatype lifecycle_transition =
    TransCreated | TransRunning | TransClosed session_close_reason "child_outcome option"

record lifecycle_event =
  le_identity :: identity
  le_target :: string
  le_at :: system_time
  le_transition :: lifecycle_transition

definition lifecycle_event :: "identity \<Rightarrow> string \<Rightarrow> system_time \<Rightarrow> lifecycle_transition \<Rightarrow> lifecycle_event" where
  "lifecycle_event who tname at transition =
     \<lparr>le_identity = who, le_target = tname, le_at = at, le_transition = transition\<rparr>"

record session_closed =
  sc_state :: session_state
  sc_reason :: session_close_reason
  sc_outcome :: "child_outcome option"

section \<open>The state machine\<close>

record state_machine =
  sm_state :: session_state
  sm_terminal :: "session_closed option"

definition state_machine_new :: state_machine where
  "state_machine_new = \<lparr>sm_state = SessionCreated, sm_terminal = None\<rparr>"

definition state_machine_start :: "state_machine \<Rightarrow> (session_error + session_state) \<times> state_machine" where
  "state_machine_start m =
     (if sm_state m \<noteq> SessionCreated then (Inl InvalidTransition, m)
      else (Inr SessionRunning, m\<lparr>sm_state := SessionRunning\<rparr>))"

definition state_machine_close ::
  "session_close_reason \<Rightarrow> child_outcome option \<Rightarrow> state_machine \<Rightarrow>
   (session_error + session_closed) \<times> state_machine" where
  "state_machine_close reason outcome m =
     (case sm_terminal m of
        Some terminal \<Rightarrow> (Inr terminal, m)
      | None \<Rightarrow>
          if sm_state m \<noteq> SessionRunning then (Inl InvalidTransition, m)
          else (let terminal = \<lparr>sc_state = SessionClosed, sc_reason = reason, sc_outcome = outcome\<rparr> in
            (Inr terminal, m\<lparr>sm_state := SessionClosed, sm_terminal := Some terminal\<rparr>)))"

datatype machine_call = MachineStart | MachineClose session_close_reason "child_outcome option"

fun machine_step :: "state_machine \<Rightarrow> machine_call \<Rightarrow> state_machine" where
  "machine_step m MachineStart = snd (state_machine_start m)"
| "machine_step m (MachineClose reason outcome) = snd (state_machine_close reason outcome m)"

definition machine_inv :: "state_machine \<Rightarrow> bool" where
  "machine_inv m \<longleftrightarrow> (sm_terminal m \<noteq> None \<longleftrightarrow> sm_state m = SessionClosed)
     \<and> (\<forall>t. sm_terminal m = Some t \<longrightarrow> sc_state t = SessionClosed)"

interpretation machine: safety_system machine_step machine_inv
proof
  fix m call assume "machine_inv m"
  then show "machine_inv (machine_step m call)"
    by (cases call) (auto simp: machine_inv_def state_machine_start_def state_machine_close_def Let_def
      split: option.splits)
qed

interpretation machine_terminal: sticky_cell machine_step sm_terminal
proof
  fix m :: state_machine and call t assume "sm_terminal m = Some t"
  then show "sm_terminal (machine_step m call) = Some t"
    by (cases call) (auto simp: state_machine_start_def state_machine_close_def)
qed

section \<open>Close requests\<close>

text \<open>\<open>request_close\<close> on the watched cell: only the first reason is kept.\<close>

type_synonym close_cell = "session_close_reason option"

definition request_close :: "close_cell \<Rightarrow> session_close_reason \<Rightarrow> close_cell" where
  "request_close current reason = (if current \<noteq> None then current else Some reason)"

interpretation close: sticky_cell request_close "\<lambda>c. c"
  by unfold_locales (simp add: request_close_def)

text \<open>What \<open>close_rx.changed()\<close> answers.\<close>

datatype close_change = CloseUnchanged | CloseSendersGone | CloseSeen close_cell

fun requested_reason :: "close_change \<Rightarrow> session_close_reason option" where
  "requested_reason CloseUnchanged = None"
| "requested_reason CloseSendersGone = Some CloseHandleDropped"
| "requested_reason (CloseSeen c) = Some (case c of None \<Rightarrow> CloseHandleDropped | Some reason \<Rightarrow> reason)"

section \<open>Audit records of a session\<close>

text \<open>The libraries the audit log is given, and the answers during one record: the random bytes, the
  clock, the write and the flush.\<close>

record audit_libs =
  lb_json :: json_lib
  lb_encode :: "bytes \<Rightarrow> string"
  lb_rfc3339 :: "system_time \<Rightarrow> string option"

record audit_answers =
  aa_fill :: "unit + bytes"
  aa_now :: system_time
  aa_write :: write_result
  aa_flush :: bool

definition record_access_denial ::
  "audit_libs \<Rightarrow> audit_answers \<Rightarrow> audit_log option \<Rightarrow> identity \<Rightarrow> string \<Rightarrow> socket_addr option \<Rightarrow>
   denial_category \<Rightarrow> denial_reason \<Rightarrow> (unit + unit) \<times> audit_log option" where
  "record_access_denial libs ans audit who tname remote category reason =
     (case audit of
        None \<Rightarrow> (Inr (), None)
      | Some log \<Rightarrow>
          (case correlation_id_generate (lb_encode libs) (aa_fill ans) of
             Inl _ \<Rightarrow> (Inl (), Some log)
           | Inr cid \<Rightarrow>
               (case from_system_time (lb_rfc3339 libs) (aa_now ans) of
                  Inl _ \<Rightarrow> (Inl (), Some log)
                | Inr at \<Rightarrow>
                    (case record_event (lb_json libs)
                         (access_denied cid category reason (Some who) (Some (ResolvedAuditTarget tname)) remote at)
                         (aa_write ans) (aa_flush ans) log of
                       (r, log') \<Rightarrow> (map_err (\<lambda>_. ()) r, Some log')))))"

record persistent_audit =
  pa_session_id :: session_id
  pa_started_at :: audit_timestamp
  pa_remote :: "socket_addr option"

fun audit_close_reason_of :: "session_close_reason \<Rightarrow> audit_close_reason" where
  "audit_close_reason_of CloseChildExited = AuditChildExited"
| "audit_close_reason_of CloseExplicit = AuditExplicit"
| "audit_close_reason_of CloseTransportDropped = AuditWebsocketDisconnect"
| "audit_close_reason_of CloseProtocolViolation = AuditProtocolViolation"
| "audit_close_reason_of ClosePolicyViolation = AuditPolicyViolation"
| "audit_close_reason_of CloseInternalFailure = AuditInternalFailure"
| "audit_close_reason_of CloseHandleDropped = AuditCancellation"
| "audit_close_reason_of CloseSupervisorUnwind = AuditSupervisorUnwind"
| "audit_close_reason_of CloseManagerShutdown = AuditManagerShutdown"
| "audit_close_reason_of (CloseTimeout IdleTimeout) = AuditIdleTimeout"
| "audit_close_reason_of (CloseTimeout AbsoluteTimeout) = AuditAbsoluteTimeout"
| "audit_close_reason_of CloseBackendFailure = AuditBackendFailure"

fun audit_outcome_of :: "child_outcome \<Rightarrow> audit_outcome" where
  "audit_outcome_of (ChildCode code) = OutcomeCode code"
| "audit_outcome_of (ChildSignal signal) = OutcomeSignal signal"
| "audit_outcome_of ChildUnavailable = OutcomeUnavailable"

text \<open>The end of a session is recorded if it was recorded as started and the clock can be read; a
  failure of the log is only its own.\<close>

definition record_session_end ::
  "audit_libs \<Rightarrow> audit_answers \<Rightarrow> persistent_audit option \<Rightarrow> identity \<Rightarrow> string \<Rightarrow>
   session_close_reason \<Rightarrow> child_outcome option \<Rightarrow> audit_log option \<Rightarrow> audit_log option" where
  "record_session_end libs ans persistent who tname reason outcome audit =
     (case (persistent, from_system_time (lb_rfc3339 libs) (aa_now ans)) of
        (Some pa, Inr ended_at) \<Rightarrow>
          map_option (\<lambda>log. snd (record_event (lb_json libs)
            (session_ended (pa_session_id pa) who (ResolvedAuditTarget tname) (pa_remote pa)
               (pa_started_at pa) ended_at (audit_close_reason_of reason)
               (map_option audit_outcome_of outcome))
            (aa_write ans) (aa_flush ans) log)) audit
      | _ \<Rightarrow> audit)"


section \<open>The supervisor\<close>

datatype activity_change = ActivityUnchanged | ActivitySendersGone | ActivityAt instant

text \<open>One wake-up of the supervisor's \<open>select!\<close>: the clock and what each branch answers. A branch
  that unwinds is a poll that panics.\<close>

record supervisor_poll =
  pl_now :: instant
  pl_child :: waitid_answer
  pl_close :: close_change
  pl_activity :: activity_change
  pl_worker_ended :: bool
  pl_settle :: "waitid_answer list"
  pl_panics :: bool

datatype loop_end = LoopBroke session_close_reason | LoopPanicked | LoopWaiting

text \<open>After a worker ended, the child has \<open>CHILD_EXIT_SETTLE\<close> to be seen exiting.\<close>

definition settle_reason :: "waitid_answer list \<Rightarrow> pty_child \<Rightarrow> session_close_reason \<times> pty_child" where
  "settle_reason answers c =
     (case wait_for_exit_observed answers c of
        (Some (Inr _), c') \<Rightarrow> (CloseChildExited, c')
      | (_, c') \<Rightarrow> (CloseBackendFailure, c'))"

fun supervisor_loop ::
  "limits \<Rightarrow> instant \<Rightarrow> instant \<Rightarrow> supervisor_poll list \<Rightarrow> pty_child \<Rightarrow> loop_end \<times> pty_child" where
  "supervisor_loop l absolute_deadline idle_deadline [] c = (LoopWaiting, c)"
| "supervisor_loop l absolute_deadline idle_deadline (p # ps) c =
     (if pl_panics p then (LoopPanicked, c)
      else if absolute_deadline \<le> pl_now p then (LoopBroke (CloseTimeout AbsoluteTimeout), c)
      else (case poll_exit_observed (pl_child p) c of
          (Inl _, c') \<Rightarrow> (LoopBroke CloseBackendFailure, c')
        | (Inr observed, c') \<Rightarrow>
            if observed then (LoopBroke CloseChildExited, c')
            else (case requested_reason (pl_close p) of
                Some reason \<Rightarrow> (LoopBroke reason, c')
              | None \<Rightarrow>
                  (case pl_activity p of
                     ActivityAt last_activity \<Rightarrow>
                       supervisor_loop l absolute_deadline (last_activity + idle_timeout l) ps c'
                   | ActivitySendersGone \<Rightarrow> supervisor_loop l absolute_deadline idle_deadline ps c'
                   | ActivityUnchanged \<Rightarrow>
                       if idle_deadline \<le> pl_now p then (LoopBroke (CloseTimeout IdleTimeout), c')
                       else if pl_worker_ended p then
                         (case settle_reason (pl_settle p) c' of (reason, c'') \<Rightarrow> (LoopBroke reason, c''))
                       else supervisor_loop l absolute_deadline idle_deadline ps c'))))"

text \<open>\<open>terminate_until_proven\<close> retries until a cleanup succeeds; each attempt comes with the answers
  of its steps.\<close>

type_synonym cleanup_attempt = "waitid_answer list \<times> wait_answer \<times> killpg_answer \<times> killpg_answer list"

fun terminate_until_proven ::
  "cleanup_attempt list \<Rightarrow> bool \<Rightarrow> pty_child \<Rightarrow> (process_status \<times> bool) option \<times> pty_child" where
  "terminate_until_proven [] retried c = (None, c)"
| "terminate_until_proven ((polls, w, probe, probes) # attempts) retried c =
     (case terminate polls w probe probes c of
        (Inr status, c') \<Rightarrow> (Some (status, retried), c')
      | (Inl _, c') \<Rightarrow> terminate_until_proven attempts True c')"

text \<open>\<open>run_supervisor\<close> and the recovery of \<open>supervise\<close> when it unwinds: the reason and outcome of
  the session and its cleaned up child, or None while it waits.\<close>

definition supervise_child ::
  "limits \<Rightarrow> instant \<Rightarrow> supervisor_poll list \<Rightarrow> cleanup_attempt list \<Rightarrow> pty_child \<Rightarrow>
   (session_close_reason \<times> child_outcome) option \<times> pty_child" where
  "supervise_child l created_at polls attempts c =
     (case supervisor_loop l (created_at + absolute_timeout l) (created_at + idle_timeout l) polls c of
        (LoopWaiting, c1) \<Rightarrow> (None, c1)
      | (LoopBroke reason, c1) \<Rightarrow>
          (case terminate_until_proven attempts False c1 of
             (None, c2) \<Rightarrow> (None, c2)
           | (Some (status, retried), c2) \<Rightarrow>
               (Some (if retried then CloseBackendFailure else reason, from_status status), c2))
      | (LoopPanicked, c1) \<Rightarrow>
          (case terminate_until_proven attempts False c1 of
             (None, c2) \<Rightarrow> (None, c2)
           | (Some (status, _), c2) \<Rightarrow> (Some (CloseSupervisorUnwind, from_status status), c2)))"

text \<open>A running session: what its supervisor owns. The event channel to the handle has room for
  \<open>LIFECYCLE_CHANNEL_CAPACITY\<close> events; events beyond it are dropped. The events broadcast to
  subscribers are kept in their order.\<close>

record supervisor =
  su_state :: state_machine
  su_identity :: identity
  su_target_name :: string
  su_limits :: limits
  su_created_at :: instant
  su_reservation :: reservation
  su_child :: pty_child
  su_final :: "session_closed option"
  su_events :: "lifecycle_event list"
  su_broadcast :: "lifecycle_event list"
  su_persistent :: "persistent_audit option"

definition try_send_event :: "lifecycle_event \<Rightarrow> lifecycle_event list \<Rightarrow> lifecycle_event list" where
  "try_send_event e queue = (if length queue < LIFECYCLE_CHANNEL_CAPACITY then queue @ [e] else queue)"

text \<open>\<open>complete_supervisor\<close>; None is the panic of its \<open>expect\<close>. The reservation is dropped last.\<close>

definition complete_supervisor ::
  "audit_libs \<Rightarrow> audit_answers \<Rightarrow> system_time \<Rightarrow> session_close_reason \<Rightarrow> child_outcome option \<Rightarrow>
   supervisor \<Rightarrow> audit_log option \<Rightarrow> capacity \<Rightarrow> (supervisor \<times> audit_log option \<times> capacity) option" where
  "complete_supervisor libs ans at reason outcome su audit cap =
     (case state_machine_close reason outcome (su_state su) of
        (Inl _, _) \<Rightarrow> None
      | (Inr closed, m) \<Rightarrow>
          (let audit' = record_session_end libs ans (su_persistent su) (su_identity su)
                 (su_target_name su) reason outcome audit;
               e = lifecycle_event (su_identity su) (su_target_name su) at (TransClosed reason outcome) in
           Some (su\<lparr>su_state := m, su_final := Some closed,
                    su_events := try_send_event e (su_events su),
                    su_broadcast := su_broadcast su @ [e]\<rparr>,
                 audit', reservation_drop (su_reservation su) cap)))"

text \<open>What the environment answers while a session is supervised.\<close>

record supervise_env =
  se_polls :: "supervisor_poll list"
  se_cleanup :: "cleanup_attempt list"
  se_audit :: audit_answers
  se_closed_at :: system_time

datatype supervise_result =
    SuperviseWaiting supervisor
  | SuperviseEnded supervisor "audit_log option" capacity
  | SupervisePanicked

definition supervise ::
  "audit_libs \<Rightarrow> supervise_env \<Rightarrow> supervisor \<Rightarrow> audit_log option \<Rightarrow> capacity \<Rightarrow> supervise_result" where
  "supervise libs env su audit cap =
     (case supervise_child (su_limits su) (su_created_at su) (se_polls env) (se_cleanup env) (su_child su) of
        (None, c) \<Rightarrow> SuperviseWaiting (su\<lparr>su_child := c\<rparr>)
      | (Some (reason, outcome), c) \<Rightarrow>
          (case complete_supervisor libs (se_audit env) (se_closed_at env) reason (Some outcome)
             (su\<lparr>su_child := c\<rparr>) audit cap of
             None \<Rightarrow> SupervisePanicked
           | Some (su', audit', cap') \<Rightarrow> SuperviseEnded su' audit' cap'))"

section \<open>The workers of the terminal\<close>

datatype session_command = Input bytes | ResizeTo resize

datatype io_answer = IoDone | IoFailed | IoCancelled

datatype writer_event = WriterCancelled | WriterSendersGone | WriterCommand session_command io_answer

datatype terminal_op = TermWrite bytes | TermResize resize

text \<open>\<open>write_input\<close>: the terminal operations it performs, the number of activity marks, and whether it
  has ended. A write that fails or is cancelled may have written a part of its bytes.\<close>

fun write_input :: "bool \<Rightarrow> writer_event list \<Rightarrow> terminal_op list \<times> nat \<times> bool" where
  "write_input read_only [] = ([], 0, False)"
| "write_input read_only (WriterCancelled # es) = ([], 0, True)"
| "write_input read_only (WriterSendersGone # es) = ([], 0, True)"
| "write_input read_only (WriterCommand (Input b) ans # es) =
     (if read_only \<or> b = [] then write_input read_only es
      else (case ans of
          IoDone \<Rightarrow> (case write_input read_only es of (ops, n, ended) \<Rightarrow> (TermWrite b # ops, Suc n, ended))
        | _ \<Rightarrow> ([TermWrite b], 0, True)))"
| "write_input read_only (WriterCommand (ResizeTo z) ans # es) =
     (case ans of
        IoDone \<Rightarrow> (case write_input read_only es of (ops, n, ended) \<Rightarrow> (TermResize z # ops, Suc n, ended))
      | _ \<Rightarrow> ([TermResize z], 0, True))"

datatype send_answer = SendDone | SendReceiverGone | SendCancelled
datatype reader_event = ReaderCancelled | ReaderEnd | ReaderChunk bytes send_answer

fun read_output :: "reader_event list \<Rightarrow> bytes list \<times> bool" where
  "read_output [] = ([], False)"
| "read_output (ReaderCancelled # es) = ([], True)"
| "read_output (ReaderEnd # es) = ([], True)"
| "read_output (ReaderChunk b ans # es) =
     (if b = [] then ([], True)
      else (case ans of
          SendDone \<Rightarrow> (case read_output es of (chunks, ended) \<Rightarrow> (b # chunks, ended))
        | _ \<Rightarrow> ([], True)))"

section \<open>The handle\<close>

text \<open>The handle's ends of the channels: commands not yet taken by the writer and whether it still
  takes any, output not yet read and whether more can come, the close cell and the final state.\<close>

record session =
  sn_commands :: "session_command list"
  sn_commands_open :: bool
  sn_output :: "bytes list"
  sn_output_open :: bool
  sn_close :: close_cell
  sn_final :: "session_closed option"
  sn_events :: "lifecycle_event list"
  sn_read_only :: bool

definition session_state_of :: "session \<Rightarrow> session_state" where
  "session_state_of s = (if sn_final s \<noteq> None then SessionClosed else SessionRunning)"

definition validate_resize :: "resize \<Rightarrow> session_error + unit" where
  "validate_resize z = map_err (\<lambda>_. InvalidResize) (map_ok (\<lambda>_. ()) (resize_new (cols z) (rows z)))"

text \<open>A \<open>recv\<close> or \<open>send\<close> on a bounded channel may wait: that is None.\<close>

definition session_read :: "session \<Rightarrow> (session_error + bytes) option \<times> session" where
  "session_read s =
     (case sn_output s of
        b # bs \<Rightarrow> (Some (Inr b), s\<lparr>sn_output := bs\<rparr>)
      | [] \<Rightarrow> (if sn_output_open s then None else Some (Inl SessionIsClosed), s))"

definition send_command :: "session_command \<Rightarrow> session \<Rightarrow> (session_error + unit) option \<times> session" where
  "send_command cmd s =
     (if \<not> sn_commands_open s then (Some (Inl SessionIsClosed), s)
      else if length (sn_commands s) < INPUT_CHANNEL_CAPACITY
        then (Some (Inr ()), s\<lparr>sn_commands := sn_commands s @ [cmd]\<rparr>)
      else (None, s))"

definition session_write :: "bytes \<Rightarrow> session \<Rightarrow> (session_error + unit) option \<times> session" where
  "session_write b s =
     (if length b > MAX_BINARY_BYTES then (Some (Inl InputTooLarge), s)
      else if sn_read_only s then (Some (Inl ReadOnly), s)
      else send_command (Input b) s)"

definition session_resize :: "resize \<Rightarrow> session \<Rightarrow> (session_error + unit) option \<times> session" where
  "session_resize z s =
     (case validate_resize z of
        Inl e \<Rightarrow> (Some (Inl e), s)
      | Inr _ \<Rightarrow> send_command (ResizeTo z) s)"

text \<open>\<open>close\<close>, \<open>transport_dropped\<close> and \<open>close_from_bridge\<close> request and then wait.\<close>

definition session_request :: "session_close_reason \<Rightarrow> session \<Rightarrow> session" where
  "session_request reason s = s\<lparr>sn_close := request_close (sn_close s) reason\<rparr>"

definition wait_closed :: "session \<Rightarrow> session_closed option" where
  "wait_closed s = sn_final s"

definition session_drop :: "session \<Rightarrow> session" where
  "session_drop s = (if sn_final s = None then session_request CloseHandleDropped s else s)"


section \<open>Connecting\<close>

text \<open>\<open>drain_client_log\<close> feeds the classifier until it can tell; the reads of the log so far decide what
  the admission channel holds.\<close>

datatype log_read = LogChunk bytes | LogEnd | LogCancelled
datatype admission = AdmissionPending | AdmissionClass ssh_diagnostic_class | AdmissionGone

fun drain_client_log :: "diagnostic_classifier \<Rightarrow> log_read list \<Rightarrow> admission" where
  "drain_client_log c [] = AdmissionPending"
| "drain_client_log c (LogCancelled # rs) = AdmissionGone"
| "drain_client_log c (LogEnd # rs) = AdmissionClass (finish c)"
| "drain_client_log c (LogChunk b # rs) =
     (if b = [] then AdmissionClass (finish c)
      else (let c' = push b c in
        case classification c' of
          Some k \<Rightarrow> AdmissionClass k
        | None \<Rightarrow> drain_client_log c' rs))"

text \<open>\<open>split_connecting_backend\<close>: a local terminal is admitted at once, a client by its log.\<close>

definition admission_of :: "diagnostic_classifier option \<Rightarrow> log_read list \<Rightarrow> admission" where
  "admission_of classifier reads =
     (case classifier of None \<Rightarrow> AdmissionClass Authenticated | Some c \<Rightarrow> drain_client_log c reads)"

record connecting =
  cn_identity :: identity
  cn_target_name :: string
  cn_read_only :: bool
  cn_limits :: limits
  cn_reservation :: reservation
  cn_child :: pty_child
  cn_classifier :: "diagnostic_classifier option"
  cn_remote :: "socket_addr option"

text \<open>One wake-up of the \<open>select!\<close> of \<open>run_connecting\<close>; \<open>cq_reads\<close> are all reads of the log so far.\<close>

record connecting_poll =
  cq_close :: close_change
  cq_caller_gone :: bool
  cq_reads :: "log_read list"
  cq_child :: waitid_answer
  cq_deadline :: bool
  cq_panics :: bool

datatype connecting_outcome =
    ConnAuthenticated | ConnRejected ssh_diagnostic_class | ConnClosed session_close_reason
  | ConnCallerDropped | ConnChildExited | ConnPanicked | ConnWaiting

fun connecting_select ::
  "diagnostic_classifier option \<Rightarrow> connecting_poll list \<Rightarrow> pty_child \<Rightarrow> connecting_outcome \<times> pty_child" where
  "connecting_select classifier [] c = (ConnWaiting, c)"
| "connecting_select classifier (p # ps) c =
     (if cq_panics p then (ConnPanicked, c)
      else (case requested_reason (cq_close p) of
          Some reason \<Rightarrow> (ConnClosed reason, c)
        | None \<Rightarrow>
            if cq_caller_gone p then (ConnCallerDropped, c)
            else (case admission_of classifier (cq_reads p) of
                AdmissionClass k \<Rightarrow> (if k = Authenticated then ConnAuthenticated else ConnRejected k, c)
              | AdmissionGone \<Rightarrow> (ConnRejected GenericFailure, c)
              | AdmissionPending \<Rightarrow>
                  (case poll_exit_observed (cq_child p) c of
                     (Inl _, c') \<Rightarrow> (ConnRejected GenericFailure, c')
                   | (Inr observed, c') \<Rightarrow>
                       if observed then (ConnChildExited, c')
                       else if cq_deadline p then (ConnRejected ConnectionFailed, c')
                       else connecting_select classifier ps c'))))"

fun ssh_denial :: "ssh_diagnostic_class \<Rightarrow> session_error \<times> denial_category \<times> denial_reason" where
  "ssh_denial UnknownHostKey = (SshHostKeyFailed, CatHostKey, DenyUnknownHostKey)"
| "ssh_denial HostKeyMismatch = (SshHostKeyFailed, CatHostKey, DenyHostKeyMismatch)"
| "ssh_denial ConnectionFailed = (SshConnectionFailed, CatTarget, DenySshConnectionFailed)"
| "ssh_denial AuthenticationFailed =
     (SshAuthenticationFailed, CatAuthentication, DenySshAuthenticationFailed)"
| "ssh_denial GenericFailure = (SshFailed, CatTarget, DenySshFailed)"
| "ssh_denial Authenticated = (SshFailed, CatTarget, DenySshFailed)"

text \<open>What a caller is told when a connection is not admitted; nothing if it is gone.\<close>

definition refusal ::
  "audit_libs \<Rightarrow> audit_answers \<Rightarrow> connecting \<Rightarrow> connecting_outcome \<Rightarrow> audit_log option \<Rightarrow>
   session_error option \<times> audit_log option" where
  "refusal libs ans cn outcome audit =
     (let deny = record_access_denial libs ans audit (cn_identity cn) (cn_target_name cn) (cn_remote cn);
          rejected = (\<lambda>k. case ssh_denial k of (error, category, reason) \<Rightarrow>
            (case deny category reason of
               (Inr _, audit') \<Rightarrow> (Some error, audit')
             | (Inl _, audit') \<Rightarrow> (Some AuditUnavailable, audit'))) in
      case outcome of
        ConnRejected k \<Rightarrow> rejected k
      | ConnChildExited \<Rightarrow> rejected GenericFailure
      | ConnClosed reason \<Rightarrow>
          (Some (if reason = CloseManagerShutdown then ManagerClosed else BackendUnavailable), audit)
      | ConnCallerDropped \<Rightarrow> (None, snd (deny CatTarget DenySessionCancelled))
      | _ \<Rightarrow> (Some BackendUnavailable, audit))"

text \<open>Where the task may unwind after admission.\<close>

datatype handoff_panic = PanicAfterAuditStart | PanicAfterHandoffTake | PanicAfterLifecycle

record connect_env =
  ce_polls :: "connecting_poll list"
  ce_cleanup :: "cleanup_attempt list"
  ce_session_fill :: "unit + bytes"
  ce_audit :: audit_answers
  ce_handoff_panic :: "handoff_panic option"
  ce_end_audit :: audit_answers
  ce_created_at :: instant
  ce_event_times :: "system_time \<times> system_time \<times> system_time"

datatype connecting_result =
    ConnectingWaiting pty_child
  | ConnectingRefused "session_error option" "lifecycle_event list" pty_child "audit_log option" capacity
  | ConnectingHandedOver supervisor session "audit_log option" capacity

text \<open>Cleanup, then what is told and recorded, and last the end of the reservation.\<close>

definition refuse_after_cleanup ::
  "connect_env \<Rightarrow> connecting \<Rightarrow> pty_child \<Rightarrow>
   (child_outcome \<Rightarrow> session_error option \<times> lifecycle_event list \<times> audit_log option) \<Rightarrow> capacity \<Rightarrow> connecting_result" where
  "refuse_after_cleanup env cn c told cap =
     (case terminate_until_proven (ce_cleanup env) False c of
        (None, c') \<Rightarrow> ConnectingWaiting c'
      | (Some (status, _), c') \<Rightarrow>
          (case told (from_status status) of (reply, events, audit') \<Rightarrow>
             ConnectingRefused reply events c' audit' (reservation_drop (cn_reservation cn) cap)))"

definition persistent_audit_start ::
  "audit_libs \<Rightarrow> connect_env \<Rightarrow> connecting \<Rightarrow> audit_log option \<Rightarrow>
   (session_error + persistent_audit option) \<times> audit_log option" where
  "persistent_audit_start libs env cn audit =
     (case audit of
        None \<Rightarrow> (Inr None, None)
      | Some log \<Rightarrow>
          (case session_id_generate (lb_encode libs) (ce_session_fill env) of
             Inl _ \<Rightarrow> (Inl AuditUnavailable, audit)
           | Inr sid \<Rightarrow>
               (case from_system_time (lb_rfc3339 libs) (aa_now (ce_audit env)) of
                  Inl _ \<Rightarrow> (Inl AuditUnavailable, audit)
                | Inr started_at \<Rightarrow>
                    (case record_event (lb_json libs)
                        (session_started sid (cn_identity cn) (ResolvedAuditTarget (cn_target_name cn))
                           (cn_remote cn) started_at)
                        (aa_write (ce_audit env)) (aa_flush (ce_audit env)) log of
                       (Inl _, log') \<Rightarrow> (Inl AuditUnavailable, Some log')
                     | (Inr _, log') \<Rightarrow>
                         (Inr (Some \<lparr>pa_session_id = sid, pa_started_at = started_at, pa_remote = cn_remote cn\<rparr>),
                          Some log')))))"

definition started_machine :: state_machine where
  "started_machine = snd (state_machine_start state_machine_new)"

definition started_events :: "connect_env \<Rightarrow> connecting \<Rightarrow> lifecycle_event list" where
  "started_events env cn =
     (case ce_event_times env of (created, running, _) \<Rightarrow>
        [lifecycle_event (cn_identity cn) (cn_target_name cn) created TransCreated,
         lifecycle_event (cn_identity cn) (cn_target_name cn) running TransRunning])"

definition new_session :: "connecting \<Rightarrow> session" where
  "new_session cn = \<lparr>sn_commands = [], sn_commands_open = True, sn_output = [], sn_output_open = True,
     sn_close = None, sn_final = None, sn_events = [], sn_read_only = cn_read_only cn\<rparr>"

definition new_supervisor ::
  "connect_env \<Rightarrow> connecting \<Rightarrow> pty_child \<Rightarrow> persistent_audit option \<Rightarrow> supervisor" where
  "new_supervisor env cn c persistent =
     \<lparr>su_state = started_machine, su_identity = cn_identity cn, su_target_name = cn_target_name cn,
      su_limits = cn_limits cn, su_created_at = ce_created_at env, su_reservation = cn_reservation cn,
      su_child = c, su_final = None, su_events = started_events env cn,
      su_broadcast = started_events env cn, su_persistent = persistent\<rparr>"

text \<open>\<open>recover_connecting_unwind\<close> after the admission.\<close>

definition recover_unwind ::
  "audit_libs \<Rightarrow> connect_env \<Rightarrow> connecting \<Rightarrow> pty_child \<Rightarrow> persistent_audit option \<Rightarrow> handoff_panic \<Rightarrow>
   audit_log option \<Rightarrow> capacity \<Rightarrow> connecting_result" where
  "recover_unwind libs env cn c persistent point audit cap =
     refuse_after_cleanup env cn c (\<lambda>outcome.
       (Some BackendUnavailable,
        (if point = PanicAfterLifecycle then
           started_events env cn @ [lifecycle_event (cn_identity cn) (cn_target_name cn)
             (snd (snd (ce_event_times env))) (TransClosed CloseSupervisorUnwind (Some outcome))]
         else []),
        record_session_end libs (ce_end_audit env) persistent (cn_identity cn) (cn_target_name cn)
          CloseSupervisorUnwind (Some outcome) audit)) cap"

definition run_connecting ::
  "audit_libs \<Rightarrow> connect_env \<Rightarrow> connecting \<Rightarrow> audit_log option \<Rightarrow> capacity \<Rightarrow> connecting_result" where
  "run_connecting libs env cn audit cap =
     (case connecting_select (cn_classifier cn) (ce_polls env) (cn_child cn) of
        (ConnWaiting, c) \<Rightarrow> ConnectingWaiting c
      | (ConnAuthenticated, c) \<Rightarrow>
          (case persistent_audit_start libs env cn audit of
             (Inl error, audit') \<Rightarrow> refuse_after_cleanup env cn c (\<lambda>_. (Some error, [], audit')) cap
           | (Inr persistent, audit') \<Rightarrow>
               (case ce_handoff_panic env of
                  Some point \<Rightarrow> recover_unwind libs env cn c persistent point audit' cap
                | None \<Rightarrow> ConnectingHandedOver (new_supervisor env cn c persistent) (new_session cn) audit' cap))
      | (outcome, c) \<Rightarrow> refuse_after_cleanup env cn c
          (\<lambda>_. case refusal libs (ce_audit env) cn outcome audit of (reply, audit') \<Rightarrow> (reply, [], audit')) cap)"

end
