(* ===== verification/Session_Safety.thy ===== *)
theory Session_Safety
  imports Session
begin

text \<open>
  What the supervisor, the connecting task and the workers of \<open>Session\<close> guarantee: a session is
  handed over only for an authenticated connection with its start on record, a refused one gives
  its place back only after its process group is gone, the supervisor ends by its deadlines, and
  the end of a session is told, recorded and accounted for once.
\<close>

section \<open>The child of a session\<close>

lemma settle_inv: "child_inv c \<Longrightarrow> child_inv (snd (settle_reason answers c))"
  using observe_inv [of c answers]
  by (cases "wait_for_exit_observed answers c") (auto simp: settle_reason_def split: option.splits sum.splits)

lemma supervisor_loop_inv:
  "child_inv c \<Longrightarrow> child_inv (snd (supervisor_loop l a d ps c))"
proof (induction l a d ps c rule: supervisor_loop.induct)
  case (2 l a d p ps c)
  obtain r c' where p: "poll_exit_observed (pl_child p) c = (r, c')" by fastforce
  with poll_inv [OF 2(4), of "pl_child p"] have c': "child_inv c'" by simp
  note settle = settle_inv [OF c', of "pl_settle p"]
  show ?case
  proof (cases "pl_panics p \<or> a \<le> pl_now p")
    case False
    then show ?thesis
      using 2(1-3) p c' 2(4) settle
      by (auto split: sum.splits option.splits activity_change.splits prod.splits)
  qed (use 2(4) in auto)
qed simp

lemma connecting_select_inv:
  "child_inv c \<Longrightarrow> child_inv (snd (connecting_select k ps c))"
proof (induction k ps c rule: connecting_select.induct)
  case (2 k p ps c)
  obtain r c' where p: "poll_exit_observed (cq_child p) c = (r, c')" by fastforce
  with poll_inv [OF 2(2), of "cq_child p"] have "child_inv c'" by simp
  with 2 p show ?case
    by (auto split: sum.splits option.splits admission.splits)
qed simp

text \<open>A cleanup that is proven: the leader was killed and reaped, and a probe found the group gone.\<close>

definition cleanup_proven :: "cleanup_attempt list \<Rightarrow> process_status \<Rightarrow> pty_child \<Rightarrow> bool" where
  "cleanup_proven attempts status c \<longleftrightarrow> child_inv c \<and> pc_cleanup_state c = Reaped
     \<and> pc_exit_status c = Some status
     \<and> (\<exists>(polls, w, probe, probes) \<in> set attempts. GroupMissing \<in> set (probe # probes))"

lemma terminate_until_proven_result:
  "child_inv c \<Longrightarrow> terminate_until_proven attempts retried c = (Some (status, r), c') \<Longrightarrow>
     cleanup_proven attempts status c'"
proof (induction attempts retried c rule: terminate_until_proven.induct)
  case (2 polls w probe probes attempts retried c)
  obtain res c1 where t: "terminate polls w probe probes c = (res, c1)" by fastforce
  note i = terminate_inv [OF 2(2), of polls w probe probes, unfolded t]
  show ?case
  proof (cases res)
    case (Inl e)
    with 2(1) [OF t [symmetric] Inl] i 2(3) t have "cleanup_proven attempts status c'" by simp
    then show ?thesis by (auto simp: cleanup_proven_def)
  next
    case (Inr st)
    with i 2(3) t show ?thesis by (auto simp: cleanup_proven_def)
  qed
qed simp


lemma supervise_child_result:
  assumes "child_inv c" "supervise_child l created polls attempts c = (Some (reason, outcome), c')"
  shows "\<exists>status. outcome = from_status status \<and> cleanup_proven attempts status c'"
proof -
  obtain r c1 where s: "supervisor_loop l (created + absolute_timeout l) (created + idle_timeout l) polls c = (r, c1)"
    by fastforce
  with supervisor_loop_inv [OF assms(1), of l "created + absolute_timeout l" "created + idle_timeout l" polls]
  have c1: "child_inv c1" by simp
  obtain res c2 where t: "terminate_until_proven attempts False c1 = (res, c2)" by fastforce
  from assms(2) s t obtain status retried where res: "res = Some (status, retried)"
    and out: "outcome = from_status status" "c' = c2"
    by (auto simp: supervise_child_def split: loop_end.splits option.splits)
  from terminate_until_proven_result [OF c1 t [unfolded res]] out show ?thesis by blast
qed

section \<open>The end of a session\<close>

lemma started_machine_close:
  "state_machine_close reason outcome started_machine =
     (Inr \<lparr>sc_state = SessionClosed, sc_reason = reason, sc_outcome = outcome\<rparr>,
      \<lparr>sm_state = SessionClosed,
       sm_terminal = Some \<lparr>sc_state = SessionClosed, sc_reason = reason, sc_outcome = outcome\<rparr>\<rparr>)"
  by (simp add: started_machine_def state_machine_start_def state_machine_new_def
    state_machine_close_def Let_def)

lemma refuse_never_hands_over:
  "refuse_after_cleanup env cn c told cap \<noteq> ConnectingHandedOver su sn audit cap'"
  by (auto simp: refuse_after_cleanup_def split: prod.splits option.splits)

text \<open>A connection that is handed over.\<close>

lemma handed_over:
  assumes "run_connecting libs env cn audit cap = ConnectingHandedOver su sn audit' cap'"
  shows "\<exists>c persistent. connecting_select (cn_classifier cn) (ce_polls env) (cn_child cn) = (ConnAuthenticated, c)
    \<and> persistent_audit_start libs env cn audit = (Inr persistent, audit')
    \<and> su = new_supervisor env cn c persistent \<and> sn = new_session cn \<and> cap' = cap"
  using assms
  by (auto simp: run_connecting_def recover_unwind_def refuse_never_hands_over
    split: prod.splits connecting_outcome.splits sum.splits option.splits)

lemma started_events_transitions:
  "map le_transition (started_events env cn) = [TransCreated, TransRunning]"
  by (simp add: started_events_def lifecycle_event_def split: prod.splits)

lemma length_started_events: "length (started_events env cn) = 2"
  by (simp add: started_events_def split: prod.splits)

text \<open>C3: The end of a session that was handed over: it never unwinds while it completes, it is told once
  with one reason, its end is recorded once, its process group was killed, reaped and seen gone, and
  only then is its place given back.\<close>

theorem session_ends_once:
  assumes start: "run_connecting libs cenv cn audit0 cap0 = ConnectingHandedOver su sn audit1 cap1"
    and child: "cn_child cn = new_child pid"
    and ended: "supervise libs env su audit cap = result"
  shows "(\<exists>su'. result = SuperviseWaiting su') \<or>
    (\<exists>su' reason status. let outcome = Some (from_status status);
         closed = \<lparr>sc_state = SessionClosed, sc_reason = reason, sc_outcome = outcome\<rparr> in
       result = SuperviseEnded su'
         (record_session_end libs (se_audit env) (su_persistent su) (cn_identity cn) (cn_target_name cn)
            reason outcome audit)
         (reservation_drop (cn_reservation cn) cap)
       \<and> cleanup_proven (se_cleanup env) status (su_child su')
       \<and> sm_terminal (su_state su') = Some closed \<and> su_final su' = Some closed
       \<and> map le_transition (su_events su') = [TransCreated, TransRunning, TransClosed reason outcome]
       \<and> su_broadcast su' = su_events su')"
proof -
  from handed_over [OF start] obtain c persistent where
    sel: "connecting_select (cn_classifier cn) (ce_polls cenv) (cn_child cn) = (ConnAuthenticated, c)"
    and su: "su = new_supervisor cenv cn c persistent" by blast
  from connecting_select_inv [OF new_child_inv, of "cn_classifier cn" "ce_polls cenv" pid] sel child
  have c: "child_inv (su_child su)" by (simp add: su new_supervisor_def)
  obtain res c' where s: "supervise_child (su_limits su) (su_created_at su) (se_polls env) (se_cleanup env)
      (su_child su) = (res, c')" by fastforce
  show ?thesis
  proof (cases res)
    case None
    with s ended show ?thesis by (auto simp: supervise_def)
  next
    case (Some ro)
    obtain reason outcome where ro: "ro = (reason, outcome)" by fastforce
    from supervise_child_result [OF c] s Some ro obtain status
      where "outcome = from_status status" "cleanup_proven (se_cleanup env) status c'" by blast
    with s Some ro ended show ?thesis
      by (intro disjI2, unfold Let_def)
        (auto simp: supervise_def complete_supervisor_def su new_supervisor_def started_machine_close
          Let_def try_send_event_def length_started_events LIFECYCLE_CHANNEL_CAPACITY_def
          started_events_transitions lifecycle_event_def)
  qed
qed

section \<open>Deadlines\<close>

lemma loop_ends_by_deadline:
  "\<exists>p \<in> set polls. absolute \<le> pl_now p \<Longrightarrow> fst (supervisor_loop l absolute idle polls c) \<noteq> LoopWaiting"
proof (induction polls arbitrary: idle c)
  case (Cons p ps)
  have "fst (supervisor_loop l absolute i ps c') \<noteq> LoopWaiting" if "\<not> absolute \<le> pl_now p" for i c'
    using Cons that by auto
  then show ?case
    by (auto split: sum.splits option.splits activity_change.splits prod.splits)
qed simp

text \<open>A cleanup attempt whose steps are all answered as they should be.\<close>

fun attempt_succeeds :: "cleanup_attempt \<Rightarrow> bool" where
  "attempt_succeeds (polls, w, probe, probes) \<longleftrightarrow> WaitidFailed \<notin> set polls \<and> (\<exists>status. w = WaitStatus status)
     \<and> GroupMissing \<in> set (probe # probes)
     \<and> KillpgFailed \<notin> set (takeWhile (\<lambda>a. a \<noteq> GroupMissing) (probe # probes))"

lemma poll_group: "pc_process_group (snd (poll_exit_observed a c)) = pc_process_group c"
  by (simp add: poll_exit_observed_def note_op_def split: waitid_answer.splits)

lemma observe_group: "pc_process_group (snd (wait_for_exit_observed as c)) = pc_process_group c"
proof (induction as c rule: wait_for_exit_observed.induct)
  case (2 a as c)
  then show ?case
    using poll_group [of a c] by (cases "poll_exit_observed a c") (auto split: sum.splits)
qed simp

lemma grace_group: "pc_process_group (snd (grace_loop as c)) = pc_process_group c"
proof (induction as c rule: grace_loop.induct)
  case (2 a as c)
  then show ?case
    using poll_group [of a c] by (cases "poll_exit_observed a c") (auto split: sum.splits)
qed simp

lemma absence_group: "pc_process_group (snd (wait_for_group_absence a as c)) = pc_process_group c"
proof (induction a as c rule: wait_for_group_absence.induct)
  case (1 a as c)
  then show ?case
    by (cases "process_group_absent a") (auto simp: note_op_def split: list.splits bool.splits)
qed

lemma signal_phase_group: "pc_process_group (snd (signal_phase polls c)) = pc_process_group c"
  using grace_group [of polls "note_op OpHup c"]
  by (cases "grace_loop polls (note_op OpHup c)") (auto simp: signal_phase_def note_op_def split: sum.splits)

lemma child_wait_group: "pc_process_group (snd (child_wait w c)) = pc_process_group c"
  by (simp add: child_wait_def note_op_def split: option.splits wait_answer.splits)

lemma terminate_group: "pc_process_group (snd (terminate polls w probe probes c)) = pc_process_group c"
proof -
  obtain r1 c1 where 1: "signal_phase polls c = (r1, c1)" by fastforce
  obtain r2 c2 where 2: "child_wait w c1 = (r2, c2)" by fastforce
  obtain r3 c3 where 3: "wait_for_group_absence probe probes c2 = (r3, c3)" by fastforce
  show ?thesis
    using signal_phase_group [of polls c] child_wait_group [of w c1] absence_group [of probe probes c2]
    by (auto simp: terminate_def 1 2 3 simp del: wait_for_group_absence.simps split: sum.splits)
qed

lemma supervisor_loop_group: "pc_process_group (snd (supervisor_loop l a d ps c)) = pc_process_group c"
proof (induction l a d ps c rule: supervisor_loop.induct)
  case (2 l a d p ps c)
  obtain r c' where p: "poll_exit_observed (pl_child p) c = (r, c')" by fastforce
  have "pc_process_group (snd (settle_reason (pl_settle p) c')) = pc_process_group c'"
    using observe_group [of "pl_settle p" c']
    by (cases "wait_for_exit_observed (pl_settle p) c'") (auto simp: settle_reason_def split: option.splits sum.splits)
  with 2 p poll_group [of "pl_child p" c] show ?case
    by (auto split: sum.splits option.splits activity_change.splits prod.splits)
qed simp

lemma grace_loop_ok:
  "WaitidFailed \<notin> set as \<Longrightarrow> pc_process_group c \<noteq> 0 \<Longrightarrow> fst (grace_loop as c) = Inr ()"
proof (induction as c rule: grace_loop.induct)
  case (2 a as c)
  obtain r c' where p: "poll_exit_observed a c = (r, c')" by fastforce
  from p 2(2,3) obtain b where r: "r = Inr b"
    by (cases a) (auto simp: poll_exit_observed_def split: if_splits)
  from poll_group [of a c] p have "pc_process_group c' = pc_process_group c" by simp
  with 2 p r show ?case by auto
qed simp

lemma absence_ok:
  "GroupMissing \<in> set (a # as) \<Longrightarrow> KillpgFailed \<notin> set (takeWhile (\<lambda>x. x \<noteq> GroupMissing) (a # as)) \<Longrightarrow>
     fst (wait_for_group_absence a as c) = Inr ()"
proof (induction a as c rule: wait_for_group_absence.induct)
  case (1 a as c)
  show ?case
  proof (cases as)
    case Nil
    with 1(2) show ?thesis by (simp add: process_group_absent_def)
  next
    case (Cons b bs)
    show ?thesis
    proof (cases "a = GroupMissing")
      case False
      with 1(3) have "process_group_absent a = Inr False"
        by (cases a) (simp_all add: process_group_absent_def)
      with 1(1) [OF this _ Cons] 1(2,3) False Cons show ?thesis
        by (auto simp del: wait_for_group_absence.simps simp: wait_for_group_absence.simps [of a])
    qed (simp add: process_group_absent_def)
  qed
qed

lemma terminate_ok:
  assumes "attempt_succeeds (polls, w, probe, probes)" "pc_process_group c \<noteq> 0"
  shows "is_ok (fst (terminate polls w probe probes c))"
proof -
  from assms(1) obtain status where w: "w = WaitStatus status" by auto
  have g: "fst (grace_loop polls (note_op OpHup c)) = Inr ()"
    using assms by (intro grace_loop_ok) (simp_all add: note_op_def)
  then have "fst (signal_phase polls c) = Inr ()"
    by (cases "grace_loop polls (note_op OpHup c)") (simp add: signal_phase_def)
  then obtain c1 where 1: "signal_phase polls c = (Inr (), c1)"
    by (cases "signal_phase polls c") simp
  obtain st c2 where 2: "child_wait w c1 = (Inr st, c2)"
    by (cases "pc_exit_status c1") (auto simp: child_wait_def w)
  have "fst (wait_for_group_absence probe probes c2) = Inr ()"
    using assms(1) by (intro absence_ok) simp_all
  then show ?thesis
    by (cases "wait_for_group_absence probe probes c2") (simp add: terminate_def 1 2 is_ok_def)
qed

lemma terminate_until_proven_ends:
  "\<exists>a \<in> set attempts. attempt_succeeds a \<Longrightarrow> pc_process_group c \<noteq> 0 \<Longrightarrow>
     fst (terminate_until_proven attempts retried c) \<noteq> None"
proof (induction attempts retried c rule: terminate_until_proven.induct)
  case (2 polls w probe probes attempts retried c)
  obtain res c1 where t: "terminate polls w probe probes c = (res, c1)" by fastforce
  show ?case
  proof (cases res)
    case (Inl e)
    then have "\<not> attempt_succeeds (polls, w, probe, probes)"
      using terminate_ok [of polls w probe probes c] 2(3) t by (auto simp: is_ok_def)
    moreover have "pc_process_group c1 = pc_process_group c"
      using terminate_group [of polls w probe probes c] t by simp
    ultimately show ?thesis using 2(1) [OF t [symmetric] Inl] 2(2,3) Inl t by auto
  qed (simp add: t)
qed simp


text \<open>C19: Once the absolute deadline has passed at some wake-up, the session ends as soon as one cleanup
  attempt is answered as it should be, whatever happened before and whatever attempts failed.\<close>

theorem sessions_end_by_deadline:
  assumes "\<exists>p \<in> set (se_polls env). su_created_at su + absolute_timeout (su_limits su) \<le> pl_now p"
    and "\<exists>a \<in> set (se_cleanup env). attempt_succeeds a"
    and "pc_process_group (su_child su) \<noteq> 0"
  shows "supervise libs env su audit cap \<noteq> SuperviseWaiting su'"
proof -
  obtain r c1 where s: "supervisor_loop (su_limits su) (su_created_at su + absolute_timeout (su_limits su))
      (su_created_at su + idle_timeout (su_limits su)) (se_polls env) (su_child su) = (r, c1)"
    by fastforce
  with loop_ends_by_deadline [OF assms(1), of "su_limits su"] have r: "r \<noteq> LoopWaiting"
    by (metis fst_conv)
  have "pc_process_group c1 \<noteq> 0"
    using supervisor_loop_group s assms(3) by (metis snd_conv)
  from terminate_until_proven_ends [OF assms(2) this, of False] obtain status retried c2 where
    "terminate_until_proven (se_cleanup env) False c1 = (Some (status, retried), c2)"
    by (cases "terminate_until_proven (se_cleanup env) False c1") auto
  with s r show ?thesis
    by (cases r) (auto simp: supervise_def supervise_child_def split: option.splits)
qed

text \<open>The activity a supervisor has seen.\<close>

fun activities :: "supervisor_poll list \<Rightarrow> instant list" where
  "activities [] = []"
| "activities (p # ps) = (case pl_activity p of ActivityAt t \<Rightarrow> t # activities ps | _ \<Rightarrow> activities ps)"

definition no_timeout_requested :: "supervisor_poll list \<Rightarrow> bool" where
  "no_timeout_requested ps \<longleftrightarrow> list_all (\<lambda>p. \<forall>k. requested_reason (pl_close p) \<noteq> Some (CloseTimeout k)) ps"

lemma settle_no_timeout: "settle_reason as c \<noteq> (CloseTimeout k, c')"
  by (auto simp: settle_reason_def split: prod.splits option.splits sum.splits)

lemma loop_idle_sound:
  "no_timeout_requested polls \<Longrightarrow>
   fst (supervisor_loop l absolute (last seen + idle_timeout l) polls c) = LoopBroke (CloseTimeout IdleTimeout) \<Longrightarrow>
     seen \<noteq> [] \<Longrightarrow>
     \<exists>before p later. polls = before @ p # later \<and> last (seen @ activities before) + idle_timeout l \<le> pl_now p"
proof (induction polls arbitrary: seen c)
  case (Cons p ps)
  from Cons.prems(1) have no: "no_timeout_requested ps"
    "requested_reason (pl_close p) \<noteq> Some (CloseTimeout IdleTimeout)"
    by (simp_all add: no_timeout_requested_def)
  have later: ?case
    if "fst (supervisor_loop l absolute (last seen' + idle_timeout l) ps c') = LoopBroke (CloseTimeout IdleTimeout)"
      "seen' = seen @ activities [p]" for seen' c'
  proof -
    from Cons.IH [OF no(1) that(1)] that(2) Cons.prems(3) obtain before q rest where
      "ps = before @ q # rest" "last (seen' @ activities before) + idle_timeout l \<le> pl_now q"
      by auto
    moreover have "seen @ activities (p # before) = seen' @ activities before"
      using that(2) by (simp split: activity_change.splits)
    ultimately show ?thesis
      by (intro exI [of _ "p # before"] exI [of _ q] exI [of _ rest]) simp
  qed
  have now: ?case if "last seen + idle_timeout l \<le> pl_now p"
    using that by (intro exI [of _ "[]"] exI [of _ p] exI [of _ ps]) simp
  from Cons.prems(2) no(2) later [of "seen @ activities [p]"] now settle_no_timeout show ?case
    by (auto split: sum.splits option.splits activity_change.splits prod.splits if_splits)
qed simp


text \<open>The timeouts are sound: the absolute one is reported only when the clock has passed it, the idle
  one only when the clock was read \<open>idle_timeout\<close> or more after the start and the last activity.\<close>

theorem timeout_reasons_sound:
  assumes "no_timeout_requested polls" and "idle_timeout l > 0"
    and "supervise_child l created polls attempts c = (Some (CloseTimeout kind, outcome), c')"
  shows "(case kind of
      AbsoluteTimeout \<Rightarrow> \<exists>p \<in> set polls. created + absolute_timeout l \<le> pl_now p
    | IdleTimeout \<Rightarrow> \<exists>before p later. polls = before @ p # later
        \<and> last (created # activities before) + idle_timeout l \<le> pl_now p)"
proof -
  have loop: "fst (supervisor_loop l (created + absolute_timeout l) (created + idle_timeout l) polls c)
      = LoopBroke (CloseTimeout kind)"
    using assms(3) by (auto simp: supervise_child_def split: prod.splits loop_end.splits option.splits if_splits)
  show ?thesis
  proof (cases kind)
    case IdleTimeout
    with loop_idle_sound [OF assms(1), of l "created + absolute_timeout l" "[created]"] loop
    show ?thesis by simp
  next
    case AbsoluteTimeout
    have "fst (supervisor_loop l a d polls c) = LoopBroke (CloseTimeout AbsoluteTimeout) \<Longrightarrow>
        \<exists>p \<in> set polls. a \<le> pl_now p" for a d
      using assms(1)
    proof (induction polls arbitrary: d c)
      case (Cons p ps)
      then have "no_timeout_requested ps" "requested_reason (pl_close p) \<noteq> Some (CloseTimeout AbsoluteTimeout)"
        by (simp_all add: no_timeout_requested_def)
      with Cons.IH Cons.prems(1) settle_no_timeout show ?case
        by (auto split: sum.splits option.splits activity_change.splits prod.splits if_splits)
    qed simp
    with loop AbsoluteTimeout show ?thesis by simp
  qed
qed

section \<open>Admission\<close>

lemma finish_authenticated: "classification c = None \<Longrightarrow> finish c \<noteq> Authenticated"
  by (simp add: finish_def)

lemma drain_authenticated:
  "drain_client_log (fold push got (classifier_new host)) reads = AdmissionClass Authenticated \<Longrightarrow>
   classification (fold push got (classifier_new host)) = None \<Longrightarrow>
     \<exists>chunks. prefix (map LogChunk chunks) reads
       \<and> classification (fold push (got @ chunks) (classifier_new host)) = Some Authenticated"
proof (induction reads arbitrary: got)
  case (Cons r rs)
  let ?c = "fold push got (classifier_new host)"
  show ?case
  proof (cases r)
    case (LogChunk b)
    with Cons.prems finish_authenticated have b: "b \<noteq> []" by auto
    show ?thesis
    proof (cases "classification (push b ?c)")
      case None
      with Cons.prems LogChunk b Cons.IH [of "got @ [b]"] obtain chunks where
        "prefix (map LogChunk chunks) rs"
        "classification (fold push (got @ b # chunks) (classifier_new host)) = Some Authenticated"
        by (auto simp: Let_def)
      with LogChunk show ?thesis by (intro exI [of _ "b # chunks"]) simp
    next
      case (Some k)
      with Cons.prems LogChunk b show ?thesis by (intro exI [of _ "[b]"]) (simp add: Let_def)
    qed
  qed (use Cons.prems finish_authenticated in auto)
qed simp

lemma select_authenticated:
  "connecting_select k polls c = (ConnAuthenticated, c') \<Longrightarrow>
     \<exists>p \<in> set polls. admission_of k (cq_reads p) = AdmissionClass Authenticated
       \<and> requested_reason (cq_close p) = None \<and> \<not> cq_caller_gone p"
proof (induction polls arbitrary: c)
  case (Cons p ps)
  then show ?case
    by (fastforce split: option.splits admission.splits sum.splits prod.splits if_splits)
qed simp

lemma new_classifier_undecided: "classification (classifier_new host) = None"
  by (simp add: classification_def classifier_new_def classify_diagnostics_def complete_lines_def)

text \<open>C4: A session is handed over only for a connection that was admitted, by a caller that still waits:
  a client's log then holds a complete line that reports public-key authentication to exactly the
  expected host and none that reports a changed or unknown key; where there is an audit log, the
  start of the session is on record in it; and the session keeps the place that was reserved.\<close>

theorem admitted_connection:
  assumes "run_connecting libs env cn audit cap = ConnectingHandedOver su sn audit' cap'"
  shows "cap' = cap \<and> su_reservation su = cn_reservation cn
    \<and> sn_read_only sn = cn_read_only cn \<and> session_state_of sn = SessionRunning
    \<and> (\<exists>p \<in> set (ce_polls env). requested_reason (cq_close p) = None \<and> \<not> cq_caller_gone p
        \<and> (\<forall>host. cn_classifier cn = Some (classifier_new host) \<longrightarrow>
            (\<exists>chunks. prefix (map LogChunk chunks) (cq_reads p) \<and> is_str (concat chunks)
              \<and> list_ex (authenticated_line host) (complete_lines (concat chunks))
              \<and> list_all (\<lambda>l. \<not> host_key_mismatch_line l \<and> \<not> unknown_host_key_line host l)
                  (complete_lines (concat chunks)))))
    \<and> (\<forall>log. audit = Some log \<longrightarrow> (\<exists>pa log'. su_persistent su = Some pa \<and> audit' = Some log'
        \<and> record_event (lb_json libs)
            (session_started (pa_session_id pa) (cn_identity cn) (ResolvedAuditTarget (cn_target_name cn))
              (cn_remote cn) (pa_started_at pa))
            (aa_write (ce_audit env)) (aa_flush (ce_audit env)) log = (Inr (), log')))"
proof -
  from handed_over [OF assms] obtain c persistent where
    sel: "connecting_select (cn_classifier cn) (ce_polls env) (cn_child cn) = (ConnAuthenticated, c)"
    and pa: "persistent_audit_start libs env cn audit = (Inr persistent, audit')"
    and su: "su = new_supervisor env cn c persistent" "sn = new_session cn" "cap' = cap" by blast
  from select_authenticated [OF sel] obtain p where p: "p \<in> set (ce_polls env)"
    "admission_of (cn_classifier cn) (cq_reads p) = AdmissionClass Authenticated"
    "requested_reason (cq_close p) = None" "\<not> cq_caller_gone p" by blast
  have log: "\<exists>chunks. prefix (map LogChunk chunks) (cq_reads p) \<and> is_str (concat chunks)
      \<and> list_ex (authenticated_line host) (complete_lines (concat chunks))
      \<and> list_all (\<lambda>l. \<not> host_key_mismatch_line l \<and> \<not> unknown_host_key_line host l)
          (complete_lines (concat chunks))"
    if "cn_classifier cn = Some (classifier_new host)" for host
  proof -
    from drain_authenticated [of "[]" host "cq_reads p"] p(2) that new_classifier_undecided
    obtain chunks where c: "prefix (map LogChunk chunks) (cq_reads p)"
      "classification (fold push chunks (classifier_new host)) = Some Authenticated"
      by (auto simp: admission_of_def)
    from authenticated_log [OF c(2)] classified_authenticated c(1) show ?thesis by blast
  qed
  have "\<exists>pa log'. su_persistent su = Some pa \<and> audit' = Some log'
        \<and> record_event (lb_json libs)
            (session_started (pa_session_id pa) (cn_identity cn) (ResolvedAuditTarget (cn_target_name cn))
              (cn_remote cn) (pa_started_at pa))
            (aa_write (ce_audit env)) (aa_flush (ce_audit env)) log = (Inr (), log')"
    if "audit = Some log" for log
    using pa that
    by (auto simp: persistent_audit_start_def su new_supervisor_def split: sum.splits prod.splits)
  with log p su show ?thesis
    by (auto simp: new_supervisor_def new_session_def session_state_of_def)
qed

lemma ssh_denial_error: "fst (ssh_denial k) \<notin> {AuditUnavailable, ManagerClosed, BackendUnavailable}"
  by (cases k) simp_all

text \<open>What is told after an outcome that is not an admission.\<close>

lemma refusal_told:
  assumes "refusal libs ans cn outcome audit = (reply, audit')"
  shows "(reply = None \<longleftrightarrow> outcome = ConnCallerDropped)
    \<and> (reply \<in> {Some SshHostKeyFailed, Some SshConnectionFailed, Some SshAuthenticationFailed, Some SshFailed} \<longrightarrow>
        (\<exists>k category reason.
          outcome \<in> {ConnRejected k} \<union> (if k = GenericFailure then {ConnChildExited} else {})
          \<and> ssh_denial k = (the reply, category, reason)
          \<and> record_access_denial libs ans audit (cn_identity cn) (cn_target_name cn)
              (cn_remote cn) category reason = (Inr (), audit')))"
proof -
  have rejected: ?thesis
    if "outcome \<in> {ConnRejected k} \<union> (if k = GenericFailure then {ConnChildExited} else {})" for k
  proof -
    obtain e category reason where d: "ssh_denial k = (e, category, reason)" by (metis prod_cases3)
    obtain r a where r: "record_access_denial libs ans audit (cn_identity cn) (cn_target_name cn)
      (cn_remote cn) category reason = (r, a)" by fastforce
    have told: "reply = Some (case r of Inl _ \<Rightarrow> AuditUnavailable | Inr _ \<Rightarrow> e)" "a = audit'"
      using assms that d r by (cases r; auto simp: refusal_def Let_def split: if_splits)+
    show ?thesis
    proof (cases r)
      case Inl
      with told that show ?thesis by (auto split: if_splits)
    next
      case (Inr u)
      with told that d r show ?thesis
        by (intro conjI impI exI [of _ k] exI [of _ category] exI [of _ reason]) (auto split: if_splits)
    qed
  qed
  show ?thesis
  proof (cases outcome)
    case (ConnRejected k)
    then show ?thesis using rejected [of k] by simp
  next
    case ConnChildExited
    then show ?thesis using rejected [of GenericFailure] by simp
  qed (use assms in \<open>auto simp: refusal_def Let_def split: if_splits\<close>)
qed

text \<open>C27: A connection that is refused gives its place back only after its process group was killed, reaped
  and seen gone; only a caller that went away is told nothing; and it is told an error of the SSH
  client only when the denial is on record.\<close>

theorem refused_connection:
  assumes "run_connecting libs env cn audit cap = ConnectingRefused reply events c audit' cap'"
    and "cn_child cn = new_child pid"
  shows "cap' = reservation_drop (cn_reservation cn) cap
    \<and> (\<exists>status. cleanup_proven (ce_cleanup env) status c)
    \<and> (reply = None \<longleftrightarrow>
        fst (connecting_select (cn_classifier cn) (ce_polls env) (cn_child cn)) = ConnCallerDropped)
    \<and> (reply \<in> {Some SshHostKeyFailed, Some SshConnectionFailed, Some SshAuthenticationFailed, Some SshFailed} \<longrightarrow>
        (\<exists>k category reason.
          fst (connecting_select (cn_classifier cn) (ce_polls env) (cn_child cn))
            \<in> {ConnRejected k} \<union> (if k = GenericFailure then {ConnChildExited} else {})
          \<and> ssh_denial k = (the reply, category, reason)
          \<and> record_access_denial libs (ce_audit env) audit (cn_identity cn) (cn_target_name cn)
              (cn_remote cn) category reason = (Inr (), audit')))"
proof -
  obtain outcome c0 where sel: "connecting_select (cn_classifier cn) (ce_polls env) (cn_child cn) = (outcome, c0)"
    by fastforce
  with connecting_select_inv [OF new_child_inv, of "cn_classifier cn" "ce_polls env" pid] assms(2)
  have c0: "child_inv c0" by simp
  have fate: "\<exists>status. told (from_status status) = (reply, events, audit')
      \<and> cleanup_proven (ce_cleanup env) status c \<and> cap' = reservation_drop (cn_reservation cn) cap"
    if "refuse_after_cleanup env cn c0 told cap = ConnectingRefused reply events c audit' cap'" for told
  proof -
    from that obtain status r where t: "terminate_until_proven (ce_cleanup env) False c0 = (Some (status, r), c)"
      "told (from_status status) = (reply, events, audit')" "cap' = reservation_drop (cn_reservation cn) cap"
      by (auto simp: refuse_after_cleanup_def split: prod.splits option.splits)
    from terminate_until_proven_result [OF c0 t(1)] t(2,3) show ?thesis by blast
  qed
  show ?thesis
  proof (cases "outcome = ConnAuthenticated")
    case True
    from assms(1) sel True have "(\<exists>status. cleanup_proven (ce_cleanup env) status c)
        \<and> cap' = reservation_drop (cn_reservation cn) cap
        \<and> reply \<in> {Some AuditUnavailable, Some BackendUnavailable}"
      by (auto simp: run_connecting_def recover_unwind_def persistent_audit_start_def dest!: fate
        split: prod.splits sum.splits option.splits)
    with sel True show ?thesis by auto
  next
    case False
    with assms(1) sel have f: "refuse_after_cleanup env cn c0
        (\<lambda>_. case refusal libs (ce_audit env) cn outcome audit of (r, a) \<Rightarrow> (r, [], a)) cap
        = ConnectingRefused reply events c audit' cap'"
      by (auto simp: run_connecting_def split: connecting_outcome.splits)
    from fate [OF this] obtain status where s: "refusal libs (ce_audit env) cn outcome audit = (reply, audit')"
      "cleanup_proven (ce_cleanup env) status c" "cap' = reservation_drop (cn_reservation cn) cap"
      by (auto split: prod.splits)
    from refusal_told [OF s(1)] s(2,3) sel show ?thesis by auto
  qed
qed


section \<open>The writer\<close>

text \<open>The terminal operation of a command, if it has one.\<close>

fun terminal_op_of :: "bool \<Rightarrow> session_command \<Rightarrow> terminal_op list" where
  "terminal_op_of read_only (Input b) = (if read_only \<or> b = [] then [] else [TermWrite b])"
| "terminal_op_of read_only (ResizeTo z) = [TermResize z]"

fun commands_of :: "writer_event list \<Rightarrow> session_command list" where
  "commands_of [] = []"
| "commands_of (WriterCommand cmd ans # es) = cmd # commands_of es"
| "commands_of (_ # es) = commands_of es"

lemma ops_read_only: "read_only \<Longrightarrow> TermWrite b \<notin> set (concat (map (terminal_op_of read_only) cmds))"
proof (induction cmds)
  case (Cons cmd cmds)
  then show ?case by (cases cmd) auto
qed simp

text \<open>The writer performs the operations of its commands in their order, none left out before the last
  one it performs; on a read-only terminal no input is ever written, and the handle refuses it too.\<close>

theorem terminal_input_faithful:
  "prefix (fst (write_input read_only es)) (concat (map (terminal_op_of read_only) (commands_of es)))
    \<and> (read_only \<longrightarrow> (\<forall>b. TermWrite b \<notin> set (fst (write_input read_only es))))
    \<and> (sn_read_only s \<longrightarrow> snd (session_write b s) = s \<and> (\<exists>e. fst (session_write b s) = Some (Inl e)))"
proof -
  have order: "prefix (fst (write_input read_only es)) (concat (map (terminal_op_of read_only) (commands_of es)))"
  proof (induction read_only es rule: write_input.induct)
    case (4 read_only b ans es)
    then show ?case
      by (cases ans) (auto split: prod.splits)
  next
    case (5 read_only z ans es)
    then show ?case
      by (cases ans) (auto split: prod.splits)
  qed simp_all
  have "\<forall>b. TermWrite b \<notin> set (fst (write_input read_only es))" if read_only
    using set_mono_prefix [OF order] ops_read_only [OF that] by blast
  moreover have "snd (session_write b s) = s \<and> (\<exists>e. fst (session_write b s) = Some (Inl e))"
    if "sn_read_only s"
    using that by (simp add: session_write_def)
  ultimately show ?thesis using order by blast
qed

section \<open>Witnesses\<close>

definition demo_answers :: audit_answers where
  "demo_answers = \<lparr>aa_fill = Inr ''r'', aa_now = 5, aa_write = Wrote 3, aa_flush = True\<rparr>"

definition demo_libs :: audit_libs where
  "demo_libs = \<lparr>lb_json = plain_json_lib, lb_encode = (\<lambda>b. b), lb_rfc3339 = (\<lambda>_. Some ''t'')\<rparr>"

definition demo_cleanup :: "cleanup_attempt list" where
  "demo_cleanup = [([ChildRunning], WaitTimedOut, KillpgFailed, []),
     ([ChildExited], WaitStatus \<lparr>ps_code = Some 0, ps_signal = None\<rparr>, GroupMissing, [])]"

definition demo_connecting :: connecting where
  "demo_connecting = \<lparr>cn_identity = Identity ''al'', cn_target_name = ''ssh'', cn_read_only = False,
     cn_limits = \<lparr>max_sessions = 2, max_sessions_per_user = 1, idle_timeout = 10, absolute_timeout = 100,
       session_requests_per_window = 1, session_request_window = 1, authentication_failures_per_window = 1,
       authentication_failure_window = 1\<rparr>,
     cn_reservation = Reservation (Some 0), cn_child = new_child 7,
     cn_classifier = Some (classifier_new ''h.ex''), cn_remote = None\<rparr>"

definition demo_connect_poll :: "log_read list \<Rightarrow> bool \<Rightarrow> connecting_poll" where
  "demo_connect_poll reads late = \<lparr>cq_close = CloseUnchanged, cq_caller_gone = False, cq_reads = reads,
     cq_child = ChildRunning, cq_deadline = late, cq_panics = False\<rparr>"

definition demo_connect_env :: "connecting_poll list \<Rightarrow> connect_env" where
  "demo_connect_env polls = \<lparr>ce_polls = polls, ce_cleanup = demo_cleanup, ce_session_fill = Inr ''s'',
     ce_audit = demo_answers, ce_handoff_panic = None, ce_end_audit = demo_answers, ce_created_at = 50,
     ce_event_times = (1, 2, 3)\<rparr>"

definition demo_env_ok :: connect_env where
  "demo_env_ok = demo_connect_env [demo_connect_poll [] False, demo_connect_poll [LogChunk (concat demo_log)] False]"

definition demo_env_late :: connect_env where
  "demo_env_late = demo_connect_env [demo_connect_poll [] False, demo_connect_poll [] True]"

definition demo_persistent :: persistent_audit where
  "demo_persistent = \<lparr>pa_session_id = SessionId ''s'', pa_started_at = AuditTimestamp ''t'', pa_remote = None\<rparr>"

abbreviation demo_audit_log :: audit_log where
  "demo_audit_log \<equiv> from_writer []"

definition demo_logged :: audit_log where
  "demo_logged = \<lparr>al_written = ''{}'' @ [newline], al_failed = False\<rparr>"

lemma demo_record: "record_event (lb_json demo_libs) e (aa_write demo_answers) (aa_flush demo_answers) demo_audit_log
    = (Inr (), demo_logged)"
  by (simp add: record_event_def audit_line_def demo_libs_def plain_json_lib_def demo_lib_def
    MAX_AUDIT_RECORD_BYTES_def demo_answers_def append_line_def from_writer_def demo_logged_def)

lemma demo_admission: "admission_of (cn_classifier demo_connecting) [LogChunk (concat demo_log)] = AdmissionClass Authenticated"
proof -
  have "classification (push (concat demo_log) (classifier_new ''h.ex'')) = Some Authenticated"
    using demo_log_classified [of "[concat demo_log]"] by simp
  moreover have "concat demo_log \<noteq> []" by (simp add: demo_log_def)
  ultimately show ?thesis
    by (simp add: admission_of_def demo_connecting_def del: concat_eq_Nil_conv)
qed

lemma demo_no_reads: "admission_of (cn_classifier demo_connecting) [] = AdmissionPending"
  by (simp add: admission_of_def demo_connecting_def)

definition demo_supervisor :: supervisor where
  "demo_supervisor = new_supervisor demo_env_ok demo_connecting (new_child 7) (Some demo_persistent)"

lemma demo_polled: "poll_exit_observed ChildRunning (new_child 7) = (Inr False, new_child 7)"
  by (simp add: poll_exit_observed_def new_child_def)

lemma demo_child: "cn_child demo_connecting = new_child 7"
  by (simp add: demo_connecting_def)

lemma demo_start:
  "run_connecting demo_libs demo_env_ok demo_connecting (Some demo_audit_log) cap =
     ConnectingHandedOver demo_supervisor (new_session demo_connecting) (Some demo_logged) cap"
proof -
  have "connecting_select (cn_classifier demo_connecting) (ce_polls demo_env_ok) (cn_child demo_connecting)
      = (ConnAuthenticated, new_child 7)"
    by (simp add: demo_env_ok_def demo_connect_env_def demo_child demo_connect_poll_def demo_no_reads
      demo_admission demo_polled)
  moreover have "persistent_audit_start demo_libs demo_env_ok demo_connecting (Some demo_audit_log)
      = (Inr (Some demo_persistent), Some demo_logged)"
    using demo_record [of "session_started (SessionId ''s'') (cn_identity demo_connecting)
      (ResolvedAuditTarget (cn_target_name demo_connecting)) (cn_remote demo_connecting) (AuditTimestamp ''t'')"]
    by (simp add: persistent_audit_start_def session_id_generate_def session_id_from_bytes_def
      from_system_time_def demo_libs_def demo_env_ok_def demo_connect_env_def demo_answers_def
      demo_persistent_def) (simp add: demo_connecting_def)
  ultimately show ?thesis
    by (simp add: run_connecting_def demo_supervisor_def) (simp add: demo_env_ok_def demo_connect_env_def)
qed

theorem admitted_connection_witness:
  "session_state_of (new_session demo_connecting) = SessionRunning
    \<and> (\<exists>pa. su_persistent demo_supervisor = Some pa)"
  using admitted_connection [OF demo_start [of undefined]] by auto


lemma demo_refused:
  "run_connecting demo_libs demo_env_late demo_connecting (Some demo_audit_log) cap =
     ConnectingRefused (Some SshConnectionFailed) []
       (snd (terminate_until_proven demo_cleanup False (new_child 7))) (Some demo_logged)
       (reservation_drop (Reservation (Some 0)) cap)"
proof -
  have sel: "connecting_select (cn_classifier demo_connecting) (ce_polls demo_env_late) (cn_child demo_connecting)
      = (ConnRejected ConnectionFailed, new_child 7)"
    by (simp add: demo_env_late_def demo_connect_env_def demo_child demo_connect_poll_def demo_no_reads
      demo_polled)
  have "record_access_denial demo_libs demo_answers (Some demo_audit_log) who tname remote category reason
      = (Inr (), Some demo_logged)" for who tname remote category reason
    using demo_record
    by (simp add: record_access_denial_def correlation_id_generate_def from_system_time_def demo_libs_def
      demo_answers_def)
  then have r: "refusal demo_libs (ce_audit demo_env_late) demo_connecting (ConnRejected ConnectionFailed)
      (Some demo_audit_log) = (Some SshConnectionFailed, Some demo_logged)"
    by (simp add: refusal_def Let_def demo_env_late_def demo_connect_env_def)
  obtain c where c: "terminate_until_proven demo_cleanup False (new_child 7)
      = (Some (\<lparr>ps_code = Some 0, ps_signal = None\<rparr>, True), c)"
    by (simp add: demo_cleanup_def terminate_def signal_phase_def new_child_def note_op_def
      poll_exit_observed_def child_wait_def process_group_absent_def)
  have "ce_cleanup demo_env_late = demo_cleanup" "cn_reservation demo_connecting = Reservation (Some 0)"
    by (simp_all add: demo_env_late_def demo_connect_env_def demo_connecting_def)
  with sel r c show ?thesis
    by (simp add: run_connecting_def refuse_after_cleanup_def)
qed

theorem refused_connection_witness:
  "\<exists>status c. cleanup_proven demo_cleanup status c"
proof -
  have "ce_cleanup demo_env_late = demo_cleanup" by (simp add: demo_env_late_def demo_connect_env_def)
  with refused_connection [OF demo_refused [of undefined] demo_child] show ?thesis by auto
qed

definition demo_poll :: "instant \<Rightarrow> activity_change \<Rightarrow> supervisor_poll" where
  "demo_poll now act = \<lparr>pl_now = now, pl_child = ChildRunning, pl_close = CloseUnchanged,
     pl_activity = act, pl_worker_ended = False, pl_settle = [], pl_panics = False\<rparr>"

definition demo_supervise_env :: "supervisor_poll list \<Rightarrow> supervise_env" where
  "demo_supervise_env polls = \<lparr>se_polls = polls, se_cleanup = demo_cleanup, se_audit = demo_answers,
     se_closed_at = 9\<rparr>"

definition demo_polls :: "supervisor_poll list" where
  "demo_polls = [demo_poll 55 (ActivityAt 55), demo_poll 62 ActivityUnchanged, demo_poll 65 ActivityUnchanged]"

lemma demo_supervised:
  "\<exists>c. supervise_child (cn_limits demo_connecting) 50 [demo_poll 55 (ActivityAt 55), demo_poll 62 ActivityUnchanged,
       demo_poll 65 ActivityUnchanged] (tl demo_cleanup) (new_child 7)
     = (Some (CloseTimeout IdleTimeout, ChildCode 0), c)"
proof -
  have limits: "idle_timeout (cn_limits demo_connecting) = 10" "absolute_timeout (cn_limits demo_connecting) = 100"
    by (simp_all add: demo_connecting_def)
  have "terminate_until_proven (tl demo_cleanup) False (new_child 7)
      = (Some (\<lparr>ps_code = Some 0, ps_signal = None\<rparr>, False),
         \<lparr>pc_process_group = 7, pc_exit_status = Some \<lparr>ps_code = Some 0, ps_signal = None\<rparr>,
          pc_cleanup_state = Reaped, pc_trace = [OpHup, OpObserve, OpKill, OpReap, OpProbe]\<rparr>)"
    by (simp add: demo_cleanup_def terminate_def signal_phase_def new_child_def note_op_def
      poll_exit_observed_def child_wait_def process_group_absent_def)
  then show ?thesis
    by (simp add: supervise_child_def limits demo_poll_def demo_polled from_status_def u8_of_i32_def)
qed

theorem timeout_reasons_sound_witness:
  "\<exists>before p later. [demo_poll 55 (ActivityAt 55), demo_poll 62 ActivityUnchanged, demo_poll 65 ActivityUnchanged]
      = before @ p # later \<and> last ((50::nat) # activities before) + 10 \<le> pl_now p"
proof -
  have no: "no_timeout_requested [demo_poll 55 (ActivityAt 55), demo_poll 62 ActivityUnchanged,
      demo_poll 65 ActivityUnchanged]"
    by (simp add: no_timeout_requested_def demo_poll_def)
  have limits: "idle_timeout (cn_limits demo_connecting) = 10" by (simp add: demo_connecting_def)
  from demo_supervised obtain c where s: "supervise_child (cn_limits demo_connecting) 50
      [demo_poll 55 (ActivityAt 55), demo_poll 62 ActivityUnchanged, demo_poll 65 ActivityUnchanged]
      (tl demo_cleanup) (new_child 7) = (Some (CloseTimeout IdleTimeout, ChildCode 0), c)" by blast
  from timeout_reasons_sound [OF no _ s] limits show ?thesis by (simp only: timeout_kind.case)
qed

theorem session_ends_once_witness:
  "\<exists>(su' :: supervisor) status. cleanup_proven demo_cleanup status (su_child su')
    \<and> map le_transition (su_events su')
        = [TransCreated, TransRunning, TransClosed CloseBackendFailure (Some (from_status status))]"
proof -
  let ?env = "demo_supervise_env [demo_poll 150 ActivityUnchanged]"
  have env: "se_cleanup ?env = demo_cleanup" "se_polls ?env = [demo_poll 150 ActivityUnchanged]"
    by (simp_all add: demo_supervise_env_def)
  have su: "su_limits demo_supervisor = cn_limits demo_connecting" "su_created_at demo_supervisor = 50"
    "su_child demo_supervisor = new_child 7" "absolute_timeout (cn_limits demo_connecting) = 100"
    by (simp_all add: demo_supervisor_def new_supervisor_def demo_env_ok_def demo_connect_env_def)
      (simp add: demo_connecting_def)
  obtain c where t: "terminate_until_proven demo_cleanup False (new_child 7)
      = (Some (\<lparr>ps_code = Some 0, ps_signal = None\<rparr>, True), c)"
    by (simp add: demo_cleanup_def terminate_def signal_phase_def new_child_def note_op_def
      poll_exit_observed_def child_wait_def process_group_absent_def)
  have "supervise_child (cn_limits demo_connecting) 50 [demo_poll 150 ActivityUnchanged] demo_cleanup (new_child 7)
      = (Some (CloseBackendFailure, ChildCode 0), c)"
    by (simp add: supervise_child_def su demo_poll_def t from_status_def u8_of_i32_def)
  moreover have "su_state demo_supervisor = started_machine"
    by (simp add: demo_supervisor_def new_supervisor_def)
  ultimately have "\<exists>su' audit' cap'. supervise demo_libs ?env demo_supervisor (Some demo_logged) undefined
      = SuperviseEnded su' audit' cap' \<and> sc_reason (the (su_final su')) = CloseBackendFailure"
    by (simp add: supervise_def env su complete_supervisor_def Let_def started_machine_close)
  then obtain su' audit' cap' where r: "supervise demo_libs ?env demo_supervisor (Some demo_logged) undefined
      = SuperviseEnded su' audit' cap'" and m: "sc_reason (the (su_final su')) = CloseBackendFailure"
    by blast
  from session_ends_once [OF demo_start [of undefined] demo_child r] m env(1) obtain status where
    "cleanup_proven demo_cleanup status (su_child su')"
    "map le_transition (su_events su')
      = [TransCreated, TransRunning, TransClosed CloseBackendFailure (Some (from_status status))]"
    unfolding Let_def by fastforce
  then show ?thesis by (intro exI conjI)
qed

theorem sessions_end_by_deadline_witness:
  "supervise demo_libs (demo_supervise_env [demo_poll 55 ActivityUnchanged, demo_poll 150 ActivityUnchanged])
     demo_supervisor None (capacity_new (cn_limits demo_connecting)) \<noteq> SuperviseWaiting demo_supervisor"
  by (rule sessions_end_by_deadline)
    (simp_all add: demo_supervise_env_def demo_poll_def demo_supervisor_def new_supervisor_def
      demo_env_ok_def demo_connect_env_def demo_connecting_def demo_cleanup_def new_child_def)

definition demo_writer :: "writer_event list" where
  "demo_writer = [WriterCommand (Input ''a'') IoDone, WriterCommand (ResizeTo \<lparr>cols = 80, rows = 24\<rparr>) IoDone]"

theorem terminal_input_faithful_witness:
  "fst (write_input True demo_writer) = [TermResize \<lparr>cols = 80, rows = 24\<rparr>]
    \<and> TermWrite ''a'' \<notin> set (fst (write_input True demo_writer))"
  using terminal_input_faithful [of True demo_writer undefined undefined]
  by (simp add: demo_writer_def)

end
