(* ===== verification/Session_Manager.thy ===== *)
theory Session_Manager
  imports Session_Safety
begin

text \<open>
  \<open>session.rs\<close>, the session manager: resolving a target to what is spawned, starting a session up to
  its registered supervisor, reserving a place, and the shutdown of all sessions. A start runs under
  the read side of the admission lock and the shutdown marks the manager under its write side; the
  protocol between them is a step relation over the starting callers, the supervisors and the
  shutting-down callers. Lemmas: when exactly a start succeeds and that a failed one leaves no
  lease, and that a shutdown that returns leaves no supervisor, now or later.
\<close>

section \<open>Backends\<close>

datatype backend_spawn = SpawnPty pty_target | SpawnSsh ssh_spawn_spec diagnostic_classifier

record backend_start =
  bs_target_name :: string
  bs_read_only :: bool
  bs_spawn :: backend_spawn

text \<open>What the operating system answers during a start, with the clock and the audit record.\<close>

record start_env =
  be_now :: instant
  be_build_recheck :: "path \<Rightarrow> file_snapshot option"
  be_log_os :: client_log_os
  be_spawn_recheck :: "path \<Rightarrow> file_snapshot option"
  be_child_os :: spawn_os
  be_audit :: audit_answers

text \<open>The backend's spawn; None is the panic of \<open>spawn_ssh\<close>.\<close>

definition backend_spawned ::
  "start_env \<Rightarrow> backend_spawn \<Rightarrow> resize \<Rightarrow> (backend_error + pty_child \<times> diagnostic_classifier option) option" where
  "backend_spawned env target dims =
     (case target of
        SpawnPty t \<Rightarrow> Some (map_ok (\<lambda>child. (child, None)) (spawn (be_child_os env) t dims))
      | SpawnSsh spec classifier \<Rightarrow>
          map_option (\<lambda>r. map_ok (\<lambda>child. (child, Some classifier)) (map_err (\<lambda>_. BackendFailed) r))
            (ssh_spawn (be_spawn_recheck env) (be_child_os env) spec dims))"

section \<open>The manager\<close>

record registry =
  rg_next_id :: u64
  rg_shutting_down :: bool
  rg_active :: "(u64, close_cell) hash_map"

definition registry_new :: registry where
  "registry_new = \<lparr>rg_next_id = 0, rg_shutting_down = False, rg_active = []\<rparr>"

record session_manager =
  mg_limits :: limits
  mg_capacity :: capacity
  mg_targets :: target_allowlist
  mg_prepared :: prepared_ssh_targets
  mg_registry :: registry
  mg_audit :: "audit_log option"

definition manager_build :: "limits \<Rightarrow> target_allowlist \<Rightarrow> audit_log option \<Rightarrow> session_manager" where
  "manager_build l targets audit =
     \<lparr>mg_limits = l, mg_capacity = capacity_new l, mg_targets = targets, mg_prepared = [],
      mg_registry = registry_new, mg_audit = audit\<rparr>"

definition with_prepared_ssh :: "prepared_ssh_targets \<Rightarrow> session_manager \<Rightarrow> session_manager" where
  "with_prepared_ssh prepared m = m\<lparr>mg_prepared := prepared\<rparr>"

definition resolve_backend_target ::
  "start_env \<Rightarrow> session_manager \<Rightarrow> identity \<Rightarrow> string \<Rightarrow> session_error + backend_start" where
  "resolve_backend_target env m who tname =
     (case allowlist_resolve (mg_targets m) tname of
        Inl _ \<Rightarrow> Inl TargetUnavailable
      | Inr (PtyTarget t) \<Rightarrow>
          Inr \<lparr>bs_target_name = pt_name t, bs_read_only = pt_read_only t, bs_spawn = SpawnPty t\<rparr>
      | Inr (SshTarget _) \<Rightarrow>
          and_then (ok_or TargetUnavailable (hm_get (mg_prepared m) tname)) (\<lambda>prepared.
          and_then (map_err (\<lambda>e. if e = PolicyDenied then SshPolicyDenied else SpawnUnavailable)
            (spawn_spec_build (be_build_recheck env) (be_log_os env) prepared (identity_str who))) (\<lambda>spec.
          Inr \<lparr>bs_target_name = pr_name prepared, bs_read_only = pr_read_only prepared,
               bs_spawn = SpawnSsh spec (diagnostic_classifier_of prepared)\<rparr>)))"

text \<open>\<open>record_denial\<close> and \<open>record_backend_resolution_denial\<close>.\<close>

definition record_denial ::
  "audit_libs \<Rightarrow> audit_answers \<Rightarrow> identity \<Rightarrow> string \<Rightarrow> socket_addr option \<Rightarrow> denial_category \<Rightarrow>
   denial_reason \<Rightarrow> session_manager \<Rightarrow> (unit + unit) \<times> session_manager" where
  "record_denial libs ans who tname remote category reason m =
     (case record_access_denial libs ans (mg_audit m) who tname remote category reason of
        (r, audit) \<Rightarrow> (r, m\<lparr>mg_audit := audit\<rparr>))"

definition record_backend_resolution_denial ::
  "audit_libs \<Rightarrow> audit_answers \<Rightarrow> identity \<Rightarrow> string \<Rightarrow> socket_addr option \<Rightarrow> session_error \<Rightarrow>
   session_manager \<Rightarrow> (unit + unit) \<times> session_manager" where
  "record_backend_resolution_denial libs ans who tname remote error m =
     (if error = SshPolicyDenied then record_denial libs ans who tname remote CatTarget DenySshUserPolicyDenied m
      else if error = SpawnUnavailable then record_denial libs ans who tname remote CatTarget DenySessionUnavailable m
      else (Inr (), m))"

definition drop_reservation :: "reservation \<Rightarrow> session_manager \<Rightarrow> session_manager" where
  "drop_reservation r m = m\<lparr>mg_capacity := reservation_drop r (mg_capacity m)\<rparr>"

definition register_supervisor :: "registry \<Rightarrow> u64 \<times> registry" where
  "register_supervisor r =
     (rg_next_id r, r\<lparr>rg_next_id := rg_next_id r + 1, rg_active := hm_insert (rg_next_id r) None (rg_active r)\<rparr>)"

definition supervisor_completion :: "u64 \<Rightarrow> registry \<Rightarrow> registry" where
  "supervisor_completion i r = r\<lparr>rg_active := hm_remove i (rg_active r)\<rparr>"

text \<open>\<open>start_admitted\<close> up to the registered task; None in the first component is a panic, which drops
  the reservation like every other way out.\<close>

type_synonym start_result = "(session_error + u64 \<times> connecting) option \<times> session_manager"

definition start_admitted ::
  "audit_libs \<Rightarrow> start_env \<Rightarrow> identity \<Rightarrow> backend_start \<Rightarrow> resize \<Rightarrow> reservation \<Rightarrow> socket_addr option \<Rightarrow>
   session_manager \<Rightarrow> start_result" where
  "start_admitted libs env who start dims r remote m =
     (case backend_spawned env (bs_spawn start) dims of
        None \<Rightarrow> (None, drop_reservation r m)
      | Some (Inl _) \<Rightarrow>
          (case record_denial libs (be_audit env) who (bs_target_name start) remote CatTarget
             DenySessionUnavailable m of
             (recorded, m') \<Rightarrow>
               (Some (Inl (if is_ok recorded then SpawnUnavailable else AuditUnavailable)), drop_reservation r m'))
      | Some (Inr (child, classifier)) \<Rightarrow>
          (case register_supervisor (mg_registry m) of
             (i, registry) \<Rightarrow>
               (Some (Inr (i, \<lparr>cn_identity = who, cn_target_name = bs_target_name start,
                    cn_read_only = bs_read_only start, cn_limits = mg_limits m, cn_reservation = r,
                    cn_child = child, cn_classifier = classifier, cn_remote = remote\<rparr>)),
                m\<lparr>mg_registry := registry\<rparr>)))"

text \<open>The common part of both ways to start: resolve, deny or go on.\<close>

definition start_resolved ::
  "audit_libs \<Rightarrow> start_env \<Rightarrow> identity \<Rightarrow> string \<Rightarrow> resize \<Rightarrow> reservation \<Rightarrow> socket_addr option \<Rightarrow>
   session_manager \<Rightarrow> start_result" where
  "start_resolved libs env who tname dims r remote m =
     (case resolve_backend_target env m who tname of
        Inl error \<Rightarrow>
          (case record_backend_resolution_denial libs (be_audit env) who tname remote error m of
             (recorded, m') \<Rightarrow>
               (Some (Inl (if is_ok recorded then error else AuditUnavailable)), drop_reservation r m'))
      | Inr start \<Rightarrow> start_admitted libs env who start dims r remote m)"

definition start_with_remote ::
  "audit_libs \<Rightarrow> start_env \<Rightarrow> identity \<Rightarrow> string \<Rightarrow> resize \<Rightarrow> socket_addr option \<Rightarrow>
   session_manager \<Rightarrow> start_result" where
  "start_with_remote libs env who tname dims remote m =
     (if rg_shutting_down (mg_registry m) then (Some (Inl ManagerClosed), m)
      else (case validate_resize dims of
          Inl e \<Rightarrow> (Some (Inl e), m)
        | Inr _ \<Rightarrow>
            (case reserve (be_now env) who (mg_capacity m) of
               (Inl e, cap) \<Rightarrow> (Some (Inl e), m\<lparr>mg_capacity := cap\<rparr>)
             | (Inr r, cap) \<Rightarrow> start_resolved libs env who tname dims r remote (m\<lparr>mg_capacity := cap\<rparr>))))"

text \<open>\<open>start_reserved_with_remote\<close> owns the reservation it is given and drops it on every early return.\<close>

definition start_reserved_with_remote ::
  "audit_libs \<Rightarrow> start_env \<Rightarrow> reservation \<Rightarrow> identity \<Rightarrow> string \<Rightarrow> resize \<Rightarrow> socket_addr option \<Rightarrow>
   session_manager \<Rightarrow> start_result" where
  "start_reserved_with_remote libs env r who tname dims remote m =
     (if rg_shutting_down (mg_registry m) then (Some (Inl ManagerClosed), drop_reservation r m)
      else (case validate_resize dims of
          Inl e \<Rightarrow> (Some (Inl e), drop_reservation r m)
        | Inr _ \<Rightarrow>
            (case activate (be_now env) r who (mg_capacity m) of
               (Inl e, cap) \<Rightarrow> (Some (Inl e), m\<lparr>mg_capacity := cap\<rparr>)
             | (Inr r', cap) \<Rightarrow> start_resolved libs env who tname dims r' remote (m\<lparr>mg_capacity := cap\<rparr>))))"

definition manager_reserve ::
  "instant \<Rightarrow> instant \<Rightarrow> identity \<Rightarrow> instant \<Rightarrow> session_manager \<Rightarrow> (session_error + reservation) \<times> session_manager" where
  "manager_reserve now1 now2 who expires_at m =
     (if rg_shutting_down (mg_registry m) then (Inl ManagerClosed, m)
      else (case reserve_pending now1 now2 who expires_at (mg_capacity m) of
          (r, cap) \<Rightarrow> (r, m\<lparr>mg_capacity := cap\<rparr>)))"

section \<open>Shutdown\<close>

text \<open>Under the write guard: mark the manager, close the pending leases, and take the senders of the
  active supervisors.\<close>

definition shutdown_mark :: "registry \<Rightarrow> u64 list \<times> registry" where
  "shutdown_mark r = (map fst (rg_active r), r\<lparr>rg_shutting_down := True\<rparr>)"

text \<open>A close request through a sender reaches its supervisor if that is still active.\<close>

definition request_close_of :: "u64 \<Rightarrow> session_close_reason \<Rightarrow> registry \<Rightarrow> registry" where
  "request_close_of i reason r =
     (case hm_get (rg_active r) i of
        None \<Rightarrow> r
      | Some c \<Rightarrow> r\<lparr>rg_active := hm_insert i (request_close c reason) (rg_active r)\<rparr>)"

text \<open>A caller of a start holds the read side of the admission lock while it is entered or admitted. A
  caller of \<open>shutdown\<close> takes the shutdown mutex, then the write side, marks, releases the write side,
  requests the closes one by one, and waits for the registry to be empty.\<close>

datatype start_phase = StartIdle | StartEntered | StartAdmitted | StartRegistered | StartRefused

datatype shutdown_phase =
  ShutIdle | ShutLocked | ShutWriting | ShutMarked "u64 list" | ShutClosing "u64 list" | ShutWaiting | ShutDone

text \<open>The ghost fields are the tasks that run, by their registry number, and how many ever started.\<close>

record shutdown_system =
  ss_registry :: registry
  ss_capacity :: capacity
  ss_start :: "nat \<Rightarrow> start_phase"
  ss_shut :: "nat \<Rightarrow> shutdown_phase"
  ss_tasks :: "u64 list"
  ss_starts :: nat

definition holds_read :: "start_phase \<Rightarrow> bool" where
  "holds_read p \<longleftrightarrow> p \<in> {StartEntered, StartAdmitted}"

fun holds_write :: "shutdown_phase \<Rightarrow> bool" where
  "holds_write ShutWriting = True"
| "holds_write (ShutMarked _) = True"
| "holds_write _ = False"

definition in_shutdown :: "shutdown_phase \<Rightarrow> bool" where
  "in_shutdown p \<longleftrightarrow> p \<noteq> ShutIdle \<and> p \<noteq> ShutDone"

inductive shutdown_step :: "shutdown_system \<Rightarrow> shutdown_system \<Rightarrow> bool" where
  start_enter: "ss_start s i = StartIdle \<Longrightarrow> (\<forall>j. \<not> holds_write (ss_shut s j)) \<Longrightarrow>
    shutdown_step s (s\<lparr>ss_start := (ss_start s)(i := StartEntered)\<rparr>)"
| start_refuse: "ss_start s i = StartEntered \<Longrightarrow> rg_shutting_down (ss_registry s) \<Longrightarrow>
    shutdown_step s (s\<lparr>ss_start := (ss_start s)(i := StartRefused)\<rparr>)"
| start_admit: "ss_start s i = StartEntered \<Longrightarrow> \<not> rg_shutting_down (ss_registry s) \<Longrightarrow>
    shutdown_step s (s\<lparr>ss_start := (ss_start s)(i := StartAdmitted)\<rparr>)"
| start_fail: "ss_start s i = StartAdmitted \<Longrightarrow>
    shutdown_step s (s\<lparr>ss_start := (ss_start s)(i := StartRefused)\<rparr>)"
| start_register: "ss_start s i = StartAdmitted \<Longrightarrow> register_supervisor (ss_registry s) = (n, r) \<Longrightarrow>
    shutdown_step s (s\<lparr>ss_start := (ss_start s)(i := StartRegistered), ss_registry := r,
      ss_tasks := n # ss_tasks s, ss_starts := Suc (ss_starts s)\<rparr>)"
| handle_close: "reason \<noteq> CloseManagerShutdown \<Longrightarrow>
    shutdown_step s (s\<lparr>ss_registry := request_close_of n reason (ss_registry s)\<rparr>)"
| task_end: "n \<in> set (ss_tasks s) \<Longrightarrow>
    shutdown_step s (s\<lparr>ss_tasks := remove1 n (ss_tasks s),
      ss_registry := supervisor_completion n (ss_registry s)\<rparr>)"
| capacity_use: "shutdown_step s (s\<lparr>ss_capacity := capacity_step (ss_capacity s) op\<rparr>)"
| shutdown_lock: "ss_shut s j = ShutIdle \<Longrightarrow> (\<forall>k. \<not> in_shutdown (ss_shut s k)) \<Longrightarrow>
    shutdown_step s (s\<lparr>ss_shut := (ss_shut s)(j := ShutLocked)\<rparr>)"
| shutdown_write: "ss_shut s j = ShutLocked \<Longrightarrow> (\<forall>i. \<not> holds_read (ss_start s i)) \<Longrightarrow>
    shutdown_step s (s\<lparr>ss_shut := (ss_shut s)(j := ShutWriting)\<rparr>)"
| shutdown_mark: "ss_shut s j = ShutWriting \<Longrightarrow> shutdown_mark (ss_registry s) = (ns, r) \<Longrightarrow>
    shutdown_step s (s\<lparr>ss_shut := (ss_shut s)(j := ShutMarked ns), ss_registry := r,
      ss_capacity := close_pending (ss_capacity s)\<rparr>)"
| shutdown_release: "ss_shut s j = ShutMarked ns \<Longrightarrow>
    shutdown_step s (s\<lparr>ss_shut := (ss_shut s)(j := ShutClosing ns)\<rparr>)"
| shutdown_close: "ss_shut s j = ShutClosing (n # ns) \<Longrightarrow>
    shutdown_step s (s\<lparr>ss_shut := (ss_shut s)(j := ShutClosing ns),
      ss_registry := request_close_of n CloseManagerShutdown (ss_registry s)\<rparr>)"
| shutdown_wait: "ss_shut s j = ShutClosing [] \<Longrightarrow>
    shutdown_step s (s\<lparr>ss_shut := (ss_shut s)(j := ShutWaiting)\<rparr>)"
| shutdown_return: "ss_shut s j = ShutWaiting \<Longrightarrow> rg_active (ss_registry s) = [] \<Longrightarrow>
    shutdown_step s (s\<lparr>ss_shut := (ss_shut s)(j := ShutDone)\<rparr>)"

definition shutdown_start :: "limits \<Rightarrow> shutdown_system" where
  "shutdown_start l = \<lparr>ss_registry = registry_new, ss_capacity = capacity_new l,
     ss_start = (\<lambda>_. StartIdle), ss_shut = (\<lambda>_. ShutIdle), ss_tasks = [], ss_starts = 0\<rparr>"

inductive shutdown_reachable :: "limits \<Rightarrow> shutdown_system \<Rightarrow> bool" for l where
  initial: "shutdown_reachable l (shutdown_start l)"
| further: "shutdown_reachable l s \<Longrightarrow> shutdown_step s s' \<Longrightarrow> shutdown_reachable l s'"


subsection \<open>The invariant of shutdowns\<close>

inductive_cases shutdown_stepE: "shutdown_step s s'"

fun marked :: "shutdown_phase \<Rightarrow> bool" where
  "marked ShutIdle = False"
| "marked ShutLocked = False"
| "marked ShutWriting = False"
| "marked _ = True"

text \<open>The supervisors a shutdown has still to ask to close.\<close>

fun still_to_close :: "shutdown_phase \<Rightarrow> u64 set option" where
  "still_to_close (ShutMarked ns) = Some (set ns)"
| "still_to_close (ShutClosing ns) = Some (set ns)"
| "still_to_close ShutWaiting = Some {}"
| "still_to_close _ = None"

definition admission_inv :: "shutdown_system \<Rightarrow> bool" where
  "admission_inv s \<longleftrightarrow>
     (\<forall>j. holds_write (ss_shut s j) \<longrightarrow> (\<forall>i. \<not> holds_read (ss_start s i)))
     \<and> (\<forall>j. marked (ss_shut s j) \<longrightarrow> rg_shutting_down (ss_registry s) \<and> cp_closed (ss_capacity s))
     \<and> (rg_shutting_down (ss_registry s) \<longrightarrow> (\<forall>i. ss_start s i \<noteq> StartAdmitted))"

definition closing_inv :: "shutdown_system \<Rightarrow> bool" where
  "closing_inv s \<longleftrightarrow> hm_wf (rg_active (ss_registry s))
     \<and> (\<forall>j N n. still_to_close (ss_shut s j) = Some N \<longrightarrow>
          hm_get (rg_active (ss_registry s)) n = Some None \<longrightarrow> n \<in> N)
     \<and> (\<forall>j. ss_shut s j = ShutDone \<longrightarrow> rg_active (ss_registry s) = [])"

definition tasks_inv :: "shutdown_system \<Rightarrow> bool" where
  "tasks_inv s \<longleftrightarrow> hm_wf (rg_active (ss_registry s)) \<and> (ss_starts s < 2 ^ 64 \<longrightarrow>
     rg_next_id (ss_registry s) = of_nat (ss_starts s) \<and> distinct (ss_tasks s)
     \<and> (\<forall>n. n \<in> set (ss_tasks s) \<longleftrightarrow> hm_get (rg_active (ss_registry s)) n \<noteq> None)
     \<and> (\<forall>n \<in> set (ss_tasks s). unat n < ss_starts s))"

lemma request_close_of_simps [simp]:
  "rg_next_id (request_close_of n reason r) = rg_next_id r"
  "rg_shutting_down (request_close_of n reason r) = rg_shutting_down r"
  "hm_wf (rg_active r) \<Longrightarrow> hm_wf (rg_active (request_close_of n reason r))"
  "hm_get (rg_active (request_close_of n reason r)) k =
     (if k = n then map_option (\<lambda>c. request_close c reason) (hm_get (rg_active r) k) else hm_get (rg_active r) k)"
  "rg_active r = [] \<Longrightarrow> rg_active (request_close_of n reason r) = []"
  by (auto simp: request_close_of_def hm.get_put hm.wf_put split: option.splits)

lemma completion_simps [simp]:
  "rg_next_id (supervisor_completion n r) = rg_next_id r"
  "rg_shutting_down (supervisor_completion n r) = rg_shutting_down r"
  "hm_wf (rg_active r) \<Longrightarrow> hm_wf (rg_active (supervisor_completion n r))"
  "hm_get (rg_active (supervisor_completion n r)) k = (if k = n then None else hm_get (rg_active r) k)"
  "rg_active r = [] \<Longrightarrow> rg_active (supervisor_completion n r) = []"
  by (simp_all add: supervisor_completion_def hm.wf_del) (simp_all add: hm_get_def hm_remove_def delete_conv')

lemma hm_keys: "hm_get m n \<noteq> None \<longleftrightarrow> n \<in> set (map fst m)"
  using hm_get_None [of m n] by auto

lemma admission_step: "shutdown_step s s' \<Longrightarrow> admission_inv s \<Longrightarrow> admission_inv s'"
proof (induction rule: shutdown_step.induct)
  case (capacity_use s op)
  then show ?case
    using capacity_step_closed [of "ss_capacity s" op] by (auto simp: admission_inv_def)
next
  case (shutdown_mark s j ns r)
  then have "\<not> holds_read (ss_start s i)" for i
    unfolding admission_inv_def by (metis holds_write.simps(1))
  with shutdown_mark show ?case
    by (auto simp: admission_inv_def shutdown_mark_def close_pending_def holds_read_def)
next
  case (shutdown_release s j ns)
  then have m: "marked (ss_shut s j)" by simp
  have "rg_shutting_down (ss_registry s)" "cp_closed (ss_capacity s)"
    using m shutdown_release unfolding admission_inv_def by blast+
  moreover have "\<forall>i. \<not> holds_read (ss_start s i)"
    using shutdown_release unfolding admission_inv_def by (metis holds_write.simps(2))
  ultimately show ?case using shutdown_release by (auto simp: admission_inv_def split: if_splits)
next
  case (shutdown_close s j n ns)
  then have m: "marked (ss_shut s j)" by simp
  have "rg_shutting_down (ss_registry s)" "cp_closed (ss_capacity s)"
    using m shutdown_close unfolding admission_inv_def by blast+
  with shutdown_close show ?case by (auto simp: admission_inv_def split: if_splits)
next
  case (shutdown_wait s j)
  then have m: "marked (ss_shut s j)" by simp
  have "rg_shutting_down (ss_registry s)" "cp_closed (ss_capacity s)"
    using m shutdown_wait unfolding admission_inv_def by blast+
  with shutdown_wait show ?case by (auto simp: admission_inv_def split: if_splits)
next
  case (shutdown_return s j)
  then have m: "marked (ss_shut s j)" by simp
  have "rg_shutting_down (ss_registry s)" "cp_closed (ss_capacity s)"
    using m shutdown_return unfolding admission_inv_def by blast+
  with shutdown_return show ?case by (auto simp: admission_inv_def split: if_splits)
qed (auto simp: admission_inv_def register_supervisor_def holds_read_def split: if_splits)

lemma closing_step:
  "shutdown_step s s' \<Longrightarrow> admission_inv s \<Longrightarrow> closing_inv s \<Longrightarrow> closing_inv s'"
proof (induction rule: shutdown_step.induct)
  case (start_register s i n r)
  then have flag: "\<not> rg_shutting_down (ss_registry s)" by (auto simp: admission_inv_def)
  have "\<not> marked (ss_shut s j)" for j
    using start_register flag by (auto simp: admission_inv_def)
  from this have "still_to_close (ss_shut s j) = None \<and> ss_shut s j \<noteq> ShutDone" for j
    using \<open>\<not> marked (ss_shut s j)\<close> by (cases "ss_shut s j") auto
  with start_register show ?case
    by (auto simp: closing_inv_def register_supervisor_def hm.wf_put)
next
  case (handle_close reason s n)
  then show ?case
    by (auto simp: closing_inv_def request_close_def split: if_splits)
next
  case (shutdown_mark s j ns r)
  then show ?case
    using hm_keys [of "rg_active (ss_registry s)"]
    by (fastforce simp: closing_inv_def shutdown_mark_def split: if_splits)
next
  case (shutdown_close s j n ns)
  then have "still_to_close (ss_shut s j) = Some (insert n (set ns))" by simp
  with shutdown_close have "hm_get (rg_active (ss_registry s)) k = Some None \<longrightarrow> k \<in> insert n (set ns)" for k
    unfolding closing_inv_def by blast
  with shutdown_close show ?case
    by (auto simp: closing_inv_def request_close_def split: if_splits)
next
  case (shutdown_release s j ns)
  then have "still_to_close (ss_shut s j) = Some (set ns)" by simp
  with shutdown_release have "hm_get (rg_active (ss_registry s)) k = Some None \<longrightarrow> k \<in> set ns" for k
    unfolding closing_inv_def by blast
  with shutdown_release show ?case by (auto simp: closing_inv_def split: if_splits)
next
  case (shutdown_wait s j)
  then have "still_to_close (ss_shut s j) = Some {}" by simp
  with shutdown_wait have "hm_get (rg_active (ss_registry s)) k \<noteq> Some None" for k
    unfolding closing_inv_def by blast
  with shutdown_wait show ?case by (auto simp: closing_inv_def split: if_splits)
qed (auto simp: closing_inv_def split: if_splits)

lemma tasks_step:
  "shutdown_step s s' \<Longrightarrow> tasks_inv s \<Longrightarrow> tasks_inv s'"
proof (induction rule: shutdown_step.induct)
  case (start_register s i n r)
  then have r: "n = rg_next_id (ss_registry s)" "rg_active r = hm_insert n None (rg_active (ss_registry s))"
    "rg_next_id r = n + 1"
    by (auto simp: register_supervisor_def)
  have "unat n = ss_starts s" if "Suc (ss_starts s) < 2 ^ 64"
    using start_register(3) that r(1) by (simp add: tasks_inv_def unat_of_nat take_bit_nat_eq_self)
  moreover have "n \<notin> set (ss_tasks s)" if "Suc (ss_starts s) < 2 ^ 64"
    using start_register(3) calculation [OF that] that unfolding tasks_inv_def
    by (metis Suc_lessD less_irrefl)
  ultimately show ?case
    using start_register(3) r
    by (auto simp: tasks_inv_def hm.wf_put hm.get_put split: if_splits intro: less_SucI)
qed (auto simp: tasks_inv_def shutdown_mark_def split: if_splits dest: in_set_remove1 notin_set_remove1)


lemma shutdown_reachable_inv:
  "shutdown_reachable l s \<Longrightarrow> admission_inv s \<and> closing_inv s \<and> tasks_inv s"
proof (induction rule: shutdown_reachable.induct)
  case initial
  show ?case
    by (simp add: shutdown_start_def registry_new_def admission_inv_def closing_inv_def tasks_inv_def)
next
  case (further s s')
  then show ?case using admission_step closing_step tasks_step by blast
qed

text \<open>C8: When a call of \<open>shutdown\<close> has returned, in whatever way starts, ends, close requests and
  other calls were interleaved (below 2^64 sessions), no session task runs, no start is admitted or
  will be, and the lease table is closed; while it waits, every supervisor that is left has been
  asked to close.\<close>

theorem shutdown_drains:
  assumes "shutdown_reachable l s" and "ss_starts s < 2 ^ 64"
  shows "(ss_shut s j = ShutDone \<longrightarrow> ss_tasks s = [] \<and> rg_active (ss_registry s) = []
      \<and> rg_shutting_down (ss_registry s) \<and> (\<forall>i. ss_start s i \<noteq> StartAdmitted) \<and> cp_closed (ss_capacity s))
    \<and> (ss_shut s j = ShutWaiting \<longrightarrow> (\<forall>n \<in> set (ss_tasks s). \<exists>reason.
        hm_get (rg_active (ss_registry s)) n = Some (Some reason)))"
proof -
  from shutdown_reachable_inv [OF assms(1)] have a: "admission_inv s" and c: "closing_inv s" and t: "tasks_inv s"
    by simp_all
  from t assms(2) have tasks: "n \<in> set (ss_tasks s) \<longleftrightarrow> hm_get (rg_active (ss_registry s)) n \<noteq> None" for n
    by (simp add: tasks_inv_def)
  have "ss_tasks s = []" if "rg_active (ss_registry s) = []"
    using tasks that by (cases "ss_tasks s") auto
  moreover have "rg_active (ss_registry s) = []" if "ss_shut s j = ShutDone"
    using c that unfolding closing_inv_def by blast
  moreover have "rg_shutting_down (ss_registry s) \<and> cp_closed (ss_capacity s)
      \<and> (\<forall>i. ss_start s i \<noteq> StartAdmitted)" if "ss_shut s j = ShutDone"
    using a that unfolding admission_inv_def by (metis marked.simps(7))
  moreover have "\<exists>reason. hm_get (rg_active (ss_registry s)) n = Some (Some reason)"
    if "ss_shut s j = ShutWaiting" "n \<in> set (ss_tasks s)" for n
  proof -
    from that(1) have "still_to_close (ss_shut s j) = Some {}" by simp
    with c have "hm_get (rg_active (ss_registry s)) n \<noteq> Some None" unfolding closing_inv_def by blast
    with tasks that(2) show ?thesis by (cases "hm_get (rg_active (ss_registry s)) n") auto
  qed
  ultimately show ?thesis by blast
qed

section \<open>Starting\<close>

text \<open>What a start does with the leases: an unsuccessful one leaves none that was not there before.\<close>

definition no_new_lease :: "capacity \<Rightarrow> capacity \<Rightarrow> bool" where
  "no_new_lease cap cap' \<longleftrightarrow>
     (\<forall>i l. hm_get (cp_leases cap') i = Some l \<longrightarrow> hm_get (cp_leases cap) i = Some l)"

lemma start_resolved_frame:
  "case start_resolved libs env who tname dims r remote m of
     (Some (Inr (i, cn)), m') \<Rightarrow> mg_capacity m' = mg_capacity m \<and> cn_reservation cn = r
       \<and> cn_identity cn = who \<and> i = rg_next_id (mg_registry m)
       \<and> rg_active (mg_registry m') = hm_insert i None (rg_active (mg_registry m)) \<and> mg_audit m' = mg_audit m
   | (_, m') \<Rightarrow> mg_capacity m' = reservation_drop r (mg_capacity m) \<and> mg_registry m' = mg_registry m"
  by (auto simp: start_resolved_def start_admitted_def record_backend_resolution_denial_def
    record_denial_def drop_reservation_def register_supervisor_def
    split: sum.splits option.splits prod.splits)

lemma reserve_drop_subset:
  assumes "reserve now who cap = (Inr r, cap')" "hm_wf (cp_leases cap)"
  shows "no_new_lease cap (reservation_drop r cap')"
  using assms
  by (auto simp: no_new_lease_def reserve_def reserve_with_state_def Let_def purge_expired_leases_def
    hm.get_del hm.wf_put hm.wf_retain hm.get_retain_Some split: if_splits)


lemma resolve_capacity [simp]:
  "resolve_backend_target env (m\<lparr>mg_capacity := cap\<rparr>) who tname = resolve_backend_target env m who tname"
  by (simp add: resolve_backend_target_def split: sum.split target.split)

lemma drop_subset: "hm_wf (cp_leases cap) \<Longrightarrow> no_new_lease cap (reservation_drop r cap)"
  by (cases "(r, cap)" rule: reservation_drop.cases) (auto simp: no_new_lease_def hm.get_del split: if_splits)

lemma purge_subset: "hm_wf (cp_leases cap) \<Longrightarrow> no_new_lease cap (purge_expired_leases now cap)"
  by (auto simp: no_new_lease_def purge_expired_leases_def hm.get_retain_Some)

lemma reserve_refused_subset:
  "hm_wf (cp_leases cap) \<Longrightarrow> reserve now who cap = (Inl e, cap') \<Longrightarrow> no_new_lease cap cap'"
  using purge_subset [of cap now]
  by (auto simp: reserve_def reserve_with_state_def Let_def split: if_splits)

text \<open>A start succeeds only while the manager is open, with valid dimensions, a place, a target
  that resolves for this identity and a process that was spawned for it; it then owns exactly that
  place and is registered. Every other way out, a panic of the spawn included, registers nothing and
  leaves no lease that was not there before.\<close>

theorem start_exact:
  assumes wf: "hm_wf (cp_leases (mg_capacity m))"
    and start: "start_with_remote libs env who tname dims remote m = (result, m')"
  shows "case result of
      Some (Inr (i, cn)) \<Rightarrow>
        \<not> rg_shutting_down (mg_registry m) \<and> validate_resize dims = Inr ()
        \<and> reserve (be_now env) who (mg_capacity m) = (Inr (cn_reservation cn), mg_capacity m')
        \<and> (\<exists>b. resolve_backend_target env m who tname = Inr b
            \<and> backend_spawned env (bs_spawn b) dims = Some (Inr (cn_child cn, cn_classifier cn))
            \<and> cn_target_name cn = bs_target_name b \<and> cn_read_only cn = bs_read_only b)
        \<and> cn_identity cn = who \<and> cn_remote cn = remote \<and> cn_limits cn = mg_limits m
        \<and> rg_active (mg_registry m') = hm_insert i None (rg_active (mg_registry m))
    | _ \<Rightarrow> no_new_lease (mg_capacity m) (mg_capacity m') \<and> mg_registry m' = mg_registry m"
proof (cases "rg_shutting_down (mg_registry m) \<or> validate_resize dims \<noteq> Inr ()")
  case True
  with start show ?thesis
    by (cases "validate_resize dims") (auto simp: start_with_remote_def no_new_lease_def split: if_splits)
next
  case False
  obtain r0 cap where res: "reserve (be_now env) who (mg_capacity m) = (r0, cap)" by fastforce
  show ?thesis
  proof (cases r0)
    case (Inl e)
    with start False res reserve_refused_subset [OF wf] show ?thesis
      by (auto simp: start_with_remote_def)
  next
    case (Inr r)
    let ?m = "m\<lparr>mg_capacity := cap\<rparr>"
    from start False res Inr have s: "start_resolved libs env who tname dims r remote ?m = (result, m')"
      by (simp add: start_with_remote_def)
    note frame = start_resolved_frame [where libs = libs and env = env and who = who and tname = tname
      and dims = dims and r = r and remote = remote and m = ?m, unfolded s]
    show ?thesis
    proof (cases "\<exists>i cn. result = Some (Inr (i, cn))")
      case True
      then obtain i cn where i: "result = Some (Inr (i, cn))" by blast
      from s i have "\<exists>b. resolve_backend_target env m who tname = Inr b
            \<and> backend_spawned env (bs_spawn b) dims = Some (Inr (cn_child cn, cn_classifier cn))
            \<and> cn_target_name cn = bs_target_name b \<and> cn_read_only cn = bs_read_only b
            \<and> cn_remote cn = remote \<and> cn_limits cn = mg_limits m"
        by (auto simp: start_resolved_def start_admitted_def split: sum.splits option.splits prod.splits)
      with frame i False res Inr show ?thesis by auto
    next
      case no: False
      from reserve_drop_subset [OF res [unfolded Inr] wf] frame no show ?thesis
        by (auto split: option.splits sum.splits prod.splits)
    qed
  qed
qed

text \<open>A start with a reservation uses it up: unless the session starts, its lease is gone afterwards and no
  other lease has appeared.\<close>

lemma start_reserved_result:
  assumes wf: "hm_wf (cp_leases (mg_capacity m))"
    and start: "start_reserved_with_remote libs env (Reservation (Some k)) who tname dims remote m = (result, m')"
  shows "case result of
      Some (Inr (i, cn)) \<Rightarrow> cn_reservation cn = Reservation (Some k)
        \<and> hm_get (cp_leases (mg_capacity m')) k = Some \<lparr>ls_identity = who, ls_state = Live\<rparr>
        \<and> \<not> rg_shutting_down (mg_registry m) \<and> validate_resize dims = Inr ()
        \<and> no_new_lease (mg_capacity m) (reservation_drop (cn_reservation cn) (mg_capacity m'))
        \<and> mg_audit m' = mg_audit m
    | _ \<Rightarrow> no_new_lease (mg_capacity m) (mg_capacity m') \<and> mg_registry m' = mg_registry m
        \<and> hm_get (cp_leases (mg_capacity m')) k = None"
proof -
  let ?r = "Reservation (Some k)"
  have gone: "hm_get (cp_leases (reservation_drop ?r c)) k = None" if "hm_wf (cp_leases c)" for c
    using that by (simp add: hm.get_del)
  show ?thesis
  proof (cases "rg_shutting_down (mg_registry m) \<or> validate_resize dims \<noteq> Inr ()")
    case True
    with start drop_subset [OF wf, of ?r] gone [OF wf] show ?thesis
      by (cases "validate_resize dims") (auto simp: start_reserved_with_remote_def drop_reservation_def split: if_splits)
  next
    case False
    let ?p = "purge_expired_leases (be_now env) (mg_capacity m)"
    have wfp: "hm_wf (cp_leases ?p)" using wf by (simp add: purge_expired_leases_def hm.wf_retain)
    obtain r0 cap where act: "activate (be_now env) ?r who (mg_capacity m) = (r0, cap)" by fastforce
    have drop: "no_new_lease (mg_capacity m) (reservation_drop ?r ?p)"
      using purge_subset [OF wf, of "be_now env"] drop_subset [OF wfp, of ?r]
      by (auto simp: no_new_lease_def)
    show ?thesis
    proof (cases r0)
      case (Inl e)
      with act have "cap = reservation_drop ?r ?p"
        by (auto simp: activate_def Let_def split: if_splits option.splits)
      with start False act Inl drop gone [OF wfp] show ?thesis
        by (auto simp: start_reserved_with_remote_def)
    next
      case (Inr r)
      with act obtain l where r: "r = ?r" and l: "hm_get (cp_leases ?p) k = Some l" "ls_identity l = who"
        and cap: "cap = ?p\<lparr>cp_leases := hm_insert k (l\<lparr>ls_state := Live\<rparr>) (cp_leases ?p)\<rparr>"
        by (auto simp: activate_def Let_def split: if_splits option.splits)
      let ?m = "m\<lparr>mg_capacity := cap\<rparr>"
      from start False act Inr r have s: "start_resolved libs env who tname dims ?r remote ?m = (result, m')"
        by (simp add: start_reserved_with_remote_def)
      note frame = start_resolved_frame [where libs = libs and env = env and who = who and tname = tname
        and dims = dims and r = ?r and remote = remote and m = ?m, unfolded s]
      have "no_new_lease (mg_capacity m) (reservation_drop ?r cap)"
        "hm_get (cp_leases (reservation_drop ?r cap)) k = None"
        using drop wfp by (auto simp: no_new_lease_def cap hm.get_del hm.wf_put split: if_splits)
      moreover have "l\<lparr>ls_state := Live\<rparr> = \<lparr>ls_identity = who, ls_state = Live\<rparr>"
        using l(2) by (cases l) simp
      ultimately show ?thesis
        using frame False cap by (auto split: option.splits sum.splits prod.splits)
    qed
  qed
qed


section \<open>Witnesses\<close>

definition demo_manager :: session_manager where
  "demo_manager = manager_build (cn_limits demo_connecting) demo_allowlist None"

definition demo_child_os :: spawn_os where
  "demo_child_os = \<lparr>os_open_pty = True, os_resize = (\<lambda>_ _. True), os_spawn = (\<lambda>_. Some (Some 7))\<rparr>"

definition demo_start_env :: start_env where
  "demo_start_env = \<lparr>be_now = 5, be_build_recheck = (\<lambda>_. None), be_log_os = demo_log_os,
     be_spawn_recheck = (\<lambda>_. None), be_child_os = demo_child_os, be_audit = demo_answers\<rparr>"

lemma demo_manager_simps:
  "mg_registry demo_manager = registry_new" "mg_targets demo_manager = demo_allowlist"
  "mg_capacity demo_manager = \<lparr>cp_max_sessions = 2, cp_max_sessions_per_identity = 1, cp_next_id = 0,
     cp_closed = False, cp_leases = []\<rparr>"
  by (simp_all add: demo_manager_def manager_build_def capacity_new_def demo_connecting_def)

lemma demo_validated_dims: "validate_resize \<lparr>cols = 80, rows = 24\<rparr> = Inr ()"
  by (simp add: validate_resize_def resize_new_def dimension_ok_def MAX_DIMENSION_def)

lemma demo_resolved:
  "resolve_backend_target demo_start_env demo_manager who ''pty''
    = Inr \<lparr>bs_target_name = ''pty'', bs_read_only = True, bs_spawn = SpawnPty demo_pty\<rparr>"
  by (simp add: resolve_backend_target_def demo_manager_simps allowlist_resolve_def demo_allowlist_def
    hm_get_def) (simp add: demo_pty_def)

lemma demo_spawned:
  "backend_spawned demo_start_env (SpawnPty demo_pty) \<lparr>cols = 80, rows = 24\<rparr> = Some (Inr (new_child 7, None))"
  by (simp add: backend_spawned_def spawn_def open_terminal_def demo_start_env_def demo_child_os_def
    del: and_then_eq_Inr map_ok_eq_Inr)

lemma demo_started:
  "\<exists>m' cn. start_with_remote demo_libs demo_start_env (Identity ''al'') ''pty'' \<lparr>cols = 80, rows = 24\<rparr> None demo_manager
     = (Some (Inr (0, cn)), m') \<and> cn_child cn = new_child 7"
  by (simp add: start_with_remote_def demo_manager_simps registry_new_def demo_validated_dims
    reserve_def reserve_with_state_def Let_def purge_expired_leases_def hm_retain_def hm_len_def
    lease_count_def hm_values_def start_resolved_def demo_resolved start_admitted_def demo_spawned
    register_supervisor_def)

theorem start_exact_witness:
  "\<exists>(m' :: session_manager) (cn :: connecting). rg_active (mg_registry m') = [(0, None)] \<and> cn_identity cn = Identity ''al''
    \<and> cn_child cn = new_child 7 \<and> reserve 5 (Identity ''al'') (mg_capacity demo_manager)
        = (Inr (cn_reservation cn), mg_capacity m')"
proof -
  from demo_started obtain m' cn where s: "start_with_remote demo_libs demo_start_env (Identity ''al'') ''pty''
      \<lparr>cols = 80, rows = 24\<rparr> None demo_manager = (Some (Inr (0, cn)), m')" "cn_child cn = new_child 7" by blast
  have "hm_wf (cp_leases (mg_capacity demo_manager))" by (simp add: demo_manager_simps)
  from start_exact [OF this s(1)] s(2) have "rg_active (mg_registry m') = [(0, None)]"
    "cn_identity cn = Identity ''al''" "cn_child cn = new_child 7"
    "reserve 5 (Identity ''al'') (mg_capacity demo_manager) = (Inr (cn_reservation cn), mg_capacity m')"
    by (simp_all add: demo_manager_simps registry_new_def hm_insert_def) (simp add: demo_start_env_def)
  then show ?thesis by (intro exI conjI)
qed

definition demo_reserved_manager :: session_manager where
  "demo_reserved_manager = demo_manager\<lparr>mg_capacity := (mg_capacity demo_manager)\<lparr>
     cp_leases := [(0, \<lparr>ls_identity = Identity ''al'', ls_state = Pending 9\<rparr>)]\<rparr>\<rparr>"

definition demo_shutdown :: shutdown_system where
  "demo_shutdown = (shutdown_start (cn_limits demo_connecting))\<lparr>
     ss_registry := registry_new\<lparr>rg_shutting_down := True\<rparr>,
     ss_capacity := close_pending (capacity_new (cn_limits demo_connecting)),
     ss_shut := (\<lambda>_. ShutIdle)(0 := ShutDone)\<rparr>"

lemma demo_shutdown_reachable: "shutdown_reachable (cn_limits demo_connecting) demo_shutdown"
proof -
  let ?l = "cn_limits demo_connecting"
  let ?z = "shutdown_start ?l"
  let ?f = "\<lambda>p. (\<lambda>_. ShutIdle)(0 := p)"
  let ?m = "?z\<lparr>ss_registry := registry_new\<lparr>rg_shutting_down := True\<rparr>,
     ss_capacity := close_pending (capacity_new ?l)\<rparr>"
  note further = shutdown_reachable.further and z = shutdown_start_def [of ?l]
  have 1: "shutdown_reachable ?l (?z\<lparr>ss_shut := ?f ShutLocked\<rparr>)"
    using further [OF initial shutdown_lock [of ?z 0]] by (simp add: z in_shutdown_def)
  have 2: "shutdown_reachable ?l (?z\<lparr>ss_shut := ?f ShutWriting\<rparr>)"
    using further [OF 1 shutdown_write [of _ 0]] by (simp add: z holds_read_def)
  have 3: "shutdown_reachable ?l (?m\<lparr>ss_shut := ?f (ShutMarked [])\<rparr>)"
    using further [OF 2 shutdown_step.shutdown_mark [of _ 0 "[]" "registry_new\<lparr>rg_shutting_down := True\<rparr>"]]
    by (simp add: z shutdown_mark_def registry_new_def)
  have 4: "shutdown_reachable ?l (?m\<lparr>ss_shut := ?f (ShutClosing [])\<rparr>)"
    using further [OF 3 shutdown_release [of _ 0]] by (simp add: z)
  have 5: "shutdown_reachable ?l (?m\<lparr>ss_shut := ?f ShutWaiting\<rparr>)"
    using further [OF 4 shutdown_wait [of _ 0]] by (simp add: z)
  show ?thesis
    using further [OF 5 shutdown_return [of _ 0]] by (simp add: z demo_shutdown_def registry_new_def)
qed

theorem shutdown_drains_witness:
  "ss_shut demo_shutdown 0 = ShutDone \<and> ss_tasks demo_shutdown = [] \<and> cp_closed (ss_capacity demo_shutdown)"
  using shutdown_drains [OF demo_shutdown_reachable, of 0]
  by (simp add: demo_shutdown_def shutdown_start_def)

end
