(* ===== verification/Ticket.thy ===== *)
theory Ticket
  imports Capacity "HOL-Library.Multiset"
begin

text \<open>
  \<open>ticket.rs\<close>: the single-use tickets that connect the HTTP request that creates a session with the
  WebSocket that attaches to it. A ticket store maps tokens to an identity, a target, a deadline and
  the session reservation. Rust drops a reservation wherever its owner goes out of scope, so every
  operation also returns the reservations it drops. The URL-safe base64 encoder is a parameter, the
  random generator and the clock are the results of the calls made. Lemmas: tickets are redeemed at
  most once, by the identity and for the target they were issued for, before their deadline; the
  store is bounded; and reservations are neither lost nor duplicated.
\<close>

definition TOKEN_BYTES :: nat where "TOKEN_BYTES = 32"
definition TOKEN_LENGTH :: nat where "TOKEN_LENGTH = 43"

datatype ticket_error = Malformed | Unknown | Expired | WrongIdentity | AtCapacity | Generation

record ticket_entry =
  tk_identity :: identity
  tk_target :: target
  tk_expires_at :: instant
  tk_reservation :: reservation

record ticket_store =
  ts_ttl :: duration
  ts_capacity :: nat
  ts_entries :: "(string, ticket_entry) hash_map"

text \<open>\<open>TicketGrant\<close>: the parts \<open>into_parts\<close> returns.\<close>

type_synonym ticket_grant = "target \<times> reservation"

definition ticket_store_new :: "duration \<Rightarrow> nat \<Rightarrow> ticket_store" where
  "ticket_store_new ttl cap = \<lparr>ts_ttl = ttl, ts_capacity = cap, ts_entries = []\<rparr>"

definition next_expiry :: "instant \<Rightarrow> ticket_store \<Rightarrow> instant" where
  "next_expiry now st = now + ts_ttl st"

text \<open>\<open>OsTicketGenerator::generate\<close>, from the result of filling the token with random bytes.\<close>

definition os_generate :: "unit + bytes \<Rightarrow> ticket_error + bytes" where
  "os_generate fill = map_err (\<lambda>_. Generation) fill"

definition held :: "(string, ticket_entry) hash_map \<Rightarrow> reservation list" where
  "held m = map tk_reservation (hm_values m)"

text \<open>The attempts of \<open>issue_at\<close> from number \<open>i\<close> on: \<open>gen i\<close> is what the generator returns and \<open>clk i\<close>
  the clock after it.\<close>

fun issue_attempts ::
  "(bytes \<Rightarrow> string) \<Rightarrow> (nat \<Rightarrow> ticket_error + bytes) \<Rightarrow> (nat \<Rightarrow> instant) \<Rightarrow> ticket_entry \<Rightarrow>
   nat \<Rightarrow> nat \<Rightarrow> (string, ticket_entry) hash_map \<Rightarrow>
   (ticket_error + string) \<times> (string, ticket_entry) hash_map" where
  "issue_attempts encode gen clk e i 0 m = (Inl Generation, m)"
| "issue_attempts encode gen clk e i (Suc k) m =
     (case gen i of
        Inl err \<Rightarrow> (Inl err, m)
      | Inr raw \<Rightarrow>
          if tk_expires_at e \<le> clk i then (Inl Expired, m)
          else (let token = encode raw in
            if hm_get m token = None then (Inr token, hm_insert token e m)
            else issue_attempts encode gen clk e (Suc i) k m))"

definition issue_at ::
  "(bytes \<Rightarrow> string) \<Rightarrow> (nat \<Rightarrow> ticket_error + bytes) \<Rightarrow> (nat \<Rightarrow> instant) \<Rightarrow> instant \<Rightarrow>
   ticket_entry \<Rightarrow> ticket_store \<Rightarrow> (ticket_error + string) \<times> reservation list \<times> ticket_store" where
  "issue_at encode gen clk now e st =
     (if tk_expires_at e \<le> now then (Inl Expired, [tk_reservation e], st)
      else
        (let m = hm_retain (\<lambda>_ x. tk_expires_at x > now) (ts_entries st);
             stale = held (hm_retain (\<lambda>_ x. \<not> tk_expires_at x > now) (ts_entries st)) in
         if hm_len m \<ge> ts_capacity st
           then (Inl AtCapacity, stale @ [tk_reservation e], st\<lparr>ts_entries := m\<rparr>)
         else (case issue_attempts encode gen clk e 0 4 m of
             (Inl err, m') \<Rightarrow> (Inl err, stale @ [tk_reservation e], st\<lparr>ts_entries := m'\<rparr>)
           | (Inr token, m') \<Rightarrow> (Inr token, stale, st\<lparr>ts_entries := m'\<rparr>))))"

definition issue ::
  "(bytes \<Rightarrow> string) \<Rightarrow> (nat \<Rightarrow> ticket_error + bytes) \<Rightarrow> (nat \<Rightarrow> instant) \<Rightarrow> instant \<Rightarrow> instant \<Rightarrow>
   identity \<Rightarrow> target \<Rightarrow> reservation \<Rightarrow> ticket_store \<Rightarrow>
   (ticket_error + string) \<times> reservation list \<times> ticket_store" where
  "issue encode gen clk now0 now who tgt r st =
     issue_at encode gen clk now
       \<lparr>tk_identity = who, tk_target = tgt, tk_expires_at = next_expiry now0 st, tk_reservation = r\<rparr> st"

definition token_byte :: "char \<Rightarrow> bool" where
  "token_byte b \<longleftrightarrow> is_ascii_alphanumeric b \<or> b = CHR ''-'' \<or> b = CHR ''_''"

definition redeem ::
  "string \<Rightarrow> identity \<Rightarrow> instant \<Rightarrow> ticket_store \<Rightarrow>
   (ticket_error + ticket_grant) \<times> reservation list \<times> ticket_store" where
  "redeem ticket who now st =
     (if length ticket \<noteq> TOKEN_LENGTH \<or> \<not> list_all token_byte ticket then (Inl Malformed, [], st)
      else (case hm_get (ts_entries st) ticket of
          None \<Rightarrow> (Inl Unknown, [], st)
        | Some e \<Rightarrow>
            if tk_expires_at e \<le> now
              then (Inl Expired, [tk_reservation e], st\<lparr>ts_entries := hm_remove ticket (ts_entries st)\<rparr>)
            else if tk_identity e \<noteq> who then (Inl WrongIdentity, [], st)
            else (Inr (tk_target e, tk_reservation e), [],
                  st\<lparr>ts_entries := hm_remove ticket (ts_entries st)\<rparr>)))"

definition ticket_clear :: "ticket_store \<Rightarrow> reservation list \<times> ticket_store" where
  "ticket_clear st = (held (ts_entries st), st\<lparr>ts_entries := []\<rparr>)"

subsection \<open>Issuing\<close>

lemma issue_attempts_result:
  assumes "issue_attempts encode gen clk e i k m = (res, m')"
  shows "case res of
      Inr token \<Rightarrow> hm_get m token = None \<and> m' = hm_insert token e m
        \<and> (\<exists>j < i + k. \<exists>raw. gen j = Inr raw \<and> token = encode raw \<and> clk j < tk_expires_at e)
    | Inl err \<Rightarrow> m' = m"
  using assms
proof (induction k arbitrary: i)
  case (Suc k)
  show ?case
  proof (cases "gen i")
    case (Inr raw)
    show ?thesis
    proof (cases "tk_expires_at e \<le> clk i \<or> hm_get m (encode raw) = None")
      case True
      with Suc.prems Inr show ?thesis
        by (auto simp: Let_def split: if_splits intro!: exI [of _ i])
    next
      case False
      with Suc.prems Inr have "issue_attempts encode gen clk e (Suc i) k m = (res, m')"
        by (auto simp: Let_def)
      from Suc.IH [OF this] show ?thesis by (cases res) auto
    qed
  next
    case (Inl err)
    with Suc.prems have "res = Inl err" "m' = m" by simp_all
    then show ?thesis by simp
  qed
qed auto

text \<open>Removing, splitting and adding entries, on the multiset of the reservations held.\<close>

abbreviation holds :: "(string, ticket_entry) hash_map \<Rightarrow> reservation multiset" where
  "holds m \<equiv> mset (held m)"

lemma holds_split:
  "holds m = holds (hm_retain P m) + holds (hm_retain (\<lambda>k v. \<not> P k v) m)"
  by (induction m) (auto simp: held_def hm_retain_def hm_values_def)

lemma holds_insert:
  "hm_get m token = None \<Longrightarrow> holds (hm_insert token e m) = add_mset (tk_reservation e) (holds m)"
  by (induction m) (auto simp: held_def hm_insert_def hm_values_def hm_get_def split: if_splits)

lemma holds_remove:
  "hm_wf m \<Longrightarrow> hm_get m token = Some e \<Longrightarrow> holds m = add_mset (tk_reservation e) (holds (hm_remove token m))"
  by (induction m)
    (auto simp: held_def hm_remove_def hm_values_def hm_get_def hm_wf_def delete_id split: if_splits)

subsection \<open>Runs of the store\<close>

datatype ticket_op =
    OpIssue "nat \<Rightarrow> ticket_error + bytes" "nat \<Rightarrow> instant" instant ticket_entry
  | OpRedeem string identity instant
  | OpClear

datatype ticket_event =
    Issued string ticket_entry
  | Granted string identity instant target reservation

text \<open>The store and, newest first, what it issued and granted.\<close>

record ticket_trace =
  tr_store :: ticket_store
  tr_log :: "ticket_event list"

fun ticket_step :: "(bytes \<Rightarrow> string) \<Rightarrow> ticket_trace \<Rightarrow> ticket_op \<Rightarrow> ticket_trace" where
  "ticket_step encode s (OpIssue gen clk now e) =
     (case issue_at encode gen clk now e (tr_store s) of
        (Inl _, _, st) \<Rightarrow> s\<lparr>tr_store := st\<rparr>
      | (Inr token, _, st) \<Rightarrow> \<lparr>tr_store = st, tr_log = Issued token e # tr_log s\<rparr>)"
| "ticket_step encode s (OpRedeem ticket who now) =
     (case redeem ticket who now (tr_store s) of
        (Inl _, _, st) \<Rightarrow> s\<lparr>tr_store := st\<rparr>
      | (Inr (tgt, r), _, st) \<Rightarrow> \<lparr>tr_store = st, tr_log = Granted ticket who now tgt r # tr_log s\<rparr>)"
| "ticket_step encode s OpClear = s\<lparr>tr_store := snd (ticket_clear (tr_store s))\<rparr>"

fun event_token :: "ticket_event \<Rightarrow> string" where
  "event_token (Issued token e) = token"
| "event_token (Granted token who now tgt r) = token"

definition latest :: "string \<Rightarrow> ticket_event list \<Rightarrow> ticket_event option" where
  "latest token log = find (\<lambda>ev. event_token ev = token) log"

text \<open>A log in which every grant follows, as the latest event of its token, an issue to the same
  identity for the same target with the same reservation and a deadline still ahead.\<close>

fun log_ok :: "ticket_event list \<Rightarrow> bool" where
  "log_ok [] = True"
| "log_ok (Issued token e # log) = log_ok log"
| "log_ok (Granted token who now tgt r # log) =
     ((case latest token log of
         Some (Issued _ e) \<Rightarrow> tk_identity e = who \<and> tk_target e = tgt \<and> tk_reservation e = r
           \<and> now < tk_expires_at e
       | _ \<Rightarrow> False) \<and> log_ok log)"

definition ticket_inv :: "ticket_trace \<Rightarrow> bool" where
  "ticket_inv s \<longleftrightarrow> hm_wf (ts_entries (tr_store s))
     \<and> hm_len (ts_entries (tr_store s)) \<le> ts_capacity (tr_store s)
     \<and> log_ok (tr_log s)
     \<and> (\<forall>token e. hm_get (ts_entries (tr_store s)) token = Some e
          \<longrightarrow> latest token (tr_log s) = Some (Issued token e))"

lemma latest_Cons: "latest token (ev # log) = (if event_token ev = token then Some ev else latest token log)"
  by (simp add: latest_def)

lemma ticket_inv_fewer:
  assumes "ticket_inv s" "hm_wf m" "hm_len m \<le> hm_len (ts_entries (tr_store s))"
    "\<And>t e. hm_get m t = Some e \<Longrightarrow> hm_get (ts_entries (tr_store s)) t = Some e"
  shows "ticket_inv (s\<lparr>tr_store := (tr_store s)\<lparr>ts_entries := m\<rparr>\<rparr>)"
  using assms by (auto simp: ticket_inv_def)

lemma ticket_inv_retain:
  assumes "ticket_inv s"
  shows "ticket_inv (s\<lparr>tr_store := (tr_store s)\<lparr>ts_entries := hm_retain P (ts_entries (tr_store s))\<rparr>\<rparr>)"
  using assms by (intro ticket_inv_fewer) (auto simp: ticket_inv_def hm.wf_retain hm.len_retain hm.get_retain_Some)

lemma issue_step_inv:
  assumes inv: "ticket_inv s"
  shows "ticket_inv (ticket_step encode s (OpIssue gen clk now e))"
proof (cases "tk_expires_at e \<le> now")
  case True
  with inv show ?thesis by (simp add: issue_at_def)
next
  case False
  define m where "m = hm_retain (\<lambda>_ x. tk_expires_at x > now) (ts_entries (tr_store s))"
  have m: "ticket_inv (s\<lparr>tr_store := (tr_store s)\<lparr>ts_entries := m\<rparr>\<rparr>)"
    unfolding m_def by (rule ticket_inv_retain [OF inv])
  show ?thesis
  proof (cases "hm_len m \<ge> ts_capacity (tr_store s)")
    case True
    with False m show ?thesis by (simp add: issue_at_def Let_def m_def [symmetric])
  next
    case room: False
    obtain res m' where a: "issue_attempts encode gen clk e 0 4 m = (res, m')" by fastforce
    show ?thesis
    proof (cases res)
      case (Inl err)
      with issue_attempts_result [OF a] a False room m show ?thesis
        by (simp add: issue_at_def Let_def m_def [symmetric])
    next
      case (Inr token)
      with issue_attempts_result [OF a] have "m' = hm_insert token e m" by simp
      with Inr a False room m show ?thesis
        by (auto simp: issue_at_def Let_def m_def [symmetric] ticket_inv_def hm.wf_put hm.bounded_put
          latest_Cons split: if_splits)
    qed
  qed
qed

lemma redeem_step_inv:
  assumes inv: "ticket_inv s"
  shows "ticket_inv (ticket_step encode s (OpRedeem ticket who now))"
proof (cases "hm_get (ts_entries (tr_store s)) ticket")
  case None
  with inv show ?thesis by (simp add: redeem_def)
next
  case (Some e)
  let ?m = "hm_remove ticket (ts_entries (tr_store s))"
  have wf: "hm_wf (ts_entries (tr_store s))" using inv by (simp add: ticket_inv_def)
  have less: "ticket_inv (s\<lparr>tr_store := (tr_store s)\<lparr>ts_entries := ?m\<rparr>\<rparr>)"
    using inv wf by (intro ticket_inv_fewer) (auto simp: hm.wf_del hm.len_del hm.get_del split: if_splits)
  have "latest ticket (tr_log s) = Some (Issued ticket e)"
    using inv Some by (simp add: ticket_inv_def)
  with less wf have "ticket_inv \<lparr>tr_store = (tr_store s)\<lparr>ts_entries := ?m\<rparr>,
      tr_log = Granted ticket who now (tk_target e) (tk_reservation e) # tr_log s\<rparr>"
    if "tk_identity e = who" "now < tk_expires_at e"
    using that by (auto simp: ticket_inv_def latest_Cons hm.get_del split: if_splits)
  with inv less Some show ?thesis by (auto simp: redeem_def)
qed

lemma ticket_step_inv: "ticket_inv s \<Longrightarrow> ticket_inv (ticket_step encode s op)"
proof (cases op)
  case OpClear
  assume "ticket_inv s"
  with OpClear show ?thesis by (auto simp: ticket_inv_def ticket_clear_def)
qed (simp_all add: issue_step_inv redeem_step_inv del: ticket_step.simps)

interpretation tickets: safety_system "ticket_step encode" ticket_inv for encode
  by unfold_locales (rule ticket_step_inv)

lemma ticket_inv_new: "ticket_inv \<lparr>tr_store = ticket_store_new ttl cap, tr_log = []\<rparr>"
  by (simp add: ticket_inv_def ticket_store_new_def)

lemma issue_at_config: "issue_at encode gen clk now e st = (res, d, st') \<Longrightarrow> ts_capacity st' = ts_capacity st"
  by (auto simp: issue_at_def Let_def split: if_splits prod.splits sum.splits)

lemma ticket_step_config:
  "ts_capacity (tr_store (ticket_step encode s op)) = ts_capacity (tr_store s)"
  by (cases op) (auto simp: redeem_def ticket_clear_def dest!: issue_at_config
    split: prod.splits sum.splits option.splits)

lemma ticket_run_config:
  "ts_capacity (tr_store (run (ticket_step encode) s ops)) = ts_capacity (tr_store s)"
  by (induction ops arbitrary: s) (simp_all add: ticket_step_config)

subsection \<open>Properties\<close>

text \<open>C12: Tickets are single-use and bound: in every run of a fresh store each grant answers, as the
  very next event of its token, an issue of that token to the same identity for the same target and
  reservation, before the deadline; and the store never exceeds its capacity.\<close>

theorem tickets_single_use:
  "let s = run (ticket_step encode) \<lparr>tr_store = ticket_store_new ttl cap, tr_log = []\<rparr> ops in
     log_ok (tr_log s) \<and> hm_len (ts_entries (tr_store s)) \<le> cap"
proof -
  have "ticket_inv (run (ticket_step encode) \<lparr>tr_store = ticket_store_new ttl cap, tr_log = []\<rparr> ops)"
    by (rule tickets.run_inv [OF ticket_inv_new])
  then show ?thesis
    unfolding Let_def ticket_inv_def ticket_run_config by (simp add: ticket_store_new_def)
qed

text \<open>No reservation is lost or duplicated: what an issue is given and what the store held are
  exactly what it holds afterwards and what the call dropped; a redemption grants, drops or keeps
  every reservation it finds; and \<open>clear\<close> drops them all.\<close>

theorem reservations_conserved:
  assumes "hm_wf (ts_entries st)"
  shows "(case issue_at encode gen clk now e st of (res, dropped, st') \<Rightarrow>
      add_mset (tk_reservation e) (holds (ts_entries st)) = holds (ts_entries st') + mset dropped)
    \<and> (case redeem ticket who now st of (res, dropped, st') \<Rightarrow>
      holds (ts_entries st) = holds (ts_entries st') + mset dropped
        + (case res of Inl _ \<Rightarrow> {#} | Inr (tgt, r) \<Rightarrow> {#r#}))
    \<and> (case ticket_clear st of (dropped, st') \<Rightarrow>
      holds (ts_entries st) = mset dropped \<and> ts_entries st' = [])"
proof (intro conjI)
  define m where "m = hm_retain (\<lambda>_ x. tk_expires_at x > now) (ts_entries st)"
  define old where "old = held (hm_retain (\<lambda>_ x. \<not> tk_expires_at x > now) (ts_entries st))"
  have split: "holds (ts_entries st) = holds m + mset old"
    unfolding m_def old_def by (rule holds_split)
  obtain res m' where a: "issue_attempts encode gen clk e 0 4 m = (res, m')" by fastforce
  have "holds m' = (case res of Inl _ \<Rightarrow> holds m | Inr _ \<Rightarrow> add_mset (tk_reservation e) (holds m))"
    using issue_attempts_result [OF a] by (auto simp: holds_insert split: sum.splits)
  with split a show "case issue_at encode gen clk now e st of (res, dropped, st') \<Rightarrow>
      add_mset (tk_reservation e) (holds (ts_entries st)) = holds (ts_entries st') + mset dropped"
    by (simp add: issue_at_def Let_def m_def [symmetric] old_def [symmetric] split: sum.splits)
  show "case redeem ticket who now st of (res, dropped, st') \<Rightarrow>
      holds (ts_entries st) = holds (ts_entries st') + mset dropped
        + (case res of Inl _ \<Rightarrow> {#} | Inr (tgt, r) \<Rightarrow> {#r#})"
    using holds_remove [OF assms] by (simp add: redeem_def split: option.splits)
  show "case ticket_clear st of (dropped, st') \<Rightarrow>
      holds (ts_entries st) = mset dropped \<and> ts_entries st' = []"
    by (simp add: ticket_clear_def)
qed

text \<open>A redemption succeeds iff the text has the shape of a token, the store holds it, its
  deadline is ahead and the identity is the one it was issued to; only the redeemed or an expired
  entry leaves the store, and a wrong identity leaves the ticket usable.\<close>

theorem redeem_exact:
  assumes "hm_wf (ts_entries st)"
  shows "case redeem ticket who now st of
      (Inr (tgt, r), dropped, st') \<Rightarrow>
        length ticket = 43 \<and> list_all token_byte ticket \<and> dropped = []
        \<and> (\<exists>e > now. hm_get (ts_entries st) ticket =
              Some \<lparr>tk_identity = who, tk_target = tgt, tk_expires_at = e, tk_reservation = r\<rparr>)
        \<and> hm_get (ts_entries st') = (hm_get (ts_entries st))(ticket := None)
    | (Inl err, dropped, st') \<Rightarrow>
        (if err = Expired then hm_get (ts_entries st') = (hm_get (ts_entries st))(ticket := None)
           \<and> (\<exists>e. hm_get (ts_entries st) ticket = Some e \<and> tk_expires_at e \<le> now)
         else st' = st \<and> err \<in> {Malformed, Unknown, WrongIdentity}
           \<and> (err = Unknown \<longleftrightarrow> length ticket = 43 \<and> list_all token_byte ticket
                \<and> hm_get (ts_entries st) ticket = None))"
proof (cases "length ticket = 43 \<and> list_all token_byte ticket")
  case False
  then show ?thesis by (auto simp: redeem_def TOKEN_LENGTH_def)
next
  case True
  show ?thesis
  proof (cases "hm_get (ts_entries st) ticket")
    case None
    with True show ?thesis by (simp add: redeem_def TOKEN_LENGTH_def)
  next
    case (Some e)
    with True assms show ?thesis
      by (cases e) (auto simp: redeem_def TOKEN_LENGTH_def hm.get_del)
  qed
qed

definition demo_token :: string where
  "demo_token = replicate 43 (CHR ''A'')"

definition demo_entry :: ticket_entry where
  "demo_entry = \<lparr>tk_identity = Identity ''al'', tk_target = PtyTarget demo_pty, tk_expires_at = 10,
     tk_reservation = Reservation (Some 0)\<rparr>"

definition demo_store :: ticket_store where
  "demo_store = \<lparr>ts_ttl = 9, ts_capacity = 2, ts_entries = [(demo_token, demo_entry)]\<rparr>"

lemma demo_redeem:
  "redeem demo_token (Identity ''al'') 5 demo_store =
     (Inr (PtyTarget demo_pty, Reservation (Some 0)), [], demo_store\<lparr>ts_entries := []\<rparr>)"
  by (simp add: redeem_def demo_token_def demo_store_def demo_entry_def TOKEN_LENGTH_def hm_get_def
    hm_remove_def token_byte_def ascii_defs list_all_iff)

lemma demo_store_wf: "hm_wf (ts_entries demo_store)"
  by (simp add: demo_store_def hm_wf_def)

theorem reservations_conserved_witness:
  "holds (ts_entries demo_store) = {#Reservation (Some 0)#}
    \<and> fst (redeem demo_token (Identity ''al'') 5 demo_store) = Inr (PtyTarget demo_pty, Reservation (Some 0))"
  using reservations_conserved [OF demo_store_wf, where ticket = demo_token and who = "Identity ''al''" and now = 5]
  by (simp add: demo_redeem held_def hm_values_def)

theorem redeem_exact_witness:
  "fst (redeem demo_token (Identity ''al'') 5 demo_store) = Inr (PtyTarget demo_pty, Reservation (Some 0))
    \<and> (\<exists>e > 5. tk_expires_at demo_entry = e)"
  using redeem_exact [OF demo_store_wf, where ticket = demo_token and who = "Identity ''al''" and now = 5]
  unfolding demo_redeem by (simp add: demo_entry_def)

end
