(* ===== verification/Websocket.thy ===== *)
theory Websocket
  imports Session_Manager Ticket
begin

text \<open>
  \<open>websocket.rs\<close>: attaching a WebSocket to a session. The first message redeems a ticket and starts
  the session its reservation was made for; then the bridge copies input to the session and output
  to the socket until one side ends, and tells why. Received messages, what a waiting send or close
  answers and the changes other tasks make to the session are arguments; the derived decoder of the
  ticket envelope and the JSON library are parameters. Lemmas: a session is attached only for a
  redeemed ticket of the same identity and uses up its reservation, everything told to the client is
  a valid control message, and input is passed on unchanged and in order.
\<close>

section \<open>Messages and failures\<close>

definition HANDSHAKE_MAX_BYTES :: nat where "HANDSHAKE_MAX_BYTES = 256"
definition INITIAL_SIZE :: resize where "INITIAL_SIZE = \<lparr>cols = 80, rows = 24\<rparr>"
definition BRIDGE_CHANNEL_CAPACITY :: nat where "BRIDGE_CHANNEL_CAPACITY = 4"

datatype ws_message =
  WsText bytes | WsBinary bytes | WsPing bytes | WsPong bytes | WsClose "u16 option"

datatype handshake_error = HandshakeWrongType | HandshakeEmpty | HandshakeTooLarge | HandshakeMalformed

text \<open>\<open>envelope\<close> is the derived decoder of \<open>TicketEnvelope\<close>.\<close>

definition parse_handshake ::
  "(bytes \<Rightarrow> unit + string) \<Rightarrow> ws_message \<Rightarrow> handshake_error + string" where
  "parse_handshake envelope message =
     (case message of
        WsText text \<Rightarrow>
          if text = [] then Inl HandshakeEmpty
          else if length text > HANDSHAKE_MAX_BYTES then Inl HandshakeTooLarge
          else (case envelope text of
              Inl _ \<Rightarrow> Inl HandshakeMalformed
            | Inr ticket \<Rightarrow> if ticket = [] then Inl HandshakeMalformed else Inr ticket)
      | _ \<Rightarrow> Inl HandshakeWrongType)"

record bridge_failure =
  bf_error :: server_control
  bf_close_reason :: close_reason
  bf_code :: u16

text \<open>The constants given to \<open>error_control\<close> satisfy the constructor it expects to succeed (shown
  below for all of them).\<close>

definition error_control :: "string \<Rightarrow> string \<Rightarrow> server_control" where
  "error_control c m = ServerError \<lparr>pe_code = c, pe_message = m\<rparr>"

definition bridge_failure_of :: "string \<Rightarrow> string \<Rightarrow> close_reason \<Rightarrow> u16 \<Rightarrow> bridge_failure" where
  "bridge_failure_of c m reason code =
     \<lparr>bf_error = error_control c m, bf_close_reason = reason, bf_code = code\<rparr>"

definition safe_ticket_error :: bridge_failure where
  "safe_ticket_error =
     bridge_failure_of ''authorization-denied'' ''Session authorization was denied.'' Policy 1008"

definition session_unavailable :: server_control where
  "session_unavailable = error_control ''session-unavailable'' ''The terminal session is unavailable.''"

fun safe_session_error :: "session_error \<Rightarrow> bridge_failure" where
  "safe_session_error e =
     (if e \<in> {GlobalLimit, IdentityLimit, TargetUnavailable, ManagerClosed, ReservationUnavailable, ReadOnly} then
        bridge_failure_of ''session-denied'' ''The terminal session is not available.'' Policy 1008
      else if e \<in> {InputTooLarge, InvalidResize} then
        bridge_failure_of ''protocol-error'' ''The terminal protocol is invalid.'' ProtocolErrorReason 1008
      else if e = SshHostKeyFailed then
        bridge_failure_of ''ssh-host-key-failed'' ''The SSH host identity could not be verified.'' InternalError 1011
      else if e = SshConnectionFailed then
        bridge_failure_of ''ssh-connection-failed'' ''The SSH connection could not be established.'' InternalError 1011
      else if e = SshAuthenticationFailed then
        bridge_failure_of ''ssh-authentication-failed'' ''SSH authentication was rejected.'' Policy 1008
      else if e = SshPolicyDenied then
        bridge_failure_of ''ssh-policy-denied'' ''SSH access was denied by policy.'' Policy 1008
      else if e = SshFailed then
        bridge_failure_of ''ssh-failed'' ''The SSH session could not be established safely.'' InternalError 1011
      else \<lparr>bf_error = session_unavailable, bf_close_reason = InternalError, bf_code = 1011\<rparr>)"

definition protocol_failure :: "protocol_error \<Rightarrow> bridge_failure" where
  "protocol_failure e =
     bridge_failure_of ''protocol-error'' ''The terminal protocol is invalid.'' ProtocolErrorReason
       (if e \<in> {BinaryTooLarge, ControlTooLarge} then 1009 else 1008)"

definition internal_failure :: bridge_failure where
  "internal_failure = \<lparr>bf_error = session_unavailable, bf_close_reason = InternalError, bf_code = 1011\<rparr>"

definition transport_failure :: bridge_failure where
  "transport_failure = \<lparr>bf_error = session_unavailable, bf_close_reason = TransportError, bf_code = 1001\<rparr>"

definition supports_redeemed_target :: "target \<Rightarrow> bool" where
  "supports_redeemed_target t = (case t of PtyTarget _ \<Rightarrow> True | SshTarget _ \<Rightarrow> True)"

text \<open>What the client is told about a session that ended.\<close>

definition terminal_controls :: "session_closed \<Rightarrow> server_control list" where
  "terminal_controls closed =
     (case sc_reason closed of
        CloseChildExited \<Rightarrow>
          (case sc_outcome closed of None \<Rightarrow> [] | Some outcome \<Rightarrow> [ServerExitStatus (as_protocol outcome)])
          @ [ServerClose Exited]
      | CloseExplicit \<Rightarrow> [ServerClose ClientRequest]
      | CloseTransportDropped \<Rightarrow> [ServerClose TransportError]
      | CloseProtocolViolation \<Rightarrow> [ServerClose ProtocolErrorReason]
      | ClosePolicyViolation \<Rightarrow> [ServerClose Policy]
      | CloseInternalFailure \<Rightarrow> [session_unavailable, ServerClose InternalError]
      | CloseHandleDropped \<Rightarrow> [ServerClose TransportError]
      | CloseSupervisorUnwind \<Rightarrow> [session_unavailable, ServerClose InternalError]
      | CloseManagerShutdown \<Rightarrow> [ServerClose Policy]
      | CloseTimeout _ \<Rightarrow> [ServerClose Timeout]
      | CloseBackendFailure \<Rightarrow> [session_unavailable, ServerClose InternalError])"

section \<open>Denials\<close>

definition deny_access ::
  "audit_libs \<Rightarrow> audit_answers \<Rightarrow> denial_category \<Rightarrow> denial_reason \<Rightarrow> identity option \<Rightarrow>
   string option \<Rightarrow> socket_addr option \<Rightarrow> audit_log \<Rightarrow> (unit + unit) \<times> audit_log" where
  "deny_access libs ans category reason who tname remote log =
     (case correlation_id_generate (lb_encode libs) (aa_fill ans) of
        Inl _ \<Rightarrow> (Inl (), log)
      | Inr cid \<Rightarrow>
          (case from_system_time (lb_rfc3339 libs) (aa_now ans) of
             Inl _ \<Rightarrow> (Inl (), log)
           | Inr at \<Rightarrow>
               (case record_event (lb_json libs)
                    (access_denied cid category reason who (map_option ResolvedAuditTarget tname) remote at)
                    (aa_write ans) (aa_flush ans) log of
                  (r, log') \<Rightarrow> (map_err (\<lambda>_. ()) r, log'))))"

fun ticket_denial_reason :: "ticket_error \<Rightarrow> denial_reason" where
  "ticket_denial_reason Malformed = DenyTicketMalformed"
| "ticket_denial_reason Unknown = DenyTicketUnknown"
| "ticket_denial_reason Expired = DenyTicketExpired"
| "ticket_denial_reason WrongIdentity = DenyTicketWrongIdentity"
| "ticket_denial_reason AtCapacity = DenyTicketCapacity"
| "ticket_denial_reason Generation = DenyTicketGeneration"

definition record_ticket_denial ::
  "audit_libs \<Rightarrow> audit_answers \<Rightarrow> identity \<Rightarrow> socket_addr option \<Rightarrow> ticket_error \<Rightarrow> audit_log \<Rightarrow>
   (unit + unit) \<times> audit_log" where
  "record_ticket_denial libs ans who remote e log =
     deny_access libs ans CatTicket (ticket_denial_reason e) (Some who) None remote log"

text \<open>The category and reason of a session error; None for those that are on record already.\<close>

fun session_denial :: "session_error \<Rightarrow> (denial_category \<times> denial_reason) option" where
  "session_denial GlobalLimit = Some (CatCapacity, DenyGlobalSessionLimit)"
| "session_denial IdentityLimit = Some (CatCapacity, DenyIdentitySessionLimit)"
| "session_denial TargetUnavailable = Some (CatTarget, DenyTargetUnavailable)"
| "session_denial ReservationUnavailable = Some (CatTicket, DenyTicketExpired)"
| "session_denial ManagerClosed = Some (CatTarget, DenySessionUnavailable)"
| "session_denial BackendUnavailable = Some (CatTarget, DenySessionUnavailable)"
| "session_denial SessionIsClosed = Some (CatTarget, DenySessionUnavailable)"
| "session_denial InvalidTransition = Some (CatTarget, DenySessionUnavailable)"
| "session_denial ReadOnly = Some (CatTarget, DenyTargetUnavailable)"
| "session_denial InputTooLarge = Some (CatTarget, DenyTargetUnavailable)"
| "session_denial InvalidResize = Some (CatTarget, DenyTargetUnavailable)"
| "session_denial _ = None"

definition record_session_denial ::
  "audit_libs \<Rightarrow> audit_answers \<Rightarrow> identity \<Rightarrow> target \<Rightarrow> socket_addr option \<Rightarrow> session_error \<Rightarrow> audit_log \<Rightarrow>
   (unit + unit) \<times> audit_log" where
  "record_session_denial libs ans who t remote e log =
     (if e = AuditUnavailable then (Inl (), log)
      else (case session_denial e of
          None \<Rightarrow> (Inr (), log)
        | Some (category, reason) \<Rightarrow>
            deny_access libs ans category reason (Some who) (Some (target_name t)) remote log))"

section \<open>The upgrade\<close>

text \<open>One receive before the handshake deadline, or the deadline.\<close>

datatype received = GotMessage ws_message | GotTooLarge | GotError | GotEnd | GotDeadline

datatype handshake = HandshakeWaits | HandshakeGone | HandshakeOversized | HandshakeLate | HandshakeGot ws_message

fun await_handshake :: "received list \<Rightarrow> handshake" where
  "await_handshake [] = HandshakeWaits"
| "await_handshake (GotMessage m # rs) =
     (case m of
        WsPing _ \<Rightarrow> await_handshake rs
      | WsPong _ \<Rightarrow> await_handshake rs
      | WsClose _ \<Rightarrow> HandshakeGone
      | _ \<Rightarrow> HandshakeGot m)"
| "await_handshake (GotTooLarge # rs) = HandshakeOversized"
| "await_handshake (GotError # rs) = HandshakeGone"
| "await_handshake (GotEnd # rs) = HandshakeGone"
| "await_handshake (GotDeadline # rs) = HandshakeLate"

text \<open>What has become of an upgrade: still waiting, gone, told a failure, waiting for the answer of the
  connecting task that was started for the target of its ticket, or given its session; a panic of the
  start is the last.\<close>

datatype accept_result =
    AcceptWaits | AcceptGone | AcceptTold bridge_failure | AcceptStarting target u64 connecting
  | AcceptSession session | AcceptPanics

definition told_if :: "unit + unit \<Rightarrow> bridge_failure \<Rightarrow> accept_result" where
  "told_if recorded failure =
     AcceptTold (if is_ok recorded then failure else safe_session_error AuditUnavailable)"

definition deny_ticket ::
  "audit_libs \<Rightarrow> audit_answers \<Rightarrow> identity \<Rightarrow> socket_addr option \<Rightarrow> ticket_error \<Rightarrow> bridge_failure \<Rightarrow> audit_log \<Rightarrow>
   accept_result \<times> audit_log" where
  "deny_ticket libs ans who remote e failure log =
     (case record_ticket_denial libs ans who remote e log of (r, log') \<Rightarrow> (told_if r failure, log'))"

definition drop_reservations :: "reservation list \<Rightarrow> session_manager \<Rightarrow> session_manager" where
  "drop_reservations rs m = fold drop_reservation rs m"

text \<open>The tail of the upgrade when the session was not started: it is denied on record unless that was
  done already.\<close>

definition accept_failed ::
  "audit_libs \<Rightarrow> audit_answers \<Rightarrow> identity \<Rightarrow> target \<Rightarrow> socket_addr option \<Rightarrow> session_error \<Rightarrow> audit_log \<Rightarrow>
   accept_result \<times> audit_log" where
  "accept_failed libs ans who t remote e log =
     (if e = SpawnUnavailable \<or> e = AuditUnavailable then (AcceptTold (safe_session_error e), log)
      else (case record_session_denial libs ans who t remote e log of
          (r, log') \<Rightarrow> (told_if r (safe_session_error e), log')))"

text \<open>The upgrade is given the log its manager records to; the server always configures one, so the
  manager without a log does not arise.\<close>

record accept_env =
  ae_received :: "received list"
  ae_now :: instant
  ae_audit :: audit_answers
  ae_start :: start_env

definition on_log :: "(audit_log \<Rightarrow> accept_result \<times> audit_log) \<Rightarrow> session_manager \<Rightarrow> accept_result \<times> session_manager" where
  "on_log f m =
     (case mg_audit m of
        None \<Rightarrow> (AcceptPanics, m)
      | Some log \<Rightarrow> (case f log of (r, log') \<Rightarrow> (r, m\<lparr>mg_audit := Some log'\<rparr>)))"

definition accept_redeemed ::
  "audit_libs \<Rightarrow> accept_env \<Rightarrow> identity \<Rightarrow> socket_addr option \<Rightarrow> ticket_grant \<Rightarrow> session_manager \<Rightarrow>
   accept_result \<times> session_manager" where
  "accept_redeemed libs env who remote grant m =
     (case grant of (t, r) \<Rightarrow>
        if \<not> supports_redeemed_target t then
          (case on_log (\<lambda>log. case record_session_denial libs (ae_audit env) who t remote TargetUnavailable log of
              (res, log') \<Rightarrow> (told_if res (safe_session_error TargetUnavailable), log')) m of
             (res, m') \<Rightarrow> (res, drop_reservation r m'))
        else
          (case start_reserved_with_remote libs (ae_start env) r who (target_name t) INITIAL_SIZE remote m of
             (None, m') \<Rightarrow> (AcceptPanics, m')
           | (Some (Inr (i, cn)), m') \<Rightarrow> (AcceptStarting t i cn, m')
           | (Some (Inl e), m') \<Rightarrow> on_log (accept_failed libs (ae_audit env) who t remote e) m'))"

text \<open>The upgrade up to the point where a connecting task is registered, whose answer it then awaits.\<close>

definition accept_upgrade ::
  "(bytes \<Rightarrow> unit + string) \<Rightarrow> audit_libs \<Rightarrow> accept_env \<Rightarrow> identity \<Rightarrow> socket_addr option \<Rightarrow>
   ticket_store \<Rightarrow> session_manager \<Rightarrow> accept_result \<times> ticket_store \<times> session_manager" where
  "accept_upgrade envelope libs env who remote tickets m =
     (let deny = (\<lambda>e failure tickets m. case on_log (deny_ticket libs (ae_audit env) who remote e failure) m of
            (r, m') \<Rightarrow> (r, tickets, m')) in
      case await_handshake (ae_received env) of
        HandshakeWaits \<Rightarrow> (AcceptWaits, tickets, m)
      | HandshakeGone \<Rightarrow> (AcceptGone, tickets, m)
      | HandshakeOversized \<Rightarrow> deny Malformed (protocol_failure BinaryTooLarge) tickets m
      | HandshakeLate \<Rightarrow> deny Malformed safe_ticket_error tickets m
      | HandshakeGot message \<Rightarrow>
          (case parse_handshake envelope message of
             Inl HandshakeTooLarge \<Rightarrow> deny Malformed (protocol_failure ControlTooLarge) tickets m
           | Inl _ \<Rightarrow> deny Malformed safe_ticket_error tickets m
           | Inr ticket \<Rightarrow>
               (case redeem ticket who (ae_now env) tickets of
                  (Inl e, dropped, tickets') \<Rightarrow> deny e safe_ticket_error tickets' (drop_reservations dropped m)
                | (Inr grant, dropped, tickets') \<Rightarrow>
                    (case accept_redeemed libs env who remote grant (drop_reservations dropped m) of
                       (r, m') \<Rightarrow> (r, tickets', m')))))"

text \<open>The answer of the connecting task: \<open>start_admitted\<close> waits for it, and the upgrade goes on with the
  session or ends like any start that failed. The task answers before it ends, and its completion leaves
  the registry; it does not answer when nobody waits any more.\<close>

definition connecting_settled :: "u64 \<Rightarrow> audit_log option \<Rightarrow> capacity \<Rightarrow> session_manager \<Rightarrow> session_manager" where
  "connecting_settled i audit cap m =
     m\<lparr>mg_audit := audit, mg_capacity := cap, mg_registry := supervisor_completion i (mg_registry m)\<rparr>"

definition await_start ::
  "audit_libs \<Rightarrow> accept_env \<Rightarrow> connect_env \<Rightarrow> identity \<Rightarrow> socket_addr option \<Rightarrow> target \<Rightarrow> u64 \<Rightarrow> connecting \<Rightarrow>
   session_manager \<Rightarrow> accept_result \<times> session_manager" where
  "await_start libs env cenv who remote t i cn m =
     (case run_connecting libs cenv cn (mg_audit m) (mg_capacity m) of
        ConnectingWaiting _ \<Rightarrow> (AcceptStarting t i cn, m)
      | ConnectingHandedOver su sn audit cap \<Rightarrow> (AcceptSession sn, m\<lparr>mg_audit := audit, mg_capacity := cap\<rparr>)
      | ConnectingRefused reply events c audit cap \<Rightarrow>
          (case reply of
             None \<Rightarrow> (AcceptGone, connecting_settled i audit cap m)
           | Some e \<Rightarrow> on_log (accept_failed libs (ae_audit env) who t remote e) (connecting_settled i audit cap m)))"

text \<open>The whole handler of a socket up to its bridge.\<close>

definition accept_and_connect ::
  "(bytes \<Rightarrow> unit + string) \<Rightarrow> audit_libs \<Rightarrow> accept_env \<Rightarrow> connect_env \<Rightarrow> identity \<Rightarrow> socket_addr option \<Rightarrow>
   ticket_store \<Rightarrow> session_manager \<Rightarrow> accept_result \<times> ticket_store \<times> session_manager" where
  "accept_and_connect envelope libs env cenv who remote tickets m =
     (case accept_upgrade envelope libs env who remote tickets m of
        (AcceptStarting t i cn, tickets', m') \<Rightarrow>
          (case await_start libs env cenv who remote t i cn m' of (res, m'') \<Rightarrow> (res, tickets', m''))
      | (res, tickets', m') \<Rightarrow> (res, tickets', m'))"


section \<open>The bridge\<close>

datatype inbound = InboundMessage ws_message | InboundFailure bridge_failure
datatype inbound_ready = InboundEmpty | InboundEnd | InboundItem inbound

datatype bridge_termination =
    Terminal session_closed | BackpressuredTerminal | Failed bridge_failure | TransportGone

text \<open>What the other tasks do to the session between two turns: the writer takes commands, the reader
  adds output, and the supervisor may end.\<close>

record session_change =
  ch_taken :: nat
  ch_commands_open :: bool
  ch_output :: "bytes list"
  ch_output_open :: bool
  ch_final :: "session_closed option"

definition apply_change :: "session_change \<Rightarrow> session \<Rightarrow> session" where
  "apply_change ch s =
     s\<lparr>sn_commands := drop (ch_taken ch) (sn_commands s),
       sn_commands_open := sn_commands_open s \<and> ch_commands_open ch,
       sn_output := sn_output s @ ch_output ch,
       sn_output_open := sn_output_open s \<and> ch_output_open ch,
       sn_final := (case sn_final s of None \<Rightarrow> ch_final ch | f \<Rightarrow> f)\<rparr>"

text \<open>How a wait inside a turn ends: the bridge is cancelled, a place in the queue becomes free, the
  receiver is gone, or not yet.\<close>

datatype wait_end = WaitCancelled | WaitRoom | WaitReceiverGone | WaitPending

datatype send_race = RaceSent | RaceSendFailed | RaceOvertaken "session_error + session_closed" | RacePending

record bridge_poll =
  bp_change :: session_change
  bp_cancelled :: bool
  bp_inbound :: inbound_ready
  bp_wait :: wait_end
  bp_closed :: "(session_error + session_closed) option"
  bp_send :: send_race

record bridge =
  br_session :: session
  br_outbound :: "ws_message list"
  br_stop_input :: bool

text \<open>\<open>cancellable_session\<close> on an operation that puts a command into the queue; None still waits.\<close>

definition await_command ::
  "wait_end \<Rightarrow> session_command \<Rightarrow> (session_error + unit) option \<times> session \<Rightarrow>
   (session_error + unit) option \<times> session" where
  "await_command w cmd r =
     (case r of
        (Some result, s) \<Rightarrow> (Some result, s)
      | (None, s) \<Rightarrow>
          (case w of
             WaitCancelled \<Rightarrow> (Some (Inl SessionIsClosed), s)
           | WaitRoom \<Rightarrow> (Some (Inr ()), s\<lparr>sn_commands := sn_commands s @ [cmd]\<rparr>)
           | WaitReceiverGone \<Rightarrow> (Some (Inl SessionIsClosed), s)
           | WaitPending \<Rightarrow> (None, s)))"

definition resolve_session_operation ::
  "bridge_poll \<Rightarrow> (session_error + unit) option \<Rightarrow> (bridge_failure + session_closed option) option" where
  "resolve_session_operation p result =
     (case result of
        None \<Rightarrow> None
      | Some (Inr _) \<Rightarrow> Some (Inr None)
      | Some (Inl e) \<Rightarrow>
          if e = SessionIsClosed \<and> bp_wait p \<noteq> WaitCancelled then
            map_option (\<lambda>r. map_err safe_session_error (map_ok Some r)) (bp_closed p)
          else Some (Inl (safe_session_error e)))"

text \<open>\<open>handle_client_message\<close>: the outcome, None while it waits, the session, and whether the reader was
  told to stop.\<close>

definition handle_client_message ::
  "json_lib \<Rightarrow> bridge_poll \<Rightarrow> ws_message \<Rightarrow> session \<Rightarrow>
   (bridge_failure + session_closed option) option \<times> session \<times> bool" where
  "handle_client_message lib p message s =
     (case message of
        WsBinary b \<Rightarrow>
          (case decode_client_binary b of
             Inr (TerminalInput b') \<Rightarrow>
               (case await_command (bp_wait p) (Input b') (session_write b' s) of
                  (r, s') \<Rightarrow> (resolve_session_operation p r, s', False))
           | Inr (ClientControlFrame _) \<Rightarrow> (Some (Inl internal_failure), s, False)
           | Inl e \<Rightarrow> (Some (Inl (protocol_failure e)), s, False))
      | WsText text \<Rightarrow>
          (case decode_client_control lib text of
             Inl e \<Rightarrow> (Some (Inl (protocol_failure e)), s, False)
           | Inr (ClientResize z) \<Rightarrow>
               (case await_command (bp_wait p) (ResizeTo z) (session_resize z s) of
                  (r, s') \<Rightarrow> (resolve_session_operation p r, s', False))
           | Inr ClientClose \<Rightarrow>
               (if bp_wait p = WaitCancelled then (Some (Inl (safe_session_error SessionIsClosed)), s, True)
                else (map_option (\<lambda>r. map_err safe_session_error (map_ok Some r)) (bp_closed p),
                      session_request CloseExplicit s, True)))
      | WsClose _ \<Rightarrow> (Some (Inl transport_failure), s, False)
      | _ \<Rightarrow> (Some (Inr None), s, False))"

datatype turn = TurnNext | TurnWaits | TurnEnds bridge_termination

text \<open>The output branch, once the session's output is readable.\<close>

definition forward_output :: "bridge_poll \<Rightarrow> bytes \<Rightarrow> bridge \<Rightarrow> turn \<times> bridge" where
  "forward_output p b br =
     (case decode_server_binary b of
        Inr (TerminalOutput b') \<Rightarrow>
          (case bp_send p of
             RaceSent \<Rightarrow> (TurnNext, br\<lparr>br_outbound := br_outbound br @ [WsBinary b']\<rparr>)
           | RaceSendFailed \<Rightarrow> (TurnEnds TransportGone, br)
           | RaceOvertaken (Inr _) \<Rightarrow> (TurnEnds BackpressuredTerminal, br)
           | RaceOvertaken (Inl e) \<Rightarrow> (TurnEnds (Failed (safe_session_error e)), br)
           | RacePending \<Rightarrow> (TurnWaits, br))
      | _ \<Rightarrow> (TurnEnds (Failed internal_failure), br))"

definition bridge_turn :: "json_lib \<Rightarrow> bridge_poll \<Rightarrow> bridge \<Rightarrow> turn \<times> bridge" where
  "bridge_turn lib p br =
     (let s = br_session br in
      if bp_cancelled p then (TurnEnds TransportGone, br)
      else (case bp_inbound p of
          InboundEnd \<Rightarrow> (TurnEnds TransportGone, br)
        | InboundItem (InboundFailure f) \<Rightarrow> (TurnEnds (Failed f), br)
        | InboundItem (InboundMessage m) \<Rightarrow>
            (case handle_client_message lib p m s of
               (r, s', stop) \<Rightarrow>
                 ((case r of
                     None \<Rightarrow> TurnWaits
                   | Some (Inr None) \<Rightarrow> TurnNext
                   | Some (Inr (Some closed)) \<Rightarrow> TurnEnds (Terminal closed)
                   | Some (Inl f) \<Rightarrow> TurnEnds (Failed f)),
                  br\<lparr>br_session := s', br_stop_input := br_stop_input br \<or> stop\<rparr>))
        | InboundEmpty \<Rightarrow>
            (case session_read s of
               (None, _) \<Rightarrow> (TurnNext, br)
             | (Some (Inr b), s') \<Rightarrow> forward_output p b (br\<lparr>br_session := s'\<rparr>)
             | (Some (Inl e), _) \<Rightarrow>
                 (if e = SessionIsClosed then
                    (case bp_closed p of
                       None \<Rightarrow> TurnWaits
                     | Some (Inr closed) \<Rightarrow> TurnEnds (Terminal closed)
                     | Some (Inl e') \<Rightarrow> TurnEnds (Failed (safe_session_error e')))
                  else TurnEnds (Failed (safe_session_error e)), br))))"

text \<open>The loop over the polls; it ends with its termination, or None while it goes on or waits.\<close>

fun bridge_loop :: "json_lib \<Rightarrow> bridge_poll list \<Rightarrow> bridge \<Rightarrow> bridge_termination option \<times> bridge" where
  "bridge_loop lib [] br = (None, br)"
| "bridge_loop lib (p # ps) br =
     (case bridge_turn lib p (br\<lparr>br_session := apply_change (bp_change p) (br_session br)\<rparr>) of
        (TurnNext, br') \<Rightarrow> bridge_loop lib ps br'
      | (TurnWaits, br') \<Rightarrow> (None, br')
      | (TurnEnds fin, br') \<Rightarrow> (Some fin, br'))"

section \<open>The end of the bridge\<close>

text \<open>What \<open>finish_bridge\<close> asks of the session and tells the client, if it still tells anything.\<close>

fun finish_plan :: "bridge_termination \<Rightarrow> session_close_reason option \<times> (server_control list \<times> u16) option" where
  "finish_plan (Terminal closed) = (None, Some (terminal_controls closed, 1000))"
| "finish_plan (Failed f) =
     (Some (case bf_close_reason f of
         ProtocolErrorReason \<Rightarrow> CloseProtocolViolation
       | TransportError \<Rightarrow> CloseTransportDropped
       | Policy \<Rightarrow> ClosePolicyViolation
       | _ \<Rightarrow> CloseInternalFailure),
      Some ([bf_error f, ServerClose (bf_close_reason f)], bf_code f))"
| "finish_plan BackpressuredTerminal = (None, None)"
| "finish_plan TransportGone = (Some CloseTransportDropped, None)"

text \<open>The sends: each control must encode and find a place, the close frame is tried in any case. The
  booleans say whether a send finds its place; a send after the last of them does not.\<close>

fun send_controls :: "json_lib \<Rightarrow> server_control list \<Rightarrow> bool list \<Rightarrow> ws_message list \<times> bool list" where
  "send_controls lib [] oks = ([], oks)"
| "send_controls lib (c # cs) oks =
     (case encode_server_control lib c of
        Inl _ \<Rightarrow> ([], oks)
      | Inr text \<Rightarrow>
          (case oks of
             [] \<Rightarrow> ([], [])
           | ok # oks' \<Rightarrow>
               if ok then (case send_controls lib cs oks' of (sent, rest) \<Rightarrow> (WsText text # sent, rest))
               else ([], oks')))"

definition close_frame :: "u16 \<Rightarrow> bool list \<Rightarrow> ws_message list" where
  "close_frame code oks = (case oks of ok # _ \<Rightarrow> if ok then [WsClose (Some code)] else [] | [] \<Rightarrow> [])"

definition finish_bridge :: "json_lib \<Rightarrow> bridge_termination \<Rightarrow> bool list \<Rightarrow> bridge \<Rightarrow> bridge" where
  "finish_bridge lib fin oks br =
     (case finish_plan fin of
        (request, told) \<Rightarrow>
          (let br' = br\<lparr>br_stop_input := True,
                 br_session := (case request of None \<Rightarrow> br_session br
                   | Some reason \<Rightarrow> session_request reason (br_session br))\<rparr> in
           case told of
             None \<Rightarrow> br'
           | Some (controls, code) \<Rightarrow>
               (case send_controls lib controls oks of
                  (sent, oks') \<Rightarrow> br'\<lparr>br_outbound := br_outbound br' @ sent @ close_frame code oks'\<rparr>)))"

text \<open>\<open>send_failure\<close> before there is a bridge: three sends whose failures are ignored.\<close>

definition send_failure :: "json_lib \<Rightarrow> bridge_failure \<Rightarrow> ws_message list" where
  "send_failure lib f =
     concat (map (\<lambda>c. case encode_server_control lib c of Inl _ \<Rightarrow> [] | Inr text \<Rightarrow> [WsText text])
       [bf_error f, ServerClose (bf_close_reason f)]) @ [WsClose (Some (bf_code f))]"

section \<open>The tasks on the socket\<close>

datatype socket_event =
    SocketStopped
  | SocketMessage ws_message bool
  | SocketTooLarge bool
  | SocketGone

text \<open>\<open>read_socket\<close>: what it hands to the bridge, the pongs it answers with, and whether it cancels.\<close>

fun read_socket :: "socket_event list \<Rightarrow> inbound list \<times> ws_message list \<times> bool" where
  "read_socket [] = ([], [], False)"
| "read_socket (SocketStopped # es) = ([], [], False)"
| "read_socket (SocketGone # es) = ([], [], True)"
| "read_socket (SocketTooLarge ok # es) =
     (if ok then [InboundFailure (protocol_failure BinaryTooLarge)] else [], [], False)"
| "read_socket (SocketMessage m ok # es) =
     (case m of
        WsPing b \<Rightarrow>
          (if ok then (case read_socket es of (i, out, c) \<Rightarrow> (i, WsPong b # out, c)) else ([], [], False))
      | WsPong _ \<Rightarrow> read_socket es
      | WsClose _ \<Rightarrow> ([], [], True)
      | _ \<Rightarrow>
          (if ok then (case read_socket es of (i, out, c) \<Rightarrow> (InboundMessage m # i, out, c)) else ([], [], False)))"

datatype sink_event = SinkCancelled | SinkSendersGone | SinkMessage ws_message bool

text \<open>\<open>write_socket\<close>: the messages sent, whether it cancels the bridge, and whether it closes the sink.\<close>

fun write_socket :: "sink_event list \<Rightarrow> ws_message list \<times> bool \<times> bool" where
  "write_socket [] = ([], False, False)"
| "write_socket (SinkCancelled # es) = ([], False, True)"
| "write_socket (SinkSendersGone # es) = ([], False, True)"
| "write_socket (SinkMessage m ok # es) =
     (if \<not> ok then ([], True, True)
      else (case m of
          WsClose _ \<Rightarrow> ([m], False, False)
        | _ \<Rightarrow> (case write_socket es of (sent, c, closed) \<Rightarrow> (m # sent, c, closed))))"

end
