(* ===== verification/Websocket_Safety.thy ===== *)
theory Websocket_Safety
  imports Websocket
begin

text \<open>
  What \<open>Websocket\<close> guarantees: only a redeemed ticket attaches a session, an upgrade that fails gives
  the place of its ticket back and is on record, everything told to the client is a valid control
  message with one close at the end, and input reaches the session unchanged and in order.
\<close>

section \<open>What is told\<close>

lemmas failure_simps = bridge_failure_of_def error_control_def session_unavailable_def
  safe_ticket_error_def protocol_failure_def internal_failure_def transport_failure_def

lemma as_protocol_valid: "valid_status (as_protocol outcome)"
  by (cases outcome) simp_all

definition plain_text :: "string \<Rightarrow> bool" where
  "plain_text m \<longleftrightarrow> m \<noteq> [] \<and> length m \<le> 256 \<and> list_all (\<lambda>c. 32 \<le> ord c \<and> ord c < 127) m"

lemma plain_text_valid: "plain_text m \<Longrightarrow> valid_error_message m"
proof -
  assume p: "plain_text m"
  then have "is_ascii m" by (auto simp: plain_text_def is_ascii_def list_all_iff)
  then have "chars m = map ord m" by (rule chars_ascii)
  with p show ?thesis
    by (auto simp: valid_error_message_def plain_text_def list_ex_iff list_all_iff is_ascii_control_def
      Suc_le_eq)
qed

lemma error_control_valid:
  "valid_error_code c \<Longrightarrow> plain_text m \<Longrightarrow> valid_server (error_control c m)"
  by (simp add: error_control_def plain_text_valid)

text \<open>The texts of all failures are valid for the constructor they are given to.\<close>

lemmas text_simps = valid_error_code_def is_ascii_lowercase_def is_ascii_digit_def plain_text_def

lemma session_unavailable_valid: "valid_server session_unavailable"
  unfolding session_unavailable_def by (rule error_control_valid) (simp_all add: text_simps)

lemma protocol_failure_valid: "valid_server (bf_error (protocol_failure pe))"
  unfolding protocol_failure_def bridge_failure_of_def bridge_failure.simps
  by (rule error_control_valid) (simp_all add: text_simps)

lemma ticket_failure_valid: "valid_server (bf_error safe_ticket_error)"
  unfolding safe_ticket_error_def bridge_failure_of_def bridge_failure.simps
  by (rule error_control_valid) (simp_all add: text_simps)

lemma session_failure_valid: "valid_server (bf_error (safe_session_error se))"
  by (cases se; simp add: bridge_failure_of_def session_unavailable_valid del: valid_server.simps;
      rule error_control_valid; simp add: text_simps)

section \<open>Attaching\<close>

lemma start_reserved_started:
  assumes "start_reserved_with_remote libs env r who tname dims remote m = (Some (Inr (i, cn)), m')"
  shows "\<not> rg_shutting_down (mg_registry m) \<and> cn_identity cn = who \<and> cn_reservation cn = r
    \<and> cn_remote cn = remote \<and> i = rg_next_id (mg_registry m)
    \<and> rg_active (mg_registry m') = hm_insert i None (rg_active (mg_registry m))
    \<and> (\<exists>b. resolve_backend_target env m who tname = Inr b
        \<and> backend_spawned env (bs_spawn b) dims = Some (Inr (cn_child cn, cn_classifier cn))
        \<and> cn_target_name cn = bs_target_name b \<and> cn_read_only cn = bs_read_only b)"
  using assms
  by (auto simp: start_reserved_with_remote_def start_resolved_def start_admitted_def activate_def
    register_supervisor_def Let_def split: if_splits sum.splits option.splits prod.splits reservation.splits)

text \<open>What the upgrade reads from the manager is not touched by dropped reservations.\<close>

lemma drop_reservations_frame [simp]:
  "mg_registry (drop_reservations rs m) = mg_registry m"
  "mg_audit (drop_reservations rs m) = mg_audit m"
  "mg_targets (drop_reservations rs m) = mg_targets m"
  "mg_prepared (drop_reservations rs m) = mg_prepared m"
  by (induction rs arbitrary: m) (simp_all add: drop_reservations_def drop_reservation_def)

lemma resolve_after_drop [simp]:
  "resolve_backend_target env (drop_reservations rs m) who tname = resolve_backend_target env m who tname"
  by (simp add: resolve_backend_target_def split: sum.split target.split)

lemma on_log_told: "on_log (\<lambda>log. case f log of (r, log') \<Rightarrow> (told_if r failure, log')) m = (AcceptStarting t i cn, m') \<longleftrightarrow> False"
  by (auto simp: on_log_def told_if_def split: option.splits prod.splits)

lemma deny_ticket_told: "on_log (deny_ticket libs ans who remote e failure) m = (AcceptStarting t i cn, m') \<longleftrightarrow> False"
  by (auto simp: on_log_def deny_ticket_def told_if_def split: option.splits prod.splits)

lemma accept_redeemed_started:
  assumes "accept_redeemed libs env who remote (t0, r) m = (AcceptStarting t i cn, m')"
  shows "t0 = t \<and> start_reserved_with_remote libs (ae_start env) r who (target_name t) INITIAL_SIZE remote m
    = (Some (Inr (i, cn)), m')"
  using assms
  by (auto simp: accept_redeemed_def on_log_told accept_failed_def on_log_def told_if_def
    split: if_splits option.splits sum.splits prod.splits)

lemma parse_handshake_ok:
  "parse_handshake envelope message = Inr ticket \<longleftrightarrow>
     (\<exists>text. message = WsText text \<and> text \<noteq> [] \<and> length text \<le> 256 \<and> envelope text = Inr ticket \<and> ticket \<noteq> [])"
  by (auto simp: parse_handshake_def HANDSHAKE_MAX_BYTES_def split: ws_message.splits sum.splits if_splits)

text \<open>An upgrade that answered either denied a ticket or went on with a redeemed one.\<close>

lemma drop_reservations_none [simp]: "drop_reservations [] m = m"
  by (simp add: drop_reservations_def)

lemma accept_upgrade_cases [consumes 2, case_names redeemed denied]:
  assumes "accept_upgrade envelope libs env who remote tickets m = (res, tickets', m')"
    and "res \<noteq> AcceptWaits \<and> res \<noteq> AcceptGone"
  obtains (redeemed) msg ticket t r where "await_handshake (ae_received env) = HandshakeGot msg"
      "parse_handshake envelope msg = Inr ticket" "redeem ticket who (ae_now env) tickets = (Inr (t, r), [], tickets')"
      "accept_redeemed libs env who remote (t, r) m = (res, m')"
  | (denied) e failure dropped where "on_log (deny_ticket libs (ae_audit env) who remote e failure)
      (drop_reservations dropped m) = (res, m')"
      "\<nexists>msg ticket t r. await_handshake (ae_received env) = HandshakeGot msg
        \<and> parse_handshake envelope msg = Inr ticket \<and> fst (redeem ticket who (ae_now env) tickets) = Inr (t, r)"
proof (cases "await_handshake (ae_received env)")
  case (HandshakeGot msg)
  show ?thesis
  proof (cases "parse_handshake envelope msg")
    case (Inl e)
    with assms(1) HandshakeGot denied [where dropped = "[]"] show ?thesis
      by (cases e) (auto simp: accept_upgrade_def Let_def split: prod.splits)
  next
    case (Inr ticket)
    obtain rr dropped tickets1 where red: "redeem ticket who (ae_now env) tickets = (rr, dropped, tickets1)"
      by (metis prod_cases3)
    show ?thesis
    proof (cases rr)
      case (Inl e)
      with assms(1) HandshakeGot Inr red denied [where dropped = dropped] show ?thesis
        by (auto simp: accept_upgrade_def Let_def split: prod.splits)
    next
      case ok: (Inr grant)
      with red have "dropped = []" by (auto simp: redeem_def split: if_splits option.splits)
      with assms(1) HandshakeGot Inr red ok redeemed show ?thesis
        by (cases grant) (auto simp: accept_upgrade_def Let_def split: prod.splits)
    qed
  qed
qed (use assms denied [where dropped = "[]"] in \<open>auto simp: accept_upgrade_def Let_def split: prod.splits\<close>)

text \<open>C11: An upgrade starts a session only when the first message of the socket, before the handshake
  deadline, is a text of at most 256 bytes that carries a ticket which the store holds, unexpired, for
  this identity; the session is the one of the ticket's target, belongs to this identity, runs on the
  ticket's reservation and what its target resolves to, and the ticket is gone from the store.\<close>

theorem attached_by_ticket:
  assumes wf: "hm_wf (ts_entries tickets)"
    and accept: "accept_upgrade envelope libs env who remote tickets m = (AcceptStarting t i cn, tickets', m')"
  shows "\<exists>text ticket entry.
      await_handshake (ae_received env) = HandshakeGot (WsText text) \<and> length text \<le> 256
      \<and> envelope text = Inr ticket \<and> hm_get (ts_entries tickets) ticket = Some entry
      \<and> tk_identity entry = who \<and> ae_now env < tk_expires_at entry
      \<and> t = tk_target entry \<and> cn_reservation cn = tk_reservation entry
      \<and> cn_identity cn = who \<and> cn_remote cn = remote
      \<and> hm_get (ts_entries tickets') = (hm_get (ts_entries tickets))(ticket := None)
      \<and> (\<exists>b. resolve_backend_target (ae_start env) m who (target_name t) = Inr b
          \<and> cn_target_name cn = bs_target_name b \<and> cn_read_only cn = bs_read_only b)
      \<and> rg_active (mg_registry m') = hm_insert i None (rg_active (mg_registry m))"
proof -
  have "AcceptStarting t i cn \<noteq> AcceptWaits \<and> AcceptStarting t i cn \<noteq> AcceptGone" by simp
  with accept show ?thesis
  proof (cases rule: accept_upgrade_cases)
    case (redeemed msg ticket t0 r)
    note started = accept_redeemed_started [OF redeemed(4)]
    from redeemed(3) wf started have entry: "\<exists>entry. hm_get (ts_entries tickets) ticket = Some entry
        \<and> tk_identity entry = who \<and> ae_now env < tk_expires_at entry \<and> t = tk_target entry \<and> r = tk_reservation entry
        \<and> hm_get (ts_entries tickets') = (hm_get (ts_entries tickets))(ticket := None)"
      by (auto simp: redeem_def hm.get_del split: if_splits option.splits)
    from start_reserved_started [OF conjunct2 [OF started]] entry redeemed(1,2) show ?thesis
      by (auto simp: parse_handshake_ok)
  qed (simp_all add: deny_ticket_told)
qed

section \<open>Refusing\<close>

text \<open>The one successful record of a run between two states of the manager: a denial for this identity.\<close>

definition denial_recorded ::
  "audit_libs \<Rightarrow> audit_answers \<Rightarrow> identity \<Rightarrow> socket_addr option \<Rightarrow> audit_log option \<Rightarrow> audit_log option \<Rightarrow> bool" where
  "denial_recorded libs ans who remote before after \<longleftrightarrow>
     (\<exists>cid category reason t at log log'. before = Some log \<and> after = Some log'
        \<and> record_event (lb_json libs) (access_denied cid category reason (Some who) t remote at)
            (aa_write ans) (aa_flush ans) log = (Inr (), log'))"

lemma denial_recordedI:
  "record_event (lb_json libs) (access_denied cid category reason (Some who) t remote at)
     (aa_write ans) (aa_flush ans) log = (Inr (), log') \<Longrightarrow>
   denial_recorded libs ans who remote (Some log) (Some log')"
  unfolding denial_recorded_def by blast

lemma deny_access_recorded:
  "deny_access libs ans category reason (Some who) tname remote log = (Inr (), log') \<Longrightarrow>
   denial_recorded libs ans who remote (Some log) (Some log')"
  by (auto simp: deny_access_def split: sum.splits prod.splits intro: denial_recordedI)

lemma on_log_deny_ticket:
  assumes "on_log (deny_ticket libs ans who remote e failure) m = (AcceptTold f, m')"
  shows "(f = internal_failure \<or> denial_recorded libs ans who remote (mg_audit m) (mg_audit m'))
    \<and> mg_capacity m' = mg_capacity m \<and> mg_registry m' = mg_registry m"
  using assms
  by (auto simp: on_log_def deny_ticket_def told_if_def record_ticket_denial_def internal_failure_def is_ok_def
    split: option.splits prod.splits sum.splits if_splits dest: deny_access_recorded)

lemma record_session_denial_recorded:
  assumes "record_session_denial libs ans who t remote e log = (Inr (), log')"
  shows "denial_recorded libs ans who remote (Some log) (Some log')
    \<or> e \<in> {SpawnUnavailable, SshHostKeyFailed, SshConnectionFailed, SshAuthenticationFailed, SshPolicyDenied, SshFailed}"
  using assms
  by (cases e) (auto simp: record_session_denial_def dest: deny_access_recorded split: if_splits)

lemma start_reserved_denied:
  assumes "start_reserved_with_remote libs env r who tname dims remote m = (Some (Inl e), m')"
    and "e \<notin> {SpawnUnavailable, AuditUnavailable}"
  shows "if e = SshPolicyDenied then mg_audit m = None \<or> denial_recorded libs (be_audit env) who remote (mg_audit m) (mg_audit m')
    else mg_audit m' = mg_audit m \<and> e \<in> {ManagerClosed, InvalidResize, ReservationUnavailable, TargetUnavailable}"
proof -
  have resolve: "resolve_backend_target env m' who tname = Inl x \<Longrightarrow> x \<in> {TargetUnavailable, SshPolicyDenied, SpawnUnavailable}" for m' x
    by (auto simp: resolve_backend_target_def map_err_def ok_or_def split: sum.splits option.splits target.splits if_splits)
  have denied: "record_denial libs (be_audit env) who tname remote c d x = (Inr (), x') \<Longrightarrow>
      mg_audit x = None \<or> denial_recorded libs (be_audit env) who remote (mg_audit x) (mg_audit x')" for c d x x'
    by (auto simp: record_denial_def record_access_denial_def
      split: option.splits sum.splits prod.splits intro: denial_recordedI)
  show ?thesis
    using assms
    by (auto simp: start_reserved_with_remote_def start_resolved_def start_admitted_def activate_def
      record_backend_resolution_denial_def drop_reservation_def validate_resize_def map_err_def is_ok_def
      Let_def dest!: resolve denied
      split: if_splits sum.splits option.splits prod.splits reservation.splits)
qed

lemma start_reserved_audit:
  "start_reserved_with_remote libs env r who tname dims remote m = (res, m') \<Longrightarrow>
   mg_audit m' = None \<longleftrightarrow> mg_audit m = None"
  by (auto simp: start_reserved_with_remote_def start_resolved_def start_admitted_def record_denial_def
    record_access_denial_def record_backend_resolution_denial_def drop_reservation_def register_supervisor_def
    split: if_splits sum.splits option.splits prod.splits)

text \<open>An upgrade that fails after a start: one record in all, in the start or after it.\<close>

lemma audit_unavailable_told: "safe_session_error AuditUnavailable = internal_failure"
  by (simp add: internal_failure_def)

lemma accept_failed_recorded:
  assumes fail: "accept_failed libs fe who t remote e log = (AcceptTold f, log')"
    and start: "start_reserved_with_remote libs senv r who (target_name t) INITIAL_SIZE remote m = (Some (Inl e), m1)"
    and log: "mg_audit m1 = Some log"
  shows "f = internal_failure
    \<or> denial_recorded libs fe who remote (mg_audit m) (Some log')
    \<or> denial_recorded libs (be_audit senv) who remote (mg_audit m) (Some log')"
proof (cases "e = SpawnUnavailable \<or> e = AuditUnavailable")
  case True
  with fail show ?thesis by (auto simp: accept_failed_def internal_failure_def)
next
  case False
  with fail obtain res where res: "record_session_denial libs fe who t remote e log = (res, log')"
    "f = (if is_ok res then safe_session_error e else internal_failure)"
    by (auto simp: accept_failed_def told_if_def audit_unavailable_told simp del: safe_session_error.simps
      split: prod.splits)
  from False start_reserved_denied [OF start] have
    denied: "if e = SshPolicyDenied then mg_audit m = None \<or>
        denial_recorded libs (be_audit senv) who remote (mg_audit m) (mg_audit m1)
      else mg_audit m1 = mg_audit m \<and> e \<in> {ManagerClosed, InvalidResize, ReservationUnavailable, TargetUnavailable}"
    by simp
  show ?thesis
  proof (cases "e = SshPolicyDenied")
    case True
    with res(1) have "log' = log" by (simp add: record_session_denial_def)
    moreover have "mg_audit m \<noteq> None"
      using start log by (auto dest: start_reserved_audit)
    ultimately show ?thesis using denied True log by (auto simp del: not_None_eq)
  next
    case no: False
    show ?thesis
    proof (cases res)
      case (Inr u)
      with res have "record_session_denial libs fe who t remote e log = (Inr (), log')" by simp
      from record_session_denial_recorded [OF this] denied no log show ?thesis
        by (auto simp del: safe_session_error.simps)
    qed (use res in \<open>simp add: is_ok_def\<close>)
  qed
qed

lemma accept_redeemed_told:
  assumes "accept_redeemed libs env who remote (t, r) m = (AcceptTold f, m')"
  shows "\<exists>e m1. start_reserved_with_remote libs (ae_start env) r who (target_name t) INITIAL_SIZE remote m
      = (Some (Inl e), m1)
    \<and> mg_capacity m' = mg_capacity m1 \<and> mg_registry m' = mg_registry m1
    \<and> (f = internal_failure
       \<or> denial_recorded libs (ae_audit env) who remote (mg_audit m) (mg_audit m')
       \<or> denial_recorded libs (be_audit (ae_start env)) who remote (mg_audit m) (mg_audit m'))"
proof -
  from assms obtain e m1 where start: "start_reserved_with_remote libs (ae_start env) r who (target_name t)
      INITIAL_SIZE remote m = (Some (Inl e), m1)"
    and fail: "on_log (accept_failed libs (ae_audit env) who t remote e) m1 = (AcceptTold f, m')"
    by (auto simp: accept_redeemed_def supports_redeemed_target_def
      split: target.splits option.splits sum.splits prod.splits)
  then obtain log log' where log: "mg_audit m1 = Some log" "m' = m1\<lparr>mg_audit := Some log'\<rparr>"
    "accept_failed libs (ae_audit env) who t remote e log = (AcceptTold f, log')"
    by (auto simp: on_log_def split: option.splits prod.splits)
  from accept_failed_recorded [OF log(3) start log(1)] start log(2) show ?thesis by auto
qed

lemma no_new_lease_trans:
  "no_new_lease a b \<Longrightarrow> no_new_lease b c \<Longrightarrow> no_new_lease a c"
  by (simp add: no_new_lease_def)

lemma drop_reservations_capacity:
  "hm_wf (cp_leases (mg_capacity m)) \<Longrightarrow>
   hm_wf (cp_leases (mg_capacity (drop_reservations rs m)))
     \<and> no_new_lease (mg_capacity m) (mg_capacity (drop_reservations rs m))"
proof (induction rs arbitrary: m)
  case Nil
  then show ?case by (simp add: drop_reservations_def no_new_lease_def)
next
  case (Cons r rs)
  have wf: "hm_wf (cp_leases (mg_capacity (drop_reservation r m)))"
    using Cons.prems by (cases "(r, mg_capacity m)" rule: reservation_drop.cases)
      (auto simp: drop_reservation_def hm.wf_del)
  have "no_new_lease (mg_capacity m) (mg_capacity (drop_reservation r m))"
    using drop_subset [OF Cons.prems] by (simp add: drop_reservation_def)
  with Cons.IH [OF wf] show ?case
    by (auto simp: drop_reservations_def intro: no_new_lease_trans)
qed

text \<open>The upgrade up to its connecting task: told at once.\<close>

lemma accept_upgrade_told:
  assumes wf: "hm_wf (cp_leases (mg_capacity m))"
    and told: "accept_upgrade envelope libs env who remote tickets m = (AcceptTold f, tickets', m')"
  shows "mg_registry m' = mg_registry m \<and> no_new_lease (mg_capacity m) (mg_capacity m')
    \<and> (f = internal_failure
       \<or> denial_recorded libs (ae_audit env) who remote (mg_audit m) (mg_audit m')
       \<or> denial_recorded libs (be_audit (ae_start env)) who remote (mg_audit m) (mg_audit m'))
    \<and> (\<forall>msg ticket t k. await_handshake (ae_received env) = HandshakeGot msg \<longrightarrow>
         parse_handshake envelope msg = Inr ticket \<longrightarrow>
         fst (redeem ticket who (ae_now env) tickets) = Inr (t, Reservation (Some k)) \<longrightarrow>
         hm_get (cp_leases (mg_capacity m')) k = None)"
proof -
  have "AcceptTold f \<noteq> AcceptWaits \<and> AcceptTold f \<noteq> AcceptGone" by simp
  with told show ?thesis
  proof (cases rule: accept_upgrade_cases)
    case (redeemed msg ticket t r)
    from accept_redeemed_told [OF redeemed(4)] obtain e m1 where start:
        "start_reserved_with_remote libs (ae_start env) r who (target_name t) INITIAL_SIZE remote m = (Some (Inl e), m1)"
        "mg_capacity m' = mg_capacity m1" "mg_registry m' = mg_registry m1"
      by blast
    have "no_new_lease (mg_capacity m) (mg_capacity m1) \<and> mg_registry m1 = mg_registry m
        \<and> (\<forall>k. r = Reservation (Some k) \<longrightarrow> hm_get (cp_leases (mg_capacity m1)) k = None)"
    proof (cases "\<exists>k. r = Reservation (Some k)")
      case True
      then obtain k where k: "r = Reservation (Some k)" by blast
      from start_reserved_result [OF wf start(1) [unfolded k]] k show ?thesis by simp
    next
      case False
      then have "r = Reservation None" by (cases r) (metis option.exhaust)
      with start(1) show ?thesis
        by (auto simp: start_reserved_with_remote_def activate_def drop_reservation_def no_new_lease_def
          split: if_splits sum.splits)
    qed
    with accept_redeemed_told [OF redeemed(4)] start redeemed(1-3) show ?thesis by auto
  next
    case (denied e failure dropped)
    from on_log_deny_ticket [OF denied(1)] drop_reservations_capacity [OF wf, of dropped] denied(2)
    show ?thesis by auto
  qed
qed

text \<open>The connecting task: what its refusal does to the places, the registry and the log.\<close>

lemma accept_upgrade_started:
  assumes wf: "hm_wf (cp_leases (mg_capacity m))"
    and accept: "accept_upgrade envelope libs env who remote tickets m = (AcceptStarting t i cn, tickets', m')"
  shows "\<exists>msg ticket k. await_handshake (ae_received env) = HandshakeGot msg \<and> parse_handshake envelope msg = Inr ticket
    \<and> fst (redeem ticket who (ae_now env) tickets) = Inr (t, Reservation (Some k))
    \<and> cn_reservation cn = Reservation (Some k) \<and> cn_identity cn = who \<and> cn_remote cn = remote
    \<and> no_new_lease (mg_capacity m) (reservation_drop (Reservation (Some k)) (mg_capacity m'))
    \<and> i = rg_next_id (mg_registry m)
    \<and> rg_active (mg_registry m') = hm_insert i None (rg_active (mg_registry m)) \<and> mg_audit m' = mg_audit m"
proof -
  have "AcceptStarting t i cn \<noteq> AcceptWaits \<and> AcceptStarting t i cn \<noteq> AcceptGone" by simp
  with accept show ?thesis
  proof (cases rule: accept_upgrade_cases)
    case (redeemed msg ticket t0 r)
    note started = accept_redeemed_started [OF redeemed(4)]
    from conjunct2 [OF started] obtain k where k: "r = Reservation (Some k)"
      by (cases r rule: reservation.exhaust)
        (auto simp: start_reserved_with_remote_def activate_def split: if_splits sum.splits option.splits)
    from start_reserved_result [OF wf conjunct2 [OF started, unfolded k]] start_reserved_started [OF conjunct2 [OF started]]
      redeemed(1-3) started k show ?thesis by simp
  qed (simp_all add: deny_ticket_told)
qed

lemma access_denial_recorded:
  "record_access_denial libs ans (Some log) who tname remote category reason = (Inr (), audit') \<Longrightarrow>
   denial_recorded libs ans who remote (Some log) audit'"
  by (auto simp: record_access_denial_def map_err_def split: sum.splits prod.splits intro: denial_recordedI)

lemma refuse_told:
  assumes "refuse_after_cleanup env cn c told cap = ConnectingRefused reply events c' audit' cap'"
  shows "cap' = reservation_drop (cn_reservation cn) cap \<and> (\<exists>outcome. told outcome = (reply, events, audit'))"
  using assms by (auto simp: refuse_after_cleanup_def split: prod.splits option.splits)

text \<open>An answer other than that the session is unavailable is on record, or is left to the upgrade to record.\<close>

lemma refusal_answered:
  assumes "refusal libs ans cn outcome (Some log) = (Some e, audit')"
  shows "e \<in> {AuditUnavailable, BackendUnavailable}
    \<or> (if e = ManagerClosed then audit' = Some log
       else e \<in> {SshHostKeyFailed, SshConnectionFailed, SshAuthenticationFailed, SshFailed}
         \<and> denial_recorded libs ans (cn_identity cn) (cn_remote cn) (Some log) audit')"
proof -
  have rejected: ?thesis
    if "ssh_denial k = (error, category, reason)"
      "(case record_access_denial libs ans (Some log) (cn_identity cn) (cn_target_name cn) (cn_remote cn) category reason of
          (Inr _, a) \<Rightarrow> (Some error, a) | (Inl _, a) \<Rightarrow> (Some AuditUnavailable, a)) = (Some e, audit')"
    for k error category reason
    using that by (cases k) (auto split: sum.splits prod.splits dest: access_denial_recorded)
  show ?thesis
    using assms rejected [of GenericFailure] rejected
    by (auto simp: refusal_def Let_def split: connecting_outcome.splits if_splits prod.splits)
qed

lemma connecting_refused_told:
  assumes "run_connecting libs env cn (Some log) cap = ConnectingRefused (Some e) events c audit' cap'"
  shows "cap' = reservation_drop (cn_reservation cn) cap
    \<and> (e \<in> {AuditUnavailable, BackendUnavailable}
     \<or> (if e = ManagerClosed then audit' = Some log
        else e \<in> {SshHostKeyFailed, SshConnectionFailed, SshAuthenticationFailed, SshFailed}
          \<and> denial_recorded libs (ce_audit env) (cn_identity cn) (cn_remote cn) (Some log) audit'))"
proof -
  obtain outcome c0 where sel: "connecting_select (cn_classifier cn) (ce_polls env) (cn_child cn) = (outcome, c0)"
    by fastforce
  show ?thesis
  proof (cases "outcome = ConnAuthenticated")
    case True
    with assms sel show ?thesis
      by (auto simp: run_connecting_def recover_unwind_def persistent_audit_start_def dest!: refuse_told
        split: prod.splits sum.splits option.splits)
  next
    case False
    with assms sel have "refuse_after_cleanup env cn c0
        (\<lambda>_. case refusal libs (ce_audit env) cn outcome (Some log) of (r, a) \<Rightarrow> (r, [], a)) cap
        = ConnectingRefused (Some e) events c audit' cap'"
      by (auto simp: run_connecting_def split: connecting_outcome.splits)
    from refuse_told [OF this] show ?thesis by (auto split: prod.splits dest: refusal_answered)
  qed
qed

lemma connecting_no_log:
  assumes "run_connecting libs env cn None cap = ConnectingRefused reply events c audit' cap'"
  shows "audit' = None"
proof -
  have "snd (refusal libs ans cn outcome None) = None" for ans outcome
    by (cases outcome) (auto simp: refusal_def record_access_denial_def Let_def split: prod.splits)
  then have refusal: "a = None" if "refusal libs ans cn outcome None = (r, a)" for ans outcome r a
    using that by (metis snd_conv)
  obtain outcome c0 where sel: "connecting_select (cn_classifier cn) (ce_polls env) (cn_child cn) = (outcome, c0)"
    by fastforce
  show ?thesis
  proof (cases "outcome = ConnAuthenticated")
    case True
    with assms sel show ?thesis
      by (auto simp: run_connecting_def recover_unwind_def persistent_audit_start_def record_session_end_def
        dest!: refuse_told split: option.splits prod.splits sum.splits)
  next
    case False
    with assms sel have "refuse_after_cleanup env cn c0
        (\<lambda>_. case refusal libs (ce_audit env) cn outcome None of (r, a) \<Rightarrow> (r, [], a)) cap
        = ConnectingRefused reply events c audit' cap'"
      by (auto simp: run_connecting_def split: connecting_outcome.splits)
    from refuse_told [OF this] show ?thesis by (auto split: prod.splits dest: refusal)
  qed
qed

lemma refusals_unavailable: "e \<in> {AuditUnavailable, BackendUnavailable} \<Longrightarrow> safe_session_error e = internal_failure"
  by (auto simp: internal_failure_def)

lemma accept_failed_after_connecting:
  assumes fail: "accept_failed libs ans who t remote e log' = (AcceptTold f, log'')"
    and e: "e \<in> {AuditUnavailable, BackendUnavailable}
     \<or> (if e = ManagerClosed then log' = log
        else e \<in> {SshHostKeyFailed, SshConnectionFailed, SshAuthenticationFailed, SshFailed}
          \<and> denial_recorded libs cans who remote (Some log) (Some log'))"
  shows "f = internal_failure \<or> denial_recorded libs ans who remote (Some log) (Some log'')
    \<or> denial_recorded libs cans who remote (Some log) (Some log'')"
proof (cases "e \<in> {AuditUnavailable, BackendUnavailable}")
  case True
  with fail refusals_unavailable [OF True] refusals_unavailable [of AuditUnavailable] show ?thesis
    by (auto simp: accept_failed_def told_if_def simp del: safe_session_error.simps split: prod.splits if_splits)
next
  case False
  obtain res log1 where res: "record_session_denial libs ans who t remote e log' = (res, log1)" by fastforce
  from fail False e res have f: "log'' = log1" "f = (if is_ok res then safe_session_error e else internal_failure)"
    using refusals_unavailable [of AuditUnavailable]
    by (auto simp: accept_failed_def told_if_def simp del: safe_session_error.simps split: if_splits)
  show ?thesis
  proof (cases "e = ManagerClosed")
    case True
    with e False res f record_session_denial_recorded [of libs ans who t remote e log' log1] show ?thesis
      by (cases res) (auto simp: is_ok_def simp del: safe_session_error.simps)
  next
    case no: False
    with e False res have "log1 = log'" by (auto simp: record_session_denial_def)
    with e False no f show ?thesis by simp
  qed
qed

text \<open>Told by the task that was to connect the session.\<close>

lemma await_start_told:
  assumes wf: "hm_wf (cp_leases (mg_capacity m))"
    and up: "accept_upgrade envelope libs env who remote tickets m = (AcceptStarting t i cn, tickets', m1)"
    and told: "await_start libs env cenv who remote t i cn m1 = (AcceptTold f, m')"
  shows "(\<forall>i. hm_get (rg_active (mg_registry m')) i = hm_get (rg_active (mg_registry m)) i
        \<or> i = rg_next_id (mg_registry m) \<and> hm_get (rg_active (mg_registry m')) i = None)
    \<and> no_new_lease (mg_capacity m) (mg_capacity m')
    \<and> (f = internal_failure
       \<or> denial_recorded libs (ae_audit env) who remote (mg_audit m) (mg_audit m')
       \<or> denial_recorded libs (be_audit (ae_start env)) who remote (mg_audit m) (mg_audit m')
       \<or> denial_recorded libs (ce_audit cenv) who remote (mg_audit m) (mg_audit m'))
    \<and> (\<forall>msg ticket t k. await_handshake (ae_received env) = HandshakeGot msg \<longrightarrow>
         parse_handshake envelope msg = Inr ticket \<longrightarrow>
         fst (redeem ticket who (ae_now env) tickets) = Inr (t, Reservation (Some k)) \<longrightarrow>
         hm_get (cp_leases (mg_capacity m')) k = None)"
proof -
  note started = accept_upgrade_started [OF wf up]
  from told obtain e events c audit cap where
    run: "run_connecting libs cenv cn (mg_audit m1) (mg_capacity m1) = ConnectingRefused (Some e) events c audit cap"
    and fail: "on_log (accept_failed libs (ae_audit env) who t remote e) (connecting_settled i audit cap m1)
      = (AcceptTold f, m')"
    by (auto simp: await_start_def split: connecting_result.splits option.splits prod.splits)
  from fail obtain log' log'' where log': "audit = Some log'" "m' = (connecting_settled i audit cap m1)\<lparr>mg_audit := Some log''\<rparr>"
    "accept_failed libs (ae_audit env) who t remote e log' = (AcceptTold f, log'')"
    by (auto simp: on_log_def connecting_settled_def split: option.splits prod.splits)
  from run log'(1) obtain log where log: "mg_audit m1 = Some log" by (cases "mg_audit m1") (auto dest: connecting_no_log)
  note refused = connecting_refused_told [OF run [unfolded log]]
  from started obtain k where k: "cn_reservation cn = Reservation (Some k)" "cn_identity cn = who" "cn_remote cn = remote"
    "mg_audit m = Some log" "no_new_lease (mg_capacity m) (reservation_drop (Reservation (Some k)) (mg_capacity m1))"
    "rg_active (mg_registry m1) = hm_insert i None (rg_active (mg_registry m))" "i = rg_next_id (mg_registry m)"
    and ticket: "\<forall>msg ticket t k'. await_handshake (ae_received env) = HandshakeGot msg \<longrightarrow>
      parse_handshake envelope msg = Inr ticket \<longrightarrow>
      fst (redeem ticket who (ae_now env) tickets) = Inr (t, Reservation (Some k')) \<longrightarrow> k' = k"
    by (auto simp: log)
  from refused k(2,3) log'(1) have "e \<in> {AuditUnavailable, BackendUnavailable}
    \<or> (if e = ManagerClosed then log' = log
       else e \<in> {SshHostKeyFailed, SshConnectionFailed, SshAuthenticationFailed, SshFailed}
         \<and> denial_recorded libs (ce_audit cenv) who remote (Some log) (Some log'))"
    by (cases "e = ManagerClosed") simp_all
  from accept_failed_after_connecting [OF log'(3) this]
  have said: "f = internal_failure \<or> denial_recorded libs (ae_audit env) who remote (mg_audit m) (mg_audit m')
     \<or> denial_recorded libs (ce_audit cenv) who remote (mg_audit m) (mg_audit m')"
    using k(4) log'(2) by simp
  have cap: "mg_capacity m' = reservation_drop (Reservation (Some k)) (mg_capacity m1)"
    using refused k(1) log'(2) by (simp add: connecting_settled_def)
  have "rg_active (mg_registry m') = hm_remove i (hm_insert i None (rg_active (mg_registry m)))"
    using k(6) log'(2) by (simp add: connecting_settled_def supervisor_completion_def)
  then have "hm_get (rg_active (mg_registry m')) j = hm_get (rg_active (mg_registry m)) j
      \<or> j = rg_next_id (mg_registry m) \<and> hm_get (rg_active (mg_registry m')) j = None" for j
    using k(7) by (simp add: hm_get_remove)
  moreover have "hm_get (cp_leases (mg_capacity m')) k = None" by (simp add: cap hm_get_remove)
  ultimately show ?thesis using said k(5) cap ticket by auto
qed

text \<open>C28: A socket whose upgrade is told a failure, be it at once or by the task that was to connect its
  session, leaves no registered supervisor that was not there before and no lease that was
  not there before; a ticket it redeemed gives its place back; and whatever it is told but that the
  session is unavailable is said after exactly one successful audit record, the denial of this identity.\<close>

theorem refused_upgrade:
  assumes wf: "hm_wf (cp_leases (mg_capacity m))"
    and told: "accept_and_connect envelope libs env cenv who remote tickets m = (AcceptTold f, tickets', m')"
  shows "(\<forall>i. hm_get (rg_active (mg_registry m')) i = hm_get (rg_active (mg_registry m)) i
        \<or> i = rg_next_id (mg_registry m) \<and> hm_get (rg_active (mg_registry m')) i = None)
    \<and> no_new_lease (mg_capacity m) (mg_capacity m')
    \<and> (f = internal_failure
       \<or> denial_recorded libs (ae_audit env) who remote (mg_audit m) (mg_audit m')
       \<or> denial_recorded libs (be_audit (ae_start env)) who remote (mg_audit m) (mg_audit m')
       \<or> denial_recorded libs (ce_audit cenv) who remote (mg_audit m) (mg_audit m'))
    \<and> (\<forall>msg ticket t k. await_handshake (ae_received env) = HandshakeGot msg \<longrightarrow>
         parse_handshake envelope msg = Inr ticket \<longrightarrow>
         fst (redeem ticket who (ae_now env) tickets) = Inr (t, Reservation (Some k)) \<longrightarrow>
         hm_get (cp_leases (mg_capacity m')) k = None)"
proof -
  obtain res m1 where up: "accept_upgrade envelope libs env who remote tickets m = (res, tickets', m1)"
    using told by (cases "accept_upgrade envelope libs env who remote tickets m")
      (auto simp: accept_and_connect_def split: accept_result.splits prod.splits)
  show ?thesis
  proof (cases "\<exists>t i cn. res = AcceptStarting t i cn")
    case True
    then obtain t i cn where res: "res = AcceptStarting t i cn" by blast
    with told up have "await_start libs env cenv who remote t i cn m1 = (AcceptTold f, m')"
      by (simp add: accept_and_connect_def split: prod.splits)
    from await_start_told [OF wf up [unfolded res] this] show ?thesis by blast
  next
    case False
    with told up have "accept_upgrade envelope libs env who remote tickets m = (AcceptTold f, tickets', m')"
      by (auto simp: accept_and_connect_def split: accept_result.splits)
    from accept_upgrade_told [OF wf this] show ?thesis by auto
  qed
qed

section \<open>The bridge\<close>

text \<open>The commands a received message asks for.\<close>

definition message_commands :: "json_lib \<Rightarrow> ws_message \<Rightarrow> session_command list" where
  "message_commands lib m =
     (case m of
        WsBinary b \<Rightarrow> [Input b]
      | WsText text \<Rightarrow>
          (case decode_client_control lib text of Inr (ClientResize z) \<Rightarrow> [ResizeTo z] | _ \<Rightarrow> [])
      | _ \<Rightarrow> [])"

definition poll_commands :: "json_lib \<Rightarrow> bridge_poll \<Rightarrow> session_command list" where
  "poll_commands lib p =
     (case bp_inbound p of InboundItem (InboundMessage m) \<Rightarrow> message_commands lib m | _ \<Rightarrow> [])"

lemma decode_client_binary_cases:
  "decode_client_binary b = Inr (TerminalInput b) \<or> (\<exists>e. decode_client_binary b = Inl e)"
  by (cases "check_binary_len b") (simp_all add: decode_client_binary_def)

lemma decode_server_binary_cases:
  "decode_server_binary b = Inr (TerminalOutput b) \<or> (\<exists>e. decode_server_binary b = Inl e)"
  by (cases "check_binary_len b") (simp_all add: decode_server_binary_def)

lemma await_command_send:
  "await_command w cmd (send_command cmd s) = (r, s') \<Longrightarrow>
   if r = Some (Inr ()) then s' = s\<lparr>sn_commands := sn_commands s @ [cmd]\<rparr> else s' = s"
  by (auto simp: await_command_def send_command_def split: if_splits wait_end.splits)

lemma await_write:
  "await_command w (Input b) (session_write b s) = (r, s') \<Longrightarrow>
   if r = Some (Inr ()) then s' = s\<lparr>sn_commands := sn_commands s @ [Input b]\<rparr> else s' = s"
  using await_command_send [of w "Input b" s]
  by (auto simp: session_write_def await_command_def split: if_splits)

lemma await_resize:
  "await_command w (ResizeTo z) (session_resize z s) = (r, s') \<Longrightarrow>
   if r = Some (Inr ()) then s' = s\<lparr>sn_commands := sn_commands s @ [ResizeTo z]\<rparr> else s' = s"
  using await_command_send [of w "ResizeTo z" s]
  by (auto simp: session_resize_def await_command_def split: if_splits sum.splits)

lemma resolved_next:
  "resolve_session_operation p r = Some (Inr None) \<longleftrightarrow> r = Some (Inr ())"
  by (auto simp: resolve_session_operation_def split: option.splits sum.splits if_splits)

text \<open>A message puts its commands at the end of the queue, all of them if the bridge goes on.\<close>

lemma handle_client_message_commands:
  assumes "handle_client_message lib p m s = (r, s', stop)"
  shows "sn_output s' = sn_output s \<and> (\<exists>cmds. sn_commands s' = sn_commands s @ cmds
    \<and> prefix cmds (message_commands lib m) \<and> (r = Some (Inr None) \<longrightarrow> cmds = message_commands lib m))"
proof (cases m)
  case (WsBinary b)
  with assms decode_client_binary_cases [of b] show ?thesis
    by (auto simp: handle_client_message_def message_commands_def resolved_next dest!: await_write
      split: prod.splits if_splits)
next
  case (WsText b)
  show ?thesis
  proof (cases "decode_client_control lib b")
    case (Inr c)
    with assms WsText show ?thesis
      by (cases c) (auto simp: handle_client_message_def message_commands_def resolved_next session_request_def
        dest!: await_resize split: prod.splits if_splits)
  qed (use assms WsText in \<open>auto simp: handle_client_message_def message_commands_def\<close>)
qed (use assms in \<open>auto simp: handle_client_message_def message_commands_def\<close>)

lemma forward_output_result:
  assumes "forward_output p b br = (tn, br')"
  shows "br_session br' = br_session br \<and> (\<exists>outs. br_outbound br' = br_outbound br @ map WsBinary outs
    \<and> prefix outs [b] \<and> (tn = TurnNext \<longrightarrow> outs = [b]))"
  using assms decode_server_binary_cases [of b]
  by (auto simp: forward_output_def split: send_race.splits sum.splits)

lemma bridge_turn_faithful:
  assumes "bridge_turn lib p br = (tn, br')"
  shows "(\<exists>cmds. sn_commands (br_session br') = sn_commands (br_session br) @ cmds
      \<and> prefix cmds (poll_commands lib p) \<and> (tn = TurnNext \<longrightarrow> cmds = poll_commands lib p))
    \<and> (\<exists>outs. br_outbound br' = br_outbound br @ map WsBinary outs \<and> prefix outs (sn_output (br_session br))
        \<and> (tn = TurnNext \<longrightarrow> sn_output (br_session br) = outs @ sn_output (br_session br')))"
proof (cases "bp_cancelled p")
  case True
  with assms show ?thesis by (auto simp: bridge_turn_def)
next
  case False
  show ?thesis
  proof (cases "bp_inbound p")
    case InboundEmpty
    show ?thesis
    proof (cases "sn_output (br_session br)")
      case Nil
      with assms False InboundEmpty show ?thesis
        by (auto simp: bridge_turn_def session_read_def poll_commands_def Let_def split: if_splits option.splits sum.splits)
    next
      case (Cons b bs)
      with assms False InboundEmpty have "forward_output p b (br\<lparr>br_session := (br_session br)\<lparr>sn_output := bs\<rparr>\<rparr>) = (tn, br')"
        by (simp add: bridge_turn_def session_read_def)
      from forward_output_result [OF this] obtain outs where "br_session br' = (br_session br)\<lparr>sn_output := bs\<rparr>"
        "br_outbound br' = br_outbound br @ map WsBinary outs" "outs = [] \<and> tn \<noteq> TurnNext \<or> outs = [b]"
        by (auto simp: prefix_Cons)
      with InboundEmpty Cons show ?thesis
        by (auto simp: poll_commands_def intro: exI [of _ outs])
    qed
  next
    case (InboundItem i)
    show ?thesis
    proof (cases i)
      case (InboundMessage m)
      obtain r s' stop where h: "handle_client_message lib p m (br_session br) = (r, s', stop)"
        by (metis prod_cases3)
      with assms False InboundItem InboundMessage have t: "br_session br' = s'" "br_outbound br' = br_outbound br"
        "tn = TurnNext \<longrightarrow> r = Some (Inr None)"
        by (auto simp: bridge_turn_def split: option.splits sum.splits)
      from handle_client_message_commands [OF h] t InboundItem InboundMessage show ?thesis
        by (auto simp: poll_commands_def)
    qed (use assms False InboundItem in \<open>auto simp: bridge_turn_def\<close>)
  qed (use assms False in \<open>auto simp: bridge_turn_def\<close>)
qed

lemma drop_drop_append: "\<exists>n'. drop n (drop k xs @ ys) = drop n' (xs @ ys)"
proof
  have "drop k xs = drop (min k (length xs)) xs" by (simp add: min_def)
  then show "drop n (drop k xs @ ys) = drop (n + min k (length xs)) (xs @ ys)"
    by (simp add: drop_append add.commute flip: drop_drop)
qed

lemma apply_change_queues:
  "sn_commands (br_session (br\<lparr>br_session := apply_change c (br_session br)\<rparr>)) = drop (ch_taken c) (sn_commands (br_session br))"
  "sn_output (br_session (br\<lparr>br_session := apply_change c (br_session br)\<rparr>)) = sn_output (br_session br) @ ch_output c"
  by (simp_all add: apply_change_def)

lemma prefix_continue:
  assumes "xs @ ys = us @ vs" and "prefix ws (vs @ zs)"
  shows "prefix (us @ ws) (xs @ ys @ zs)"
proof -
  have "xs @ ys @ zs = us @ vs @ zs" using assms(1) by (metis append.assoc)
  with assms(2) show ?thesis by (simp only: same_prefix_prefix)
qed

text \<open>However the bridge runs, the commands in the session's queue are what was there and then the
  commands of the received messages in their order, none left out before the last one, less what the
  writer took from the front; and the socket is given the session's output unchanged, in its order,
  without gaps.\<close>

theorem bridge_faithful:
  "case bridge_loop lib ps br of (fin, br') \<Rightarrow>
     (\<exists>n cmds. sn_commands (br_session br') = drop n (sn_commands (br_session br) @ cmds)
        \<and> prefix cmds (concat (map (poll_commands lib) ps)))
     \<and> (\<exists>outs. br_outbound br' = br_outbound br @ map WsBinary outs
        \<and> prefix outs (sn_output (br_session br) @ concat (map (\<lambda>p. ch_output (bp_change p)) ps)))"
proof (induction ps arbitrary: br)
  case Nil
  show ?case by (auto intro: exI [of _ 0])
next
  case (Cons p ps)
  let ?br = "br\<lparr>br_session := apply_change (bp_change p) (br_session br)\<rparr>"
  obtain tn br1 where turn: "bridge_turn lib p ?br = (tn, br1)" by fastforce
  note change = apply_change_queues [of "bp_change p" br]
  from bridge_turn_faithful [OF turn] obtain cmds outs where
    cmds: "sn_commands (br_session br1) = sn_commands (br_session ?br) @ cmds" "prefix cmds (poll_commands lib p)"
      "tn = TurnNext \<longrightarrow> cmds = poll_commands lib p"
    and outs: "br_outbound br1 = br_outbound br @ map WsBinary outs" "prefix outs (sn_output (br_session ?br))"
      "tn = TurnNext \<longrightarrow> sn_output (br_session ?br) = outs @ sn_output (br_session br1)" by auto
  show ?case
  proof (cases "tn = TurnNext")
    case True
    obtain fin br' where loop: "bridge_loop lib ps br1 = (fin, br')" by fastforce
    from Cons.IH [of br1, unfolded loop] obtain n cmds' outs' where
      ih: "sn_commands (br_session br') = drop n (sn_commands (br_session br1) @ cmds')"
        "prefix cmds' (concat (map (poll_commands lib) ps))"
        "br_outbound br' = br_outbound br1 @ map WsBinary outs'"
        "prefix outs' (sn_output (br_session br1) @ concat (map (\<lambda>p. ch_output (bp_change p)) ps))" by auto
    obtain n' where "sn_commands (br_session br') = drop n' (sn_commands (br_session br) @ cmds @ cmds')"
      using ih(1) cmds(1) change(1) drop_drop_append
      by (metis append.assoc)
    moreover have "prefix (cmds @ cmds') (concat (map (poll_commands lib) (p # ps)))"
      using cmds(3) ih(2) True by simp
    moreover have "prefix (outs @ outs') (sn_output (br_session br) @ concat (map (\<lambda>p. ch_output (bp_change p)) (p # ps)))"
      using prefix_continue [OF _ ih(4)] outs(3) True change(2) by simp
    moreover have "br_outbound br' = br_outbound br @ map WsBinary (outs @ outs')"
      using ih(3) outs(1) by simp
    moreover have "bridge_loop lib (p # ps) br = (fin, br')" using turn True loop by simp
    ultimately show ?thesis by (simp only: prod.case) blast
  next
    case False
    with turn have "\<exists>fin. bridge_loop lib (p # ps) br = (fin, br1)" by (cases tn) auto
    then obtain fin where "bridge_loop lib (p # ps) br = (fin, br1)" ..
    moreover obtain n where "sn_commands (br_session br1) = drop n (sn_commands (br_session br) @ cmds)"
      using cmds(1) change(1) drop_drop_append [of 0] by (metis drop0)
    moreover have "prefix cmds (concat (map (poll_commands lib) (p # ps)))"
      using cmds(2) by simp
    moreover have "prefix outs (sn_output (br_session br) @ concat (map (\<lambda>p. ch_output (bp_change p)) (p # ps)))"
      using prefix_prefix [OF outs(2) [unfolded change(2)]] by simp
    ultimately show ?thesis using outs(1) by (simp only: prod.case) blast
  qed
qed

text \<open>While the bridge waits for a place in a full command queue it forwards no output, however much there
  is: a process that echoes its input and is not read from fills its terminal, the writer stops, and
  the queue stays full.\<close>

lemma bridge_stalls:
  assumes "\<not> bp_cancelled p" "bp_inbound p = InboundItem (InboundMessage (WsBinary b))" "bp_wait p = WaitPending"
    and "length b \<le> MAX_BINARY_BYTES" "\<not> sn_read_only (br_session br)" "sn_commands_open (br_session br)"
    and "length (sn_commands (br_session br)) = INPUT_CHANNEL_CAPACITY"
  shows "bridge_turn lib p br = (TurnWaits, br)"
proof -
  have "decode_client_binary b = Inr (TerminalInput b)"
    using assms(4) by (simp add: decode_client_binary_def check_binary_len_def)
  with assms show ?thesis
    by (simp add: bridge_turn_def handle_client_message_def await_command_def session_write_def send_command_def
      resolve_session_operation_def)
qed

section \<open>The last words\<close>

definition is_server_close :: "server_control \<Rightarrow> bool" where
  "is_server_close c = (case c of ServerClose _ \<Rightarrow> True | _ \<Rightarrow> False)"

text \<open>Valid controls, the last of them and only that a close.\<close>

definition orderly :: "server_control list \<Rightarrow> bool" where
  "orderly cs \<longleftrightarrow> cs \<noteq> [] \<and> list_all valid_server cs
     \<and> is_server_close (last cs) \<and> list_all (\<lambda>c. \<not> is_server_close c) (butlast cs)"

definition failure_ok :: "bridge_failure \<Rightarrow> bool" where
  "failure_ok f \<longleftrightarrow> valid_server (bf_error f) \<and> \<not> is_server_close (bf_error f)"

lemma failures_ok [simp]:
  "failure_ok (safe_session_error e)" "failure_ok (protocol_failure pe)" "failure_ok internal_failure"
  "failure_ok transport_failure"
proof -
  have "\<not> is_server_close (bf_error (safe_session_error e))"
    by (simp add: is_server_close_def failure_simps)
  then show "failure_ok (safe_session_error e)" by (simp only: failure_ok_def session_failure_valid simp_thms)
  show "failure_ok (protocol_failure pe)"
    using protocol_failure_valid [of pe] by (simp add: failure_ok_def is_server_close_def failure_simps)
  show "failure_ok internal_failure" "failure_ok transport_failure"
    using session_unavailable_valid by (simp_all add: failure_ok_def is_server_close_def failure_simps)
qed

lemma orderly_terminal: "orderly (terminal_controls closed)"
proof -
  have "valid_server session_unavailable" "\<not> is_server_close session_unavailable"
    using session_unavailable_valid by (simp_all add: is_server_close_def failure_simps)
  then show ?thesis
    by (auto simp: terminal_controls_def orderly_def is_server_close_def as_protocol_valid
      split: session_close_reason.splits option.splits)
qed

lemma orderly_failure: "failure_ok f \<Longrightarrow> orderly [bf_error f, ServerClose (bf_close_reason f)]"
  by (simp add: orderly_def failure_ok_def is_server_close_def)

text \<open>The failures handed in by the reader are fine, and so are those the bridge ends with.\<close>

fun inbound_ok :: "inbound \<Rightarrow> bool" where
  "inbound_ok (InboundFailure f) = failure_ok f"
| "inbound_ok (InboundMessage m) = True"

lemma read_socket_ok: "list_all inbound_ok (fst (read_socket es))"
  by (induction es rule: read_socket.induct) (auto split: ws_message.splits prod.splits)

fun poll_ok :: "bridge_poll \<Rightarrow> bool" where
  "poll_ok p = (case bp_inbound p of InboundItem i \<Rightarrow> inbound_ok i | _ \<Rightarrow> True)"

fun termination_ok :: "turn \<Rightarrow> bool" where
  "termination_ok (TurnEnds (Failed f)) = failure_ok f"
| "termination_ok _ = True"

lemma told_err: "map_err safe_session_error r = Inl f \<Longrightarrow> failure_ok f"
  by (cases r) (auto simp del: safe_session_error.simps)

lemma handle_client_message_ok:
  "handle_client_message lib p m s = (Some (Inl f), s', stop) \<Longrightarrow> failure_ok f"
  by (auto simp: handle_client_message_def resolve_session_operation_def dest: told_err
    split: ws_message.splits sum.splits prod.splits client_control.splits client_frame.splits option.splits
      if_splits simp del: safe_session_error.simps)

lemma forward_output_ok: "forward_output p b br = (tn, br') \<Longrightarrow> termination_ok tn"
  by (auto simp: forward_output_def simp del: safe_session_error.simps
    split: sum.splits server_frame.splits send_race.splits)

lemma bridge_turn_ok: "poll_ok p \<Longrightarrow> bridge_turn lib p br = (tn, br') \<Longrightarrow> termination_ok tn"
  by (auto simp: bridge_turn_def Let_def simp del: safe_session_error.simps
    dest: handle_client_message_ok forward_output_ok
    split: if_splits inbound_ready.splits inbound.splits option.splits sum.splits prod.splits)

lemma bridge_loop_ok:
  "list_all poll_ok ps \<Longrightarrow> bridge_loop lib ps br = (Some fin, br') \<Longrightarrow> termination_ok (TurnEnds fin)"
  by (induction ps arbitrary: br) (auto simp del: poll_ok.simps dest: bridge_turn_ok split: prod.splits turn.splits)

lemma send_controls_sent:
  assumes "send_controls lib cs oks = (sent, rest)"
  shows "\<exists>n texts. sent = map WsText texts \<and> n \<le> length cs
    \<and> list_all2 (\<lambda>c w. encode_server_control lib c = Inr w) (take n cs) texts"
  using assms
proof (induction lib cs oks arbitrary: sent rest rule: send_controls.induct)
  case (2 lib c cs oks)
  show ?case
  proof (cases "\<exists>w oks' sent'. encode_server_control lib c = Inr w \<and> oks = True # oks'
      \<and> send_controls lib cs oks' = (sent', rest) \<and> sent = WsText w # sent'")
    case True
    then obtain w oks' sent' where c: "encode_server_control lib c = Inr w" "oks = True # oks'"
      "send_controls lib cs oks' = (sent', rest)" "sent = WsText w # sent'" by blast
    from 2(1) [OF c(1,2) _ c(3)] obtain n texts where "sent' = map WsText texts" "n \<le> length cs"
      "list_all2 (\<lambda>c w. encode_server_control lib c = Inr w) (take n cs) texts" by auto
    with c show ?thesis by (intro exI [of _ "Suc n"] exI [of _ "w # texts"]) simp
  next
    case False
    with 2(2) have "sent = []"
      by (auto split: sum.splits list.splits if_splits prod.splits)
    then show ?thesis by (intro exI [of _ 0] exI [of _ "[]"]) simp
  qed
qed (intro exI [of _ 0] exI [of _ "[]"], simp)

text \<open>C40: When the bridge has ended, its last words are the encodings of the first of an orderly list of
  controls, each valid and the only close the last of them, then at most one close frame; nothing is
  said to a client that is gone or that did not take its output.\<close>

theorem bridge_ends_orderly:
  assumes "list_all poll_ok ps" and "bridge_loop lib ps br = (Some fin, br')"
  shows "\<exists>cs n texts closes. br_outbound (finish_bridge lib fin oks br') = br_outbound br' @ map WsText texts @ closes
    \<and> list_all2 (\<lambda>c w. encode_server_control lib c = Inr w) (take n cs) texts
    \<and> (closes = [] \<or> (\<exists>code. closes = [WsClose (Some code)]))
    \<and> (if fin = TransportGone \<or> fin = BackpressuredTerminal then cs = [] \<and> closes = [] else orderly cs)"
proof -
  from bridge_loop_ok [OF assms] have ok: "termination_ok (TurnEnds fin)" .
  have told: ?thesis if plan: "finish_plan fin = (request, Some (cs, code))" "orderly cs"
    "fin \<noteq> TransportGone" "fin \<noteq> BackpressuredTerminal" for request cs code
  proof -
    obtain sent rest where s: "send_controls lib cs oks = (sent, rest)" by fastforce
    from send_controls_sent [OF s] obtain n texts where t: "sent = map WsText texts"
      "list_all2 (\<lambda>c w. encode_server_control lib c = Inr w) (take n cs) texts" by blast
    have "close_frame code rest = [] \<or> close_frame code rest = [WsClose (Some code)]"
      by (simp add: close_frame_def split: list.split)
    with plan s t show ?thesis
      by (intro exI [of _ cs] exI [of _ n] exI [of _ texts] exI [of _ "close_frame code rest"])
        (auto simp: finish_bridge_def)
  qed
  show ?thesis
  proof (cases fin)
    case (Terminal closed)
    then show ?thesis using told [of None "terminal_controls closed" 1000] orderly_terminal by simp
  next
    case (Failed f)
    with ok told orderly_failure show ?thesis by simp
  qed (auto simp: finish_bridge_def intro!: exI [of _ "[]"])
qed

section \<open>Witnesses\<close>

definition demo_envelope :: "bytes \<Rightarrow> unit + string" where
  "demo_envelope text = Inr text"

definition demo_accept_env :: accept_env where
  "demo_accept_env = \<lparr>ae_received = [GotMessage (WsPing []), GotMessage (WsText demo_token)], ae_now = 5,
     ae_audit = demo_answers, ae_start = demo_start_env\<rparr>"

lemma demo_handshake:
  "await_handshake (ae_received demo_accept_env) = HandshakeGot (WsText demo_token)"
  "parse_handshake demo_envelope (WsText demo_token) = Inr demo_token"
  by (simp_all add: demo_accept_env_def parse_handshake_def demo_token_def demo_envelope_def HANDSHAKE_MAX_BYTES_def)

definition demo_upgrade_manager :: session_manager where
  "demo_upgrade_manager = demo_reserved_manager\<lparr>mg_audit := Some demo_audit_log\<rparr>"

lemma demo_upgrade_capacity:
  "mg_capacity demo_upgrade_manager = \<lparr>cp_max_sessions = 2, cp_max_sessions_per_identity = 1, cp_next_id = 0,
     cp_closed = False, cp_leases = [(0, \<lparr>ls_identity = Identity ''al'', ls_state = Pending 9\<rparr>)]\<rparr>"
  "mg_registry demo_upgrade_manager = registry_new"
  by (simp_all add: demo_upgrade_manager_def demo_reserved_manager_def demo_manager_simps)

lemma demo_accepted:
  "\<exists>cn tickets' m'. accept_upgrade demo_envelope demo_libs demo_accept_env (Identity ''al'') None demo_store
     demo_upgrade_manager = (AcceptStarting (PtyTarget demo_pty) 0 cn, tickets', m')
     \<and> cn_child cn = new_child 7 \<and> mg_audit m' = Some demo_audit_log"
proof -
  have name: "pt_name demo_pty = ''pty''" by (simp add: demo_pty_def)
  have now: "ae_now demo_accept_env = 5" "ae_start demo_accept_env = demo_start_env" "be_now demo_start_env = 5"
    by (simp_all add: demo_accept_env_def demo_start_env_def)
  have res: "resolve_backend_target demo_start_env demo_upgrade_manager who ''pty''
      = Inr \<lparr>bs_target_name = ''pty'', bs_read_only = True, bs_spawn = SpawnPty demo_pty\<rparr>" for who
  proof -
    have "mg_targets demo_upgrade_manager = mg_targets demo_manager" "mg_prepared demo_upgrade_manager = mg_prepared demo_manager"
      by (simp_all add: demo_upgrade_manager_def demo_reserved_manager_def)
    then show ?thesis using demo_resolved [of who] by (simp only: resolve_backend_target_def)
  qed
  have "\<exists>cn m'. accept_redeemed demo_libs demo_accept_env (Identity ''al'') None
      (PtyTarget demo_pty, Reservation (Some 0)) demo_upgrade_manager
      = (AcceptStarting (PtyTarget demo_pty) 0 cn, m') \<and> cn_child cn = new_child 7 \<and> mg_audit m' = Some demo_audit_log"
    by (simp add: accept_redeemed_def supports_redeemed_target_def name start_reserved_with_remote_def
      demo_upgrade_capacity registry_new_def INITIAL_SIZE_def demo_validated_dims activate_def now
      purge_expired_leases_def hm_retain_def hm_get_def Let_def start_resolved_def res start_admitted_def
      demo_spawned register_supervisor_def) (simp add: demo_upgrade_manager_def)
  then show ?thesis
    by (auto simp: accept_upgrade_def demo_handshake now demo_redeem Let_def)
qed

theorem attached_by_ticket_witness:
  "\<exists>(cn :: connecting) (entry :: ticket_entry). hm_get (ts_entries demo_store) demo_token = Some entry
     \<and> cn_reservation cn = tk_reservation entry \<and> cn_identity cn = Identity ''al'' \<and> 5 < tk_expires_at entry"
proof -
  from demo_accepted obtain cn tickets' m' where "accept_upgrade demo_envelope demo_libs demo_accept_env
    (Identity ''al'') None demo_store demo_upgrade_manager = (AcceptStarting (PtyTarget demo_pty) 0 cn, tickets', m')"
    by blast
  from attached_by_ticket [OF demo_store_wf this] obtain msg ticket entry where
    "await_handshake (ae_received demo_accept_env) = HandshakeGot (WsText msg)"
    "demo_envelope msg = Inr ticket" "hm_get (ts_entries demo_store) ticket = Some entry"
    "cn_reservation cn = tk_reservation entry" "cn_identity cn = Identity ''al''"
    "ae_now demo_accept_env < tk_expires_at entry" by blast
  then show ?thesis
    by (intro exI [of _ cn] exI [of _ entry]) (simp add: demo_handshake demo_envelope_def demo_accept_env_def)
qed

text \<open>The same upgrade when the manager shuts down while the session connects: the connecting task refuses
  it, the upgrade records the denial.\<close>

definition demo_closing_env :: connect_env where
  "demo_closing_env = demo_connect_env [\<lparr>cq_close = CloseSeen (Some CloseManagerShutdown),
     cq_caller_gone = False, cq_reads = [], cq_child = ChildRunning, cq_deadline = False, cq_panics = False\<rparr>]"

lemma demo_closed_connecting:
  assumes "cn_child cn = new_child 7"
  shows "\<exists>c. run_connecting libs demo_closing_env cn audit cap
    = ConnectingRefused (Some ManagerClosed) [] c audit (reservation_drop (cn_reservation cn) cap)"
  using assms
  by (simp add: demo_closing_env_def demo_connect_env_def run_connecting_def refuse_after_cleanup_def refusal_def Let_def
    demo_cleanup_def terminate_def signal_phase_def new_child_def note_op_def poll_exit_observed_def child_wait_def
    process_group_absent_def)

lemma demo_refused_connect:
  "\<exists>tickets' m'. accept_and_connect demo_envelope demo_libs demo_accept_env demo_closing_env (Identity ''al'') None demo_store
     demo_upgrade_manager = (AcceptTold (safe_session_error ManagerClosed), tickets', m')"
proof -
  from demo_accepted obtain cn tickets' m1 where up: "accept_upgrade demo_envelope demo_libs demo_accept_env
      (Identity ''al'') None demo_store demo_upgrade_manager = (AcceptStarting (PtyTarget demo_pty) 0 cn, tickets', m1)"
    "cn_child cn = new_child 7" "mg_audit m1 = Some demo_audit_log" by blast
  from demo_closed_connecting [OF up(2)] obtain c where
    c: "run_connecting demo_libs demo_closing_env cn (mg_audit m1) (mg_capacity m1)
      = ConnectingRefused (Some ManagerClosed) [] c (mg_audit m1) (reservation_drop (cn_reservation cn) (mg_capacity m1))"
    by blast
  have "record_session_denial demo_libs demo_answers (Identity ''al'') t None ManagerClosed demo_audit_log
      = (Inr (), demo_logged)" for t
    using demo_record
    by (simp add: record_session_denial_def deny_access_def correlation_id_generate_def from_system_time_def
      demo_libs_def demo_answers_def)
  with up c show ?thesis
    by (simp add: accept_and_connect_def await_start_def connecting_settled_def on_log_def accept_failed_def told_if_def
      is_ok_def demo_accept_env_def del: safe_session_error.simps)
qed

theorem refused_upgrade_witness:
  "\<exists>m' :: session_manager. denial_recorded demo_libs demo_answers (Identity ''al'') None (Some demo_audit_log) (mg_audit m')
     \<and> hm_get (cp_leases (mg_capacity m')) 0 = None \<and> hm_get (rg_active (mg_registry m')) 0 = None"
proof -
  have wf: "hm_wf (cp_leases (mg_capacity demo_upgrade_manager))"
    by (simp add: demo_upgrade_capacity hm_wf_def)
  from demo_refused_connect obtain tickets' m' where up: "accept_and_connect demo_envelope demo_libs demo_accept_env
      demo_closing_env (Identity ''al'') None demo_store demo_upgrade_manager
      = (AcceptTold (safe_session_error ManagerClosed), tickets', m')" by blast
  have audits: "ae_audit demo_accept_env = demo_answers" "be_audit (ae_start demo_accept_env) = demo_answers"
    "ce_audit demo_closing_env = demo_answers" "mg_audit demo_upgrade_manager = Some demo_audit_log"
    "ae_now demo_accept_env = 5" "hm_get (rg_active (mg_registry demo_upgrade_manager)) 0 = None"
    by (simp_all add: demo_accept_env_def demo_start_env_def demo_closing_env_def demo_connect_env_def
      demo_upgrade_manager_def demo_reserved_manager_def demo_manager_simps registry_new_def hm_get_def)
  have told: "safe_session_error ManagerClosed \<noteq> internal_failure" by (simp add: failure_simps)
  have red: "fst (redeem demo_token (Identity ''al'') (ae_now demo_accept_env) demo_store)
      = Inr (PtyTarget demo_pty, Reservation (Some 0))"
    by (simp add: audits demo_redeem)
  from refused_upgrade [OF wf up] have "hm_get (rg_active (mg_registry m')) 0 = None"
    unfolding audits by (metis audits(6))
  with refused_upgrade [OF wf up] told red demo_handshake audits show ?thesis
    by (intro exI [of _ m']) (auto simp del: safe_session_error.simps)
qed

definition demo_bridge :: bridge where
  "demo_bridge = \<lparr>br_session = \<lparr>sn_commands = [], sn_commands_open = True, sn_output = [], sn_output_open = False,
     sn_close = None, sn_final = Some \<lparr>sc_state = SessionClosed, sc_reason = CloseExplicit, sc_outcome = None\<rparr>,
     sn_events = [], sn_read_only = False\<rparr>, br_outbound = [], br_stop_input = False\<rparr>"

definition demo_bridge_poll :: bridge_poll where
  "demo_bridge_poll = \<lparr>bp_change = \<lparr>ch_taken = 0, ch_commands_open = True, ch_output = [''a''], ch_output_open = True,
     ch_final = None\<rparr>, bp_cancelled = False, bp_inbound = InboundEmpty, bp_wait = WaitPending,
     bp_closed = None, bp_send = RaceSent\<rparr>"

definition demo_bridge_polls :: "bridge_poll list" where
  "demo_bridge_polls = [demo_bridge_poll, demo_bridge_poll\<lparr>
     bp_change := (bp_change demo_bridge_poll)\<lparr>ch_output := []\<rparr>,
     bp_closed := Some (Inr \<lparr>sc_state = SessionClosed, sc_reason = CloseExplicit, sc_outcome = None\<rparr>)\<rparr>]"

lemma demo_bridged:
  "\<exists>br'. bridge_loop lib demo_bridge_polls demo_bridge
     = (Some (Terminal \<lparr>sc_state = SessionClosed, sc_reason = CloseExplicit, sc_outcome = None\<rparr>), br')
     \<and> br_outbound br' = [WsBinary ''a'']"
  by (simp add: demo_bridge_polls_def demo_bridge_poll_def demo_bridge_def apply_change_def bridge_turn_def Let_def
    session_read_def forward_output_def decode_server_binary_def check_binary_len_def MAX_BINARY_BYTES_def)

theorem bridge_ends_orderly_witness:
  "\<exists>(br' :: bridge) cs texts closes. br_outbound br' = [WsBinary ''a'']
     \<and> br_outbound (finish_bridge plain_json_lib (Terminal \<lparr>sc_state = SessionClosed, sc_reason = CloseExplicit,
          sc_outcome = None\<rparr>) [True, True] br') = [WsBinary ''a''] @ map WsText texts @ closes \<and> orderly cs"
proof -
  have ok: "list_all poll_ok demo_bridge_polls" by (simp add: demo_bridge_polls_def demo_bridge_poll_def)
  from demo_bridged obtain br' where
    b: "bridge_loop plain_json_lib demo_bridge_polls demo_bridge = (Some (Terminal \<lparr>sc_state = SessionClosed,
       sc_reason = CloseExplicit, sc_outcome = None\<rparr>), br')" "br_outbound br' = [WsBinary ''a'']" by blast
  from bridge_ends_orderly [OF ok b(1), of "[True, True]"] b(2) show ?thesis by auto
qed

end
