(* ===== verification/Auth.thy ===== *)
theory Auth
  imports Ticket
begin

text \<open>
  \<open>auth.rs\<close>: browser sessions and the two authentication providers. A browser session store maps
  cookie tokens to identities, holds at most 1024 of them and evicts the oldest; the development
  provider serves one configured identity, the trusted-proxy provider takes the identity from a
  header that only a trusted peer may send. The header map of the HTTP library is the list of its
  entries, the base64 encoder and the CIDR membership test are parameters, random bytes and clock
  readings are arguments. Lemmas: what a cookie header must be to authenticate, the round trip from
  a set cookie to the identity, bounded storage, and the trust boundary of the proxy.
\<close>

type_synonym header_map = "(header_name \<times> bytes) list"

definition get_all :: "header_map \<Rightarrow> header_name \<Rightarrow> bytes list" where
  "get_all headers name = map snd (filter (\<lambda>h. fst h = name) headers)"

definition SESSION_COOKIE_NAME :: string where "SESSION_COOKIE_NAME = ''ttgate_session''"
definition SESSION_LENGTH :: nat where "SESSION_LENGTH = 43"
definition MAX_BROWSER_SESSIONS :: nat where "MAX_BROWSER_SESSIONS = 1024"

record auth_context =
  ac_headers :: header_map
  ac_peer_addr :: "socket_addr option"

record provisioned_identity =
  pv_identity :: identity
  pv_cookie :: string

datatype auth_error =
    CookieMissing | CookieMalformed | SessionUnknown | SessionAtCapacity | SessionGeneration
  | InvalidIdentity | MissingPeer | UntrustedPeer | MissingIdentityHeader | DuplicateIdentityHeader
  | InvalidIdentityHeader

record browser_session =
  bs_identity :: identity
  bs_created_at :: instant

type_synonym browser_sessions = "(string, browser_session) hash_map"

text \<open>\<open>iter().min_by_key(created_at)\<close>: the first of the least.\<close>

fun oldest :: "browser_sessions \<Rightarrow> string option" where
  "oldest [] = None"
| "oldest ((token, s) # m) =
     (case oldest m of
        None \<Rightarrow> Some token
      | Some other \<Rightarrow>
          (case map_of m other of
             None \<Rightarrow> Some token
           | Some o' \<Rightarrow> if bs_created_at s \<le> bs_created_at o' then Some token else Some other))"

definition set_cookie :: "string \<Rightarrow> string" where
  "set_cookie token = SESSION_COOKIE_NAME @ ''='' @ token @ ''; Path=/; Secure; HttpOnly; SameSite=Strict''"

definition evict_oldest :: "browser_sessions \<Rightarrow> browser_sessions" where
  "evict_oldest m =
     (if hm_len m \<ge> MAX_BROWSER_SESSIONS then
        (case oldest m of None \<Rightarrow> m | Some token \<Rightarrow> hm_remove token m)
      else m)"

text \<open>The attempts of \<open>establish\<close>: random bytes \<open>fill i\<close>, and the clock \<open>clk i\<close> on insertion.\<close>

fun establish_attempts ::
  "(bytes \<Rightarrow> string) \<Rightarrow> (nat \<Rightarrow> unit + bytes) \<Rightarrow> (nat \<Rightarrow> instant) \<Rightarrow> identity \<Rightarrow> nat \<Rightarrow> nat \<Rightarrow>
   browser_sessions \<Rightarrow> (auth_error + provisioned_identity) \<times> browser_sessions" where
  "establish_attempts encode fill clk who i 0 m = (Inl SessionGeneration, m)"
| "establish_attempts encode fill clk who i (Suc k) m =
     (case fill i of
        Inl _ \<Rightarrow> (Inl SessionGeneration, m)
      | Inr raw \<Rightarrow>
          (let token = encode raw in
           if hm_get m token = None then
             (Inr \<lparr>pv_identity = who, pv_cookie = set_cookie token\<rparr>,
              hm_insert token \<lparr>bs_identity = who, bs_created_at = clk i\<rparr> m)
           else establish_attempts encode fill clk who (Suc i) k m))"

definition establish ::
  "(bytes \<Rightarrow> string) \<Rightarrow> (nat \<Rightarrow> unit + bytes) \<Rightarrow> (nat \<Rightarrow> instant) \<Rightarrow> identity \<Rightarrow>
   browser_sessions \<Rightarrow> (auth_error + provisioned_identity) \<times> browser_sessions" where
  "establish encode fill clk who m = establish_attempts encode fill clk who 0 4 (evict_oldest m)"

fun scan_cookies :: "string list \<Rightarrow> string option \<Rightarrow> auth_error + string option" where
  "scan_cookies [] found = Inr found"
| "scan_cookies (pair # pairs) found =
     (case split_once (CHR ''='') (trim pair) of
        None \<Rightarrow> Inl CookieMalformed
      | Some (name, value) \<Rightarrow>
          if name = SESSION_COOKIE_NAME then
            (if found \<noteq> None \<or> length value \<noteq> SESSION_LENGTH \<or> \<not> list_all token_byte value
             then Inl CookieMalformed
             else scan_cookies pairs (Some value))
          else scan_cookies pairs found)"

definition authenticate_session :: "browser_sessions \<Rightarrow> string option \<Rightarrow> auth_error + identity" where
  "authenticate_session m cookie_header =
     and_then (ok_or CookieMissing cookie_header) (\<lambda>header.
     and_then (fail_if (length header > 4096) CookieMalformed) (\<lambda>_.
     and_then (scan_cookies (split_on (CHR '';'') header) None) (\<lambda>found.
     and_then (ok_or CookieMissing found) (\<lambda>token.
     ok_or SessionUnknown (map_option bs_identity (hm_get m token))))))"

subsection \<open>Providers\<close>

datatype auth_provider =
    DevAuthProvider identity browser_sessions
  | TrustedProxyAuthProvider header_name "ip_net list" browser_sessions

definition dev_auth_provider_new :: "string \<Rightarrow> identity_error + auth_provider" where
  "dev_auth_provider_new user = map_ok (\<lambda>who. DevAuthProvider who []) (identity_new user)"

definition trusted_proxy_auth_provider_new ::
  "header_name \<Rightarrow> ip_net list \<Rightarrow> unit + auth_provider" where
  "trusted_proxy_auth_provider_new identity_header sources =
     and_then (fail_if (sources = []) ()) (\<lambda>_. Inr (TrustedProxyAuthProvider identity_header sources []))"

definition trusted_peer :: "config_lib \<Rightarrow> ip_net list \<Rightarrow> auth_context \<Rightarrow> auth_error + ip_addr" where
  "trusted_peer lib sources ctx =
     and_then (ok_or MissingPeer (ac_peer_addr ctx)) (\<lambda>addr.
     let peer = addr_ip addr in
     if list_ex (\<lambda>network. ipnet_contains lib network peer) sources then Inr peer else Inl UntrustedPeer)"

definition identity_from_header :: "header_name \<Rightarrow> header_map \<Rightarrow> auth_error + identity" where
  "identity_from_header identity_header headers =
     (case get_all headers identity_header of
        [] \<Rightarrow> Inl MissingIdentityHeader
      | value # extra \<Rightarrow>
          and_then (fail_if (extra \<noteq> []) DuplicateIdentityHeader) (\<lambda>_.
          and_then (fail_if (\<not> is_str value) InvalidIdentityHeader) (\<lambda>_.
          and_then (fail_if (value = [] \<or> length value > 128 \<or> list_ex is_whitespace (chars value)
              \<or> list_ex is_control (chars value)) InvalidIdentityHeader) (\<lambda>_.
          map_err (\<lambda>_. InvalidIdentityHeader) (identity_new value)))))"

definition auth_establish ::
  "config_lib \<Rightarrow> (bytes \<Rightarrow> string) \<Rightarrow> (nat \<Rightarrow> unit + bytes) \<Rightarrow> (nat \<Rightarrow> instant) \<Rightarrow> auth_context \<Rightarrow>
   auth_provider \<Rightarrow> (auth_error + provisioned_identity) \<times> auth_provider" where
  "auth_establish lib encode fill clk ctx p =
     (case p of
        DevAuthProvider who m \<Rightarrow>
          (case establish encode fill clk who m of (res, m') \<Rightarrow> (res, DevAuthProvider who m'))
      | TrustedProxyAuthProvider h sources m \<Rightarrow>
          (case and_then (trusted_peer lib sources ctx) (\<lambda>_. identity_from_header h (ac_headers ctx)) of
             Inl err \<Rightarrow> (Inl err, p)
           | Inr who \<Rightarrow>
               (case establish encode fill clk who m of
                  (res, m') \<Rightarrow> (res, TrustedProxyAuthProvider h sources m'))))"

definition auth_authenticate ::
  "config_lib \<Rightarrow> auth_context \<Rightarrow> string option \<Rightarrow> auth_provider \<Rightarrow> auth_error + identity" where
  "auth_authenticate lib ctx cookie_header p =
     (case p of
        DevAuthProvider who m \<Rightarrow> authenticate_session m cookie_header
      | TrustedProxyAuthProvider h sources m \<Rightarrow>
          and_then (trusted_peer lib sources ctx) (\<lambda>_. authenticate_session m cookie_header))"

fun provider_sessions :: "auth_provider \<Rightarrow> browser_sessions" where
  "provider_sessions (DevAuthProvider who m) = m"
| "provider_sessions (TrustedProxyAuthProvider h sources m) = m"

subsection \<open>The session store\<close>

lemma oldest_None: "oldest m = None \<longleftrightarrow> m = []"
  by (cases m) (auto split: option.splits prod.splits)

lemma oldest_in: "oldest m = Some token \<Longrightarrow> token \<in> fst ` set m"
  by (induction m rule: oldest.induct) (auto split: option.splits if_splits)

lemma delete_present_length:
  "hm_wf m \<Longrightarrow> token \<in> fst ` set m \<Longrightarrow> Suc (hm_len (hm_remove token m)) = hm_len m"
  by (induction m) (auto simp: hm_wf_def hm_len_def hm_remove_def delete_id)

lemma evict_room:
  assumes "hm_wf m" "hm_len m \<le> MAX_BROWSER_SESSIONS"
  shows "hm_wf (evict_oldest m)" "hm_len (evict_oldest m) < MAX_BROWSER_SESSIONS"
proof -
  show "hm_wf (evict_oldest m)"
    using assms by (auto simp: evict_oldest_def hm.wf_del split: option.splits)
  show "hm_len (evict_oldest m) < MAX_BROWSER_SESSIONS"
  proof (cases "hm_len m \<ge> MAX_BROWSER_SESSIONS")
    case True
    then have "m \<noteq> []" by (auto simp: MAX_BROWSER_SESSIONS_def)
    then obtain token where o: "oldest m = Some token" by (cases "oldest m") (simp_all add: oldest_None)
    from delete_present_length [OF assms(1) oldest_in [OF this]] o True assms(2) show ?thesis
      by (simp add: evict_oldest_def)
  qed (simp add: evict_oldest_def)
qed

lemma establish_attempts_result:
  assumes "establish_attempts encode fill clk who i k m = (res, m')"
  shows "case res of
      Inr p \<Rightarrow> \<exists>j < i + k. \<exists>raw. fill j = Inr raw \<and> hm_get m (encode raw) = None
        \<and> p = \<lparr>pv_identity = who, pv_cookie = set_cookie (encode raw)\<rparr>
        \<and> m' = hm_insert (encode raw) \<lparr>bs_identity = who, bs_created_at = clk j\<rparr> m
    | Inl err \<Rightarrow> err = SessionGeneration \<and> m' = m"
  using assms
proof (induction k arbitrary: i)
  case (Suc k)
  show ?case
  proof (cases "fill i")
    case (Inl u)
    with Suc.prems have "res = Inl SessionGeneration" "m' = m" by simp_all
    then show ?thesis by simp
  next
    case (Inr raw)
    show ?thesis
    proof (cases "hm_get m (encode raw) = None")
      case True
      with Suc.prems Inr show ?thesis by (auto simp: Let_def intro!: exI [of _ i])
    next
      case False
      with Suc.prems Inr have "establish_attempts encode fill clk who (Suc i) k m = (res, m')"
        by (auto simp: Let_def)
      from Suc.IH [OF this] show ?thesis by (cases res) auto
    qed
  qed
qed auto

definition sessions_inv :: "browser_sessions \<Rightarrow> bool" where
  "sessions_inv m \<longleftrightarrow> hm_wf m \<and> hm_len m \<le> MAX_BROWSER_SESSIONS"

lemma establish_inv:
  assumes "sessions_inv m" shows "sessions_inv (snd (establish encode fill clk who m))"
proof -
  obtain res m' where e: "establish_attempts encode fill clk who 0 4 (evict_oldest m) = (res, m')"
    by fastforce
  from assms have "hm_wf (evict_oldest m)" "hm_len (evict_oldest m) < MAX_BROWSER_SESSIONS"
    by (simp_all add: sessions_inv_def evict_room)
  then have "sessions_inv m'"
    using establish_attempts_result [OF e]
    by (auto simp: sessions_inv_def hm.wf_put hm.bounded_put split: sum.splits)
  then show ?thesis by (simp add: establish_def e)
qed

text \<open>A run of a provider: establish requests with their arguments.\<close>

definition provider_step ::
  "config_lib \<Rightarrow> (bytes \<Rightarrow> string) \<Rightarrow> auth_provider \<Rightarrow>
   (nat \<Rightarrow> unit + bytes) \<times> (nat \<Rightarrow> instant) \<times> auth_context \<Rightarrow> auth_provider" where
  "provider_step lib encode p = (\<lambda>(fill, clk, ctx). snd (auth_establish lib encode fill clk ctx p))"

lemma provider_step_inv:
  "sessions_inv (provider_sessions p) \<Longrightarrow> sessions_inv (provider_sessions (provider_step lib encode p x))"
proof (cases p)
  case (DevAuthProvider who m)
  moreover assume "sessions_inv (provider_sessions p)"
  ultimately show ?thesis
    using establish_inv [of m]
    by (auto simp: provider_step_def auth_establish_def split: prod.splits) (metis snd_conv)
next
  case (TrustedProxyAuthProvider h sources m)
  moreover assume "sessions_inv (provider_sessions p)"
  ultimately show ?thesis
    using establish_inv [of m]
    by (auto simp: provider_step_def auth_establish_def split: prod.splits sum.splits) (metis snd_conv)
qed

interpretation provider: safety_system "provider_step lib encode" "\<lambda>p. sessions_inv (provider_sessions p)"
  for lib encode
  by unfold_locales (rule provider_step_inv)

subsection \<open>Cookies\<close>

fun cookie_values :: "string list \<Rightarrow> string list" where
  "cookie_values [] = []"
| "cookie_values (pair # pairs) =
     (case split_once (CHR ''='') (trim pair) of
        None \<Rightarrow> cookie_values pairs
      | Some (name, value) \<Rightarrow>
          if name = SESSION_COOKIE_NAME then value # cookie_values pairs else cookie_values pairs)"

definition pairs_ok :: "string list \<Rightarrow> bool" where
  "pairs_ok pairs \<longleftrightarrow> list_all (\<lambda>p. split_once (CHR ''='') (trim p) \<noteq> None) pairs"

definition token_shape :: "string \<Rightarrow> bool" where
  "token_shape v \<longleftrightarrow> length v = 43 \<and> list_all token_byte v"

lemma scan_cookies_found:
  "scan_cookies pairs (Some f) = Inr r \<longleftrightarrow> pairs_ok pairs \<and> cookie_values pairs = [] \<and> r = Some f"
  by (induction pairs) (auto simp: pairs_ok_def split: option.splits)

lemma scan_cookies_none:
  "scan_cookies pairs None = Inr (Some token) \<longleftrightarrow>
     pairs_ok pairs \<and> cookie_values pairs = [token] \<and> token_shape token"
  by (induction pairs)
    (auto simp: pairs_ok_def token_shape_def SESSION_LENGTH_def scan_cookies_found split: option.splits)

lemma token_byte_cases: "token_byte b \<Longrightarrow> ord b < 128 \<and> \<not> is_whitespace (ord b) \<and> ord b \<noteq> 59 \<and> ord b \<noteq> 61"
  unfolding token_byte_def ascii_defs is_whitespace_def by (elim disjE) auto

lemma cookie_pair_trim:
  assumes "token_shape token"
  shows "trim (SESSION_COOKIE_NAME @ ''='' @ token) = SESSION_COOKIE_NAME @ ''='' @ token"
proof (rule trim_id)
  have "token \<noteq> []" and l: "list_all token_byte token"
    using assms by (auto simp: token_shape_def)
  then have "token_byte (last token)" by (auto simp: list_all_iff)
  with \<open>token \<noteq> []\<close> show "\<not> is_whitespace (ord (last (SESSION_COOKIE_NAME @ ''='' @ token)))"
    using token_byte_cases by simp
  show "is_ascii (SESSION_COOKIE_NAME @ ''='' @ token)"
    using l token_byte_cases by (auto simp: is_ascii_def SESSION_COOKIE_NAME_def list_all_iff)
qed (simp_all add: SESSION_COOKIE_NAME_def is_whitespace_def)

lemma cookie_pair_authenticates:
  assumes "token_shape token" "hm_get m token = Some s"
  shows "authenticate_session m (Some (SESSION_COOKIE_NAME @ ''='' @ token)) = Inr (bs_identity s)"
proof -
  let ?h = "SESSION_COOKIE_NAME @ ''='' @ token"
  have "CHR '';'' \<notin> set token"
    using assms(1) token_byte_cases by (fastforce simp: token_shape_def list_all_iff)
  then have "split_on (CHR '';'') ?h = [?h]"
    by (intro split_on_absent) (simp add: SESSION_COOKIE_NAME_def)
  moreover have "split_once (CHR ''='') (trim ?h) = Some (SESSION_COOKIE_NAME, token)"
    using cookie_pair_trim [OF assms(1)] by (simp add: split_once_Some SESSION_COOKIE_NAME_def)
  ultimately show ?thesis
    using assms by (simp add: authenticate_session_def token_shape_def SESSION_LENGTH_def)
      (simp add: SESSION_COOKIE_NAME_def)
qed

subsection \<open>Properties\<close>

text \<open>C17: A cookie header authenticates an identity iff it is at most 4096 bytes of name=value
  pairs of which exactly one is the session cookie, its value has the shape of a token, and the
  store holds that token for the identity.\<close>

theorem authenticate_exact:
  "authenticate_session m (Some header) = Inr who \<longleftrightarrow>
     length header \<le> 4096
     \<and> list_all (\<lambda>p. split_once (CHR ''='') (trim p) \<noteq> None) (split_on (CHR '';'') header)
     \<and> (\<exists>token. cookie_values (split_on (CHR '';'') header) = [token]
          \<and> length token = 43 \<and> list_all token_byte token
          \<and> map_option bs_identity (hm_get m token) = Some who)"
proof -
  have "authenticate_session m (Some header) = Inr who \<longleftrightarrow>
      length header \<le> 4096 \<and> (\<exists>token. scan_cookies (split_on (CHR '';'') header) None = Inr (Some token)
        \<and> map_option bs_identity (hm_get m token) = Some who)"
    by (auto simp: authenticate_session_def)
  then show ?thesis
    unfolding scan_cookies_none pairs_ok_def token_shape_def by blast
qed

text \<open>A provider never keeps more than 1024 browser sessions, whatever establish requests it
  serves.\<close>

theorem sessions_bounded:
  assumes "hm_wf (provider_sessions p)" "hm_len (provider_sessions p) \<le> MAX_BROWSER_SESSIONS"
  shows "hm_len (provider_sessions (run (provider_step lib encode) p reqs)) \<le> 1024"
  using provider.run_inv [of p lib encode reqs] assms
  by (simp add: sessions_inv_def MAX_BROWSER_SESSIONS_def)

text \<open>An established session authenticates: the token of the cookie that was set, sent back as
  a cookie header, yields the identity it was established for.\<close>

theorem established_session_authenticates:
  assumes "auth_establish lib encode fill clk ctx p = (Inr pv, p')"
    and base64: "\<And>j raw. fill j = Inr raw \<Longrightarrow> length (encode raw) = 43 \<and> list_all token_byte (encode raw)"
  shows "\<exists>token. pv_cookie pv =
        ''ttgate_session='' @ token @ ''; Path=/; Secure; HttpOnly; SameSite=Strict''
    \<and> authenticate_session (provider_sessions p') (Some (''ttgate_session='' @ token)) = Inr (pv_identity pv)"
proof -
  obtain who m' where e: "establish encode fill clk who (provider_sessions p) = (Inr pv, m')"
    and p': "provider_sessions p' = m'"
    using assms(1) by (cases p) (auto simp: auth_establish_def split: prod.splits sum.splits)
  from e have "establish_attempts encode fill clk who 0 4 (evict_oldest (provider_sessions p)) = (Inr pv, m')"
    by (simp add: establish_def)
  from establish_attempts_result [OF this] obtain j raw where
    raw: "fill j = Inr raw" and pv: "pv = \<lparr>pv_identity = who, pv_cookie = set_cookie (encode raw)\<rparr>"
    and m': "m' = hm_insert (encode raw) \<lparr>bs_identity = who, bs_created_at = clk j\<rparr>
      (evict_oldest (provider_sessions p))"
    by auto
  have "token_shape (encode raw)" using base64 [OF raw] by (simp add: token_shape_def)
  from cookie_pair_authenticates [OF this, of m' "\<lparr>bs_identity = who, bs_created_at = clk j\<rparr>"]
  show ?thesis
    by (intro exI [of _ "encode raw"]) (simp add: pv p' m' set_cookie_def SESSION_COOKIE_NAME_def)
qed

text \<open>Establishing a session keeps every other session, except the oldest one when 1024 are
  stored.\<close>

theorem establish_keeps_others:
  assumes "hm_wf m" "hm_get m token = Some s" "hm_len m < 1024 \<or> oldest m \<noteq> Some token"
  shows "hm_get (snd (establish encode fill clk who m)) token = Some s"
proof -
  have kept: "hm_get (evict_oldest m) token = Some s"
    using assms by (auto simp: evict_oldest_def MAX_BROWSER_SESSIONS_def hm.get_del split: option.splits)
  obtain res m' where e: "establish_attempts encode fill clk who 0 4 (evict_oldest m) = (res, m')"
    by fastforce
  from establish_attempts_result [OF e] kept have "hm_get m' token = Some s"
    by (auto split: sum.splits)
  with e show ?thesis by (simp add: establish_def)
qed

text \<open>C18: Behind a proxy, identity comes only from a trusted peer: an established session has a peer
  inside a trusted network and exactly one identity header whose value, 1 to 128 bytes of UTF-8
  without whitespace and control characters, is the identity; and authentication additionally to a
  valid cookie requires such a peer.\<close>

theorem proxy_trust_boundary:
  assumes "fst (auth_establish lib encode fill clk ctx (TrustedProxyAuthProvider h sources m)) = Inr pv"
  shows "(\<exists>addr network. ac_peer_addr ctx = Some addr \<and> network \<in> set sources
      \<and> ipnet_contains lib network (addr_ip addr))
    \<and> (\<exists>value. get_all (ac_headers ctx) h = [value] \<and> pv_identity pv = Identity value
      \<and> value \<noteq> [] \<and> length value \<le> 128 \<and> is_str value
      \<and> list_all (\<lambda>c. \<not> is_whitespace c \<and> \<not> is_control c) (chars value))
    \<and> (auth_authenticate lib ctx' cookie (TrustedProxyAuthProvider h sources m) = Inr who \<longleftrightarrow>
        (\<exists>addr network. ac_peer_addr ctx' = Some addr \<and> network \<in> set sources
          \<and> ipnet_contains lib network (addr_ip addr))
        \<and> authenticate_session m cookie = Inr who)"
proof -
  have peer: "is_ok (trusted_peer lib sources c) \<longleftrightarrow> (\<exists>addr network. ac_peer_addr c = Some addr
      \<and> network \<in> set sources \<and> ipnet_contains lib network (addr_ip addr))" for c
    by (cases "ac_peer_addr c") (auto simp: trusted_peer_def list_ex_iff is_ok_iff Let_def split: if_splits)
  obtain who' where ok: "is_ok (trusted_peer lib sources ctx)"
    "identity_from_header h (ac_headers ctx) = Inr who'" and e: "fst (establish encode fill clk who' m) = Inr pv"
    using assms by (auto simp: auth_establish_def is_ok_iff split: sum.splits prod.splits)
  obtain res m' where a: "establish_attempts encode fill clk who' 0 4 (evict_oldest m) = (res, m')"
    by fastforce
  with e establish_attempts_result [OF a] have "pv_identity pv = who'"
    by (auto simp: establish_def)
  moreover obtain v where "get_all (ac_headers ctx) h = [v]" "who' = Identity v"
    "v \<noteq> []" "length v \<le> 128" "is_str v"
    "list_all (\<lambda>c. \<not> is_whitespace c \<and> \<not> is_control c) (chars v)"
    using ok(2) by (auto simp: identity_from_header_def identity_new_def list_all_iff list_ex_iff
      split: list.splits)
  moreover have "auth_authenticate lib ctx' cookie (TrustedProxyAuthProvider h sources m) = Inr who \<longleftrightarrow>
      is_ok (trusted_peer lib sources ctx') \<and> authenticate_session m cookie = Inr who"
    by (auto simp: auth_authenticate_def is_ok_iff)
  ultimately show ?thesis
    using ok(1) peer by auto
qed

subsection \<open>Examples\<close>

definition demo_proxy :: auth_provider where
  "demo_proxy = TrustedProxyAuthProvider ''x-user'' [IpNet (V4 10 0 0 1) 32] []"

definition demo_context :: auth_context where
  "demo_context = \<lparr>ac_headers = [(''x-user'', ''alice'')],
     ac_peer_addr = Some \<lparr>addr_ip = V4 10 0 0 1, addr_port = 9\<rparr>\<rparr>"

definition demo_session :: "auth_error + provisioned_identity" where
  "demo_session = Inr \<lparr>pv_identity = Identity ''alice'', pv_cookie = set_cookie demo_token\<rparr>"

definition demo_sessions :: browser_sessions where
  "demo_sessions = [(demo_token, \<lparr>bs_identity = Identity ''alice'', bs_created_at = 0\<rparr>)]"

lemma demo_establish:
  "auth_establish demo_config_lib (\<lambda>_. demo_token) (\<lambda>_. Inr []) (\<lambda>_. 0) demo_context demo_proxy =
     (demo_session, TrustedProxyAuthProvider ''x-user'' [IpNet (V4 10 0 0 1) 32] demo_sessions)"
proof -
  have "establish_attempts (\<lambda>_. demo_token) (\<lambda>_. Inr []) (\<lambda>_. 0) (Identity ''alice'') 0 (Suc k) [] =
      (demo_session, demo_sessions)" for k
    by (simp add: hm_insert_def demo_session_def demo_sessions_def)
  from this [of 3] have "establish (\<lambda>_. demo_token) (\<lambda>_. Inr []) (\<lambda>_. 0) (Identity ''alice'') [] =
      (demo_session, demo_sessions)"
    by (simp add: establish_def evict_oldest_def hm_len_def MAX_BROWSER_SESSIONS_def)
  moreover have "trusted_peer demo_config_lib [IpNet (V4 10 0 0 1) 32] demo_context = Inr (V4 10 0 0 1)"
    by (simp add: trusted_peer_def demo_context_def demo_config_lib_def)
  moreover have "identity_from_header ''x-user'' (ac_headers demo_context) = Inr (Identity ''alice'')"
    by (simp add: demo_context_def identity_from_header_def get_all_def identity_new_def chars_ascii
      is_ascii_is_str is_ascii_def is_whitespace_def is_control_def)
  ultimately show ?thesis
    by (simp add: auth_establish_def demo_proxy_def)
qed

lemma demo_token_shape: "length demo_token = 43 \<and> list_all token_byte demo_token"
  by (simp add: demo_token_def token_byte_def ascii_defs list_all_iff)

theorem sessions_bounded_witness:
  "hm_len (provider_sessions (run (provider_step demo_config_lib (\<lambda>_. demo_token)) demo_proxy
     [(\<lambda>_. Inr [], \<lambda>_. 0, demo_context)])) \<le> 1024"
  by (rule sessions_bounded) (simp_all add: demo_proxy_def)

theorem established_session_authenticates_witness:
  "\<exists>token. authenticate_session demo_sessions (Some (''ttgate_session='' @ token)) = Inr (Identity ''alice'')"
proof -
  have "\<exists>token. pv_cookie \<lparr>pv_identity = Identity ''alice'', pv_cookie = set_cookie demo_token\<rparr> =
        ''ttgate_session='' @ token @ ''; Path=/; Secure; HttpOnly; SameSite=Strict''
    \<and> authenticate_session (provider_sessions (TrustedProxyAuthProvider ''x-user''
        [IpNet (V4 10 0 0 1) 32] demo_sessions)) (Some (''ttgate_session='' @ token))
      = Inr (pv_identity \<lparr>pv_identity = Identity ''alice'', pv_cookie = set_cookie demo_token\<rparr>)"
    by (rule established_session_authenticates [OF demo_establish [unfolded demo_session_def]])
      (simp add: demo_token_shape)
  then show ?thesis by auto
qed

theorem establish_keeps_others_witness:
  "hm_get (snd (establish (\<lambda>_. ''fresh'') (\<lambda>_. Inr []) (\<lambda>_. 1) (Identity ''bo'') demo_sessions)) demo_token =
     Some \<lparr>bs_identity = Identity ''alice'', bs_created_at = 0\<rparr>"
  by (rule establish_keeps_others) (simp_all add: demo_sessions_def hm_wf_def hm_get_def hm_len_def)

theorem proxy_trust_boundary_witness:
  "\<exists>value. get_all (ac_headers demo_context) ''x-user'' = [value] \<and> Identity ''alice'' = Identity value"
proof -
  have "fst (auth_establish demo_config_lib (\<lambda>_. demo_token) (\<lambda>_. Inr []) (\<lambda>_. 0) demo_context
      (TrustedProxyAuthProvider ''x-user'' [IpNet (V4 10 0 0 1) 32] [])) =
      Inr \<lparr>pv_identity = Identity ''alice'', pv_cookie = set_cookie demo_token\<rparr>"
    using demo_establish by (simp add: demo_proxy_def demo_session_def)
  from proxy_trust_boundary [OF this] show ?thesis by auto
qed

end
