(* ===== verification/Rate_Limit.thy ===== *)
theory Rate_Limit
  imports Prelude
begin

text \<open>
  The fixed-window limiter of \<open>rate_limit.rs\<close>. A limiter holds one bucket per key, at most
  \<open>rl_capacity\<close> of them; a bucket counts the attempts admitted since its window started. An attempt
  is a guard object: committed, its admission stays counted; rolled back or dropped, the
  admission is given back, unless the bucket has started another window (generation) since.
  Every operation runs under the limiter's mutex, so it is one function of the state; the clock
  reading is an argument.
\<close>

section \<open>State\<close>

datatype limit_error = Exhausted (retry_after: duration)

record bucket =
  started_at :: instant
  generation :: u64
  count :: u32

record 'k limiter =
  limit :: u32
  window :: duration
  rl_capacity :: nat
  next_generation :: u64
  buckets :: "('k, bucket) hash_map"

record 'k attempt =
  at_key :: "'k option"
  at_generation :: u64
  committed :: bool

definition new_limiter :: "u32 \<Rightarrow> duration \<Rightarrow> nat \<Rightarrow> 'k limiter" where
  "new_limiter lim win cap =
     \<lparr>limit = lim, window = win, rl_capacity = cap, next_generation = 1, buckets = []\<rparr>"

section \<open>Operations\<close>

text \<open>\<open>begin\<close>, in the order of the source: make room for a new key, find or insert the bucket
  (\<open>or_insert\<close> evaluates its argument, so a generation is drawn even for a known key), start a new
  window if the old one is over, then admit below the limit.\<close>

definition make_room :: "'k limiter \<Rightarrow> instant \<Rightarrow> 'k \<Rightarrow> limit_error + 'k limiter" where
  "make_room l now key =
     (if hm_get (buckets l) key = None \<and> rl_capacity l \<le> hm_len (buckets l) then
        (let kept = hm_retain (\<lambda>_ b. now - started_at b < window l) (buckets l)
         in if rl_capacity l \<le> hm_len kept then Inl (Exhausted (window l))
            else Inr (l\<lparr>buckets := kept\<rparr>))
      else Inr l)"

definition entry_or_insert :: "'k limiter \<Rightarrow> instant \<Rightarrow> 'k \<Rightarrow> bucket \<times> 'k limiter" where
  "entry_or_insert l now key =
     (let fresh = \<lparr>started_at = now, generation = next_generation l, count = 0\<rparr>;
          b = (case hm_get (buckets l) key of None \<Rightarrow> fresh | Some b \<Rightarrow> b)
      in (b, l\<lparr>next_generation := next_generation l + 1, buckets := hm_insert key b (buckets l)\<rparr>))"

definition roll_window :: "'k limiter \<Rightarrow> instant \<Rightarrow> bucket \<Rightarrow> bucket \<times> 'k limiter" where
  "roll_window l now b =
     (if window l \<le> now - started_at b then
        (\<lparr>started_at = now, generation = next_generation l, count = 0\<rparr>,
         l\<lparr>next_generation := next_generation l + 1\<rparr>)
      else (b, l))"

definition limiter_begin ::
  "'k limiter \<Rightarrow> instant \<Rightarrow> 'k \<Rightarrow> (limit_error + 'k attempt) \<times> 'k limiter" where
  "limiter_begin l now key =
     (case make_room l now key of
        Inl e \<Rightarrow>
          (Inl e, l\<lparr>buckets := hm_retain (\<lambda>_ b. now - started_at b < window l) (buckets l)\<rparr>)
      | Inr l1 \<Rightarrow>
          (let (b1, l2) = entry_or_insert l1 now key;
               (b2, l3) = roll_window l2 now b1
           in if limit l3 \<le> count b2 then
                (Inl (Exhausted (window l3 - (now - started_at b2))),
                 l3\<lparr>buckets := hm_insert key b2 (buckets l3)\<rparr>)
              else
                (Inr \<lparr>at_key = Some key, at_generation = generation b2, committed = False\<rparr>,
                 l3\<lparr>buckets := hm_insert key (b2\<lparr>count := count b2 + 1\<rparr>) (buckets l3)\<rparr>)))"

definition attempt_release :: "'k limiter \<Rightarrow> 'k attempt \<Rightarrow> 'k limiter \<times> 'k attempt" where
  "attempt_release l a =
     (case at_key a of
        None \<Rightarrow> (l, a)
      | Some key \<Rightarrow>
          ((case hm_get (buckets l) key of
              None \<Rightarrow> l
            | Some b \<Rightarrow>
                if generation b = at_generation a then
                  (let n = (if count b = 0 then 0 else count b - 1)
                   in if n = 0 then l\<lparr>buckets := hm_remove key (buckets l)\<rparr>
                      else l\<lparr>buckets := hm_insert key (b\<lparr>count := n\<rparr>) (buckets l)\<rparr>)
                else l),
           a\<lparr>at_key := None\<rparr>))"

definition attempt_drop :: "'k limiter \<Rightarrow> 'k attempt \<Rightarrow> 'k limiter" where
  "attempt_drop l a = (if committed a then l else fst (attempt_release l a))"

definition attempt_commit :: "'k limiter \<Rightarrow> 'k attempt \<Rightarrow> 'k limiter" where
  "attempt_commit l a = attempt_drop l (a\<lparr>committed := True\<rparr>)"

definition attempt_rollback :: "'k limiter \<Rightarrow> 'k attempt \<Rightarrow> 'k limiter" where
  "attempt_rollback l a =
     (let (l', a') = attempt_release l a in attempt_drop l' (a'\<lparr>committed := True\<rparr>))"

lemmas limiter_defs = limiter_begin_def make_room_def entry_or_insert_def roll_window_def

lemma attempt_commit_id [simp]: "attempt_commit l a = l"
  by (simp add: attempt_commit_def attempt_drop_def)

lemma attempt_rollback_eq: "attempt_rollback l a = fst (attempt_release l a)"
  by (simp add: attempt_rollback_def attempt_drop_def split: prod.splits)

section \<open>The invariant\<close>

definition limiter_inv :: "'k limiter \<Rightarrow> bool" where
  "limiter_inv l \<longleftrightarrow> hm_wf (buckets l) \<and> hm_len (buckets l) \<le> rl_capacity l
     \<and> (\<forall>k b. hm_get (buckets l) k = Some b \<longrightarrow> count b \<le> limit l)"

lemma new_limiter_inv: "limiter_inv (new_limiter lim win cap)"
  by (simp add: limiter_inv_def new_limiter_def)

lemma limiter_begin_config [simp]:
  "limit (snd (limiter_begin l now k)) = limit l"
  "window (snd (limiter_begin l now k)) = window l"
  "rl_capacity (snd (limiter_begin l now k)) = rl_capacity l"
  by (auto simp: limiter_defs Let_def split: sum.splits prod.splits if_splits)

lemma attempt_release_config [simp]:
  "limit (fst (attempt_release l a)) = limit l"
  "window (fst (attempt_release l a)) = window l"
  "rl_capacity (fst (attempt_release l a)) = rl_capacity l"
  by (auto simp: attempt_release_def Let_def split: option.splits)

lemma make_room_Inr:
  "make_room l now k = Inr l1 \<Longrightarrow>
     (l1 = l \<and> (hm_get (buckets l) k \<noteq> None \<or> hm_len (buckets l) < rl_capacity l))
     \<or> (l1 = l\<lparr>buckets := hm_retain (\<lambda>_ b. now - started_at b < window l) (buckets l)\<rparr>
        \<and> hm_get (buckets l) k = None \<and> hm_len (buckets l1) < rl_capacity l)"
  by (auto simp: make_room_def Let_def split: if_splits)

lemma limiter_begin_inv:
  assumes inv: "limiter_inv l"
  shows "limiter_inv (snd (limiter_begin l now k))"
proof (cases "make_room l now k")
  case (Inl e)
  with inv show ?thesis
    by (auto simp: limiter_begin_def limiter_inv_def hm.wf_retain hm.bounded_retain
        hm.get_retain_Some)
next
  case (Inr l1)
  note room = make_room_Inr [OF Inr]
  have wf: "hm_wf (buckets l1)" and cfg: "rl_capacity l1 = rl_capacity l" "limit l1 = limit l"
    "window l1 = window l"
    and cnt: "\<And>j b. hm_get (buckets l1) j = Some b \<Longrightarrow> count b \<le> limit l"
    using room inv by (auto simp: limiter_inv_def hm.wf_retain hm.get_retain_Some)
  have len: "hm_len (hm_insert k b (buckets l1)) \<le> rl_capacity l" for b
    using room inv
    by (auto simp: limiter_inv_def hm.bounded_put hm.bounded_put_old)
  have one: "n \<noteq> 0 \<Longrightarrow> (1 :: u32) \<le> n" for n
    by (simp add: word_le_nat_alt Suc_le_eq unat_gt_0)
  have ins2: "hm_len (hm_insert k c (hm_insert k b m)) = hm_len (hm_insert k b m)" for b c m
    by (simp add: hm.len_put_old)
  show ?thesis
    using wf cfg cnt len Inr unfolding limiter_begin_def limiter_inv_def
    by (auto simp: entry_or_insert_def roll_window_def Let_def hm.wf_put ins2 inc_le one not_le antisym
        split: if_splits option.splits)
qed

lemma attempt_release_inv:
  assumes inv: "limiter_inv l"
  shows "limiter_inv (fst (attempt_release l a))"
proof -
  have dec: "c \<le> (n :: u32) \<Longrightarrow> c \<noteq> 0 \<Longrightarrow> c - 1 \<le> n" for c n
    by (simp add: word_le_nat_alt unat_minus_one)
  show ?thesis
    using inv unfolding limiter_inv_def attempt_release_def
    by (auto simp: Let_def hm.wf_del hm.wf_put hm.bounded_del hm.bounded_put_old hm.get_del dec
        split: option.splits if_splits)
qed

datatype 'k limiter_op = OpBegin instant 'k | OpRelease "'k attempt"

fun limiter_step :: "'k limiter \<Rightarrow> 'k limiter_op \<Rightarrow> 'k limiter" where
  "limiter_step l (OpBegin now k) = snd (limiter_begin l now k)"
| "limiter_step l (OpRelease a) = attempt_rollback l a"

interpretation rl: safety_system limiter_step limiter_inv
proof
  fix l :: "'k limiter" and op
  show "limiter_inv l \<Longrightarrow> limiter_inv (limiter_step l op)"
    by (cases op) (simp_all add: limiter_begin_inv attempt_rollback_eq attempt_release_inv)
qed

text \<open>whatever attempts are begun, committed, rolled back and dropped, in whatever order and at
  whatever times, a limiter never holds more buckets than its capacity, nor counts more
  admissions in a bucket than its limit.\<close>

theorem limiter_bounded:
  fixes ops :: "'k limiter_op list"
  shows "hm_len (buckets (run limiter_step (new_limiter lim win cap) ops)) \<le> cap \<and>
   (\<nexists>k b. hm_get (buckets (run limiter_step (new_limiter lim win cap) ops)) k = Some b
          \<and> lim < count b)"
proof -
  have cfg: "limit (limiter_step l op) = limit l \<and> rl_capacity (limiter_step l op) = rl_capacity l"
    for l :: "'k limiter" and op
    by (cases op) (simp_all add: attempt_rollback_eq)
  have "limit (run limiter_step l ops) = limit l \<and>
      rl_capacity (run limiter_step l ops) = rl_capacity l" for l :: "'k limiter"
    by (induction ops arbitrary: l) (simp_all add: cfg)
  moreover have "limiter_inv (run limiter_step (new_limiter lim win cap) ops)"
    by (rule rl.run_inv) (rule new_limiter_inv)
  ultimately show ?thesis
    by (fastforce simp: limiter_inv_def new_limiter_def)
qed

section \<open>The window\<close>

text \<open>The admissions a bucket still counts at a time: none once its window is over.\<close>

definition used_at :: "'k limiter \<Rightarrow> instant \<Rightarrow> 'k \<Rightarrow> nat" where
  "used_at l now k =
     (case hm_get (buckets l) k of
        None \<Rightarrow> 0
      | Some b \<Rightarrow> if now - started_at b < window l then unat (count b) else 0)"

definition no_room :: "'k limiter \<Rightarrow> instant \<Rightarrow> 'k \<Rightarrow> bool" where
  "no_room l now k \<longleftrightarrow> hm_get (buckets l) k = None
     \<and> rl_capacity l \<le> hm_len (hm_retain (\<lambda>_ b. now - started_at b < window l) (buckets l))"

lemma make_room_Inl: "make_room l now k = Inl e \<longleftrightarrow> no_room l now k \<and> e = Exhausted (window l)"
  using hm.len_retain [of "\<lambda>_ b. now - started_at b < window l" "buckets l"]
  by (auto simp: make_room_def no_room_def Let_def)

text \<open>What an attempt answers depends only on the room left and on the admissions in the window.\<close>

lemma limiter_begin_result:
  assumes wf: "hm_wf (buckets l)" and win: "0 < window l"
  shows "is_ok (fst (limiter_begin l now k)) \<longleftrightarrow>
    \<not> no_room l now k \<and> used_at l now k < unat (limit l)"
proof (cases "make_room l now k")
  case (Inl e)
  then have "no_room l now k" by (simp add: make_room_Inl)
  with Inl show ?thesis by (simp add: limiter_begin_def)
next
  case (Inr l1)
  then have "\<not> no_room l now k"
    using make_room_Inl [of l now k "Exhausted (window l)"] by auto
  moreover have "hm_get (buckets l1) k = hm_get (buckets l) k \<and> window l1 = window l
      \<and> limit l1 = limit l"
    using make_room_Inr [OF Inr] wf by (auto simp: hm.get_retain)
  ultimately show ?thesis
    using Inr win
    by (auto simp: limiter_begin_def entry_or_insert_def roll_window_def used_at_def Let_def
        word_less_nat_alt word_le_nat_alt not_le split: option.splits)
qed

lemma limiter_begin_get_same:
  assumes wf: "hm_wf (buckets l)" and ok: "limiter_begin l now k = (Inr a, l')"
    and win: "0 < window l"
  shows "\<exists>b. hm_get (buckets l') k = Some b \<and> count b \<noteq> 0 \<and> at_key a = Some k
    \<and> at_generation a = generation b \<and> committed a = False \<and> now - started_at b < window l'
    \<and> unat (count b) = Suc (used_at l now k)"
proof -
  obtain l1 where l1: "make_room l now k = Inr l1"
    using ok by (cases "make_room l now k") (simp_all add: limiter_begin_def)
  have g: "hm_get (buckets l1) k = hm_get (buckets l) k" "window l1 = window l"
    using make_room_Inr [OF l1] wf by (auto simp: hm.get_retain)
  have nz: "(c :: u32) < n \<Longrightarrow> c + 1 \<noteq> 0" for c n
    using unat_inc_less [of c n] by (metis Zero_not_Suc unat_0)
  show ?thesis
    using ok win l1 g
    by (auto simp: limiter_begin_def entry_or_insert_def roll_window_def used_at_def Let_def not_le
        unat_inc_less nz split: if_splits option.splits)
qed

lemma limiter_begin_get_other:
  assumes wf: "hm_wf (buckets l)" and jk: "j \<noteq> k"
  shows "hm_get (buckets (snd (limiter_begin l now k))) j = hm_get (buckets l) j
    \<or> (\<exists>b. hm_get (buckets l) j = Some b \<and> window l \<le> now - started_at b
         \<and> hm_get (buckets (snd (limiter_begin l now k))) j = None)"
proof (cases "make_room l now k")
  case (Inl e)
  then show ?thesis using wf
    by (auto simp: limiter_begin_def hm.get_retain not_less split: option.splits)
next
  case (Inr l1)
  then show ?thesis using wf jk make_room_Inr [OF Inr]
    by (auto simp: limiter_begin_def entry_or_insert_def roll_window_def Let_def hm.get_retain not_less
        split: option.splits)
qed

lemma used_at_begin_other:
  "hm_wf (buckets l) \<Longrightarrow> j \<noteq> k \<Longrightarrow>
     used_at (snd (limiter_begin l now k)) now j = used_at l now j"
  using limiter_begin_get_other [of l j k now] by (auto simp: used_at_def split: option.splits)

lemma used_at_begin_same:
  "hm_wf (buckets l) \<Longrightarrow> 0 < window l \<Longrightarrow> fst (limiter_begin l now k) = Inr a \<Longrightarrow>
     used_at (snd (limiter_begin l now k)) now k = Suc (used_at l now k)"
  using limiter_begin_get_same [of l now k a "snd (limiter_begin l now k)"]
  by (cases "limiter_begin l now k") (auto simp: used_at_def)

text \<open>rolling an admitted attempt back restores the allowance of every key exactly: the
  admissions counted in each window are what they were before the attempt.\<close>

theorem rollback_restores_allowance:
  assumes "limiter_inv l" and "0 < window l" and "limiter_begin l now k = (Inr a, l')"
  shows "used_at (attempt_rollback l' a) now j = used_at l now j"
proof -
  have wf: "hm_wf (buckets l)" and wf': "hm_wf (buckets l')"
    using assms(1) limiter_begin_inv [OF assms(1), of now k] assms(3) by (simp_all add: limiter_inv_def)
  obtain b where b: "hm_get (buckets l') k = Some b" "count b \<noteq> 0" "at_key a = Some k"
    "at_generation a = generation b" "now - started_at b < window l'"
    "unat (count b) = Suc (used_at l now k)"
    using limiter_begin_get_same [OF wf assms(3,2)] by blast
  show ?thesis
  proof (cases "j = k")
    case True
    have "unat (count b - 1) = used_at l now k"
      using b(2,6) by (simp add: unat_minus_one)
    then show ?thesis
      using b True wf' unfolding attempt_rollback_eq attempt_release_def
      by (auto simp: used_at_def Let_def hm.get_del)
  next
    case False
    then have "used_at (attempt_rollback l' a) now j = used_at l' now j"
      using wf' b(3) unfolding attempt_rollback_eq attempt_release_def
      by (auto simp: used_at_def Let_def hm.get_del split: option.splits)
    also have "\<dots> = used_at l now j"
      using used_at_begin_other [OF wf False, of now] assms(3) by simp
    finally show ?thesis .
  qed
qed

theorem rollback_restores_allowance_witness:
  "used_at (attempt_rollback (snd (limiter_begin (new_limiter 2 10 4) 5 ''alice''))
       \<lparr>at_key = Some ''alice'', at_generation = 1, committed = False\<rparr>) 5 ''alice'' = 0"
proof -
  have eval: "limiter_begin (new_limiter 2 10 4) 5 ''alice'' =
      (Inr \<lparr>at_key = Some ''alice'', at_generation = 1, committed = False\<rparr>,
       snd (limiter_begin (new_limiter 2 10 4) 5 ''alice''))"
    by (simp add: limiter_defs new_limiter_def Let_def hm_get_def hm_len_def hm_insert_def)
  have "0 < window (new_limiter 2 10 4)" by (simp add: new_limiter_def)
  from rollback_restores_allowance [OF new_limiter_inv this eval, of "''alice''"]
  show ?thesis by (simp add: used_at_def new_limiter_def)
qed

section \<open>A series of requests\<close>

text \<open>Requests at given times, every admitted one committed.\<close>

fun serve :: "'k limiter \<Rightarrow> (instant \<times> 'k) list \<Rightarrow> ('k \<times> bool) list" where
  "serve l [] = []"
| "serve l ((t, k) # rs) = (let (r, l') = limiter_begin l t k in (k, is_ok r) # serve l' rs)"

definition admitted :: "'k \<Rightarrow> ('k \<times> bool) list \<Rightarrow> nat" where
  "admitted k rs = length (filter (\<lambda>r. r = (k, True)) rs)"

definition requested :: "'k \<Rightarrow> (instant \<times> 'k) list \<Rightarrow> nat" where
  "requested k rs = length (filter (\<lambda>r. snd r = k) rs)"

lemma limiter_begin_bucket:
  assumes wf: "hm_wf (buckets l)"
    and b: "hm_get (buckets (snd (limiter_begin l now k))) j = Some b"
  shows "(\<exists>b0. hm_get (buckets l) j = Some b0 \<and> started_at b = started_at b0
           \<and> generation b = generation b0)
    \<or> (j = k \<and> started_at b = now
         \<and> (generation b = next_generation l \<or> generation b = next_generation l + 1))"
proof (cases "j = k")
  case False
  with limiter_begin_get_other [OF wf False, of now] b
  have "hm_get (buckets l) j = Some b" by auto
  then show ?thesis by auto
next
  case True
  show ?thesis
  proof (cases "make_room l now k")
    case (Inl e)
    with b True wf show ?thesis
      by (auto simp: limiter_begin_def hm.get_retain_Some)
  next
    case (Inr l1)
    have "hm_get (buckets l1) k = hm_get (buckets l) k" "next_generation l1 = next_generation l"
      using make_room_Inr [OF Inr] wf by (auto simp: hm.get_retain)
    with Inr b True show ?thesis
      by (auto simp: limiter_begin_def entry_or_insert_def roll_window_def Let_def
          split: if_splits option.splits)
  qed
qed

lemma limiter_begin_next_generation:
  "next_generation (snd (limiter_begin l now k)) \<in>
     {next_generation l, next_generation l + 1, next_generation l + 1 + 1}"
  by (auto simp: limiter_begin_def entry_or_insert_def roll_window_def Let_def make_room_def
      split: sum.splits if_splits)

definition in_window :: "instant \<Rightarrow> 'k limiter \<Rightarrow> bool" where
  "in_window t0 l \<longleftrightarrow> limiter_inv l \<and> 0 < window l
     \<and> (\<forall>k b. hm_get (buckets l) k = Some b \<longrightarrow> t0 \<le> started_at b)"

text \<open>While no window that is open at \<open>t0\<close> or later can have ended, time does not matter.\<close>

lemma used_at_in_window:
  assumes "in_window t0 l" and "t < t0 + window l" and "t' < t0 + window l"
  shows "used_at l t k = used_at l t' k"
proof (cases "hm_get (buckets l) k")
  case (Some b)
  with assms have "t - started_at b < window l" "t' - started_at b < window l"
    unfolding in_window_def by fastforce+
  with Some show ?thesis by (simp add: used_at_def)
qed (simp add: used_at_def)

lemma in_window_begin:
  assumes "in_window t0 l" and "t0 \<le> t"
  shows "in_window t0 (snd (limiter_begin l t k))"
proof -
  have "hm_wf (buckets l)" using assms(1) by (simp add: in_window_def limiter_inv_def)
  then show ?thesis
    using assms limiter_begin_bucket [of l t k] unfolding in_window_def
    by (auto simp: limiter_begin_inv) (metis order.refl)
qed

lemma used_at_begin:
  assumes "in_window t0 l"
  shows "used_at (snd (limiter_begin l t k)) t j =
    used_at l t j + (if j = k \<and> is_ok (fst (limiter_begin l t k)) then 1 else 0)"
proof -
  have wf: "hm_wf (buckets l)" and win: "0 < window l"
    using assms by (simp_all add: in_window_def limiter_inv_def)
  consider (other) "j \<noteq> k" | (ok) a where "j = k" "fst (limiter_begin l t k) = Inr a"
    | (err) e where "j = k" "fst (limiter_begin l t k) = Inl e"
    by (cases "fst (limiter_begin l t k)") auto
  then show ?thesis
  proof cases
    case other
    with used_at_begin_other [OF wf] show ?thesis by simp
  next
    case ok
    with used_at_begin_same [OF wf win] show ?thesis by simp
  next
    case err
    have "used_at (snd (limiter_begin l t k)) t k = used_at l t k"
    proof (cases "make_room l t k")
      case (Inl e)
      then show ?thesis using wf
        by (auto simp: limiter_begin_def used_at_def hm.get_retain split: option.splits)
    next
      case (Inr l1)
      have "hm_get (buckets l1) k = hm_get (buckets l) k" "window l1 = window l"
        using make_room_Inr [OF Inr] wf by (auto simp: hm.get_retain)
      with Inr err(2) win show ?thesis
        by (auto simp: limiter_begin_def entry_or_insert_def roll_window_def used_at_def Let_def
            split: if_splits option.splits)
    qed
    with err show ?thesis by simp
  qed
qed

lemma serve_bound:
  assumes "in_window t0 l" and "\<forall>r \<in> set ops. t0 \<le> fst r \<and> fst r < t0 + window l"
  shows "used_at l t0 k + admitted k (serve l ops) \<le> max (unat (limit l)) (used_at l t0 k)"
  using assms
proof (induction ops arbitrary: l)
  case (Cons r ops)
  obtain t j where r: "r = (t, j)" by fastforce
  obtain x l' where x: "limiter_begin l t j = (x, l')" by fastforce
  have t: "t0 \<le> t" "t < t0 + window l" using Cons.prems(2) r by auto
  have cfg: "window l' = window l" "limit l' = limit l"
    using limiter_begin_config [of l t j] x by simp_all
  have w': "in_window t0 l'" using in_window_begin [OF Cons.prems(1) t(1), of j] x by simp
  have t0: "t0 < t0 + window l" using Cons.prems(1) by (simp add: in_window_def)
  have u: "used_at l' t0 k = used_at l t0 k + (if k = j \<and> is_ok x then 1 else 0)"
    using used_at_begin [OF Cons.prems(1), of t j k] x
      used_at_in_window [OF Cons.prems(1) t(2) t0, of k]
      used_at_in_window [OF w', of t t0 k] t t0 cfg by simp
  have ok: "is_ok x \<Longrightarrow> k = j \<Longrightarrow> used_at l t0 k < unat (limit l)"
    using limiter_begin_result [of l t j] x Cons.prems(1)
      used_at_in_window [OF Cons.prems(1) t(2) t0, of k]
    by (simp add: in_window_def limiter_inv_def)
  have "used_at l' t0 k + admitted k (serve l' ops) \<le> max (unat (limit l)) (used_at l' t0 k)"
    using Cons.IH [OF w'] Cons.prems(2) cfg by simp
  then show ?case
    using u ok by (auto simp: r x admitted_def split: if_splits)
qed (simp add: admitted_def)

lemma room_for_known_keys:
  assumes "limiter_inv l" "finite S" "k \<in> S" "fst ` set (buckets l) \<subseteq> S" "card S \<le> rl_capacity l"
  shows "\<not> no_room l t k"
proof
  assume "no_room l t k"
  then have new: "k \<notin> fst ` set (buckets l)" and full: "rl_capacity l \<le> hm_len (buckets l)"
    using hm.len_retain [of "\<lambda>_ b. t - started_at b < window l" "buckets l"]
    by (auto simp: no_room_def hm_get_None)
  have "hm_len (buckets l) = card (fst ` set (buckets l))"
    using assms(1) distinct_card [of "map fst (buckets l)"]
    by (simp add: limiter_inv_def hm_wf_def hm_len_def)
  also have "\<dots> < card S"
    using assms(2-4) new by (intro psubset_card_mono) auto
  finally show False using full assms(5) by simp
qed

lemma limiter_begin_keys:
  "fst ` set (buckets (snd (limiter_begin l t k))) \<subseteq> insert k (fst ` set (buckets l))"
proof -
  have ins: "fst ` set (hm_insert k b m) = insert k (fst ` set m)" for b m
    using dom_update [of k b m] by (simp add: hm_insert_def dom_map_of_conv_image_fst)
  show ?thesis
    by (auto simp: limiter_begin_def entry_or_insert_def roll_window_def Let_def make_room_def
        hm_retain_def ins split: sum.splits if_splits)
qed

lemma serve_exact:
  assumes "in_window t0 l" and "\<forall>r \<in> set ops. t0 \<le> fst r \<and> fst r < t0 + window l"
    and S: "finite S" "fst ` set (buckets l) \<union> snd ` set ops \<subseteq> S" "card S \<le> rl_capacity l"
  shows "admitted k (serve l ops) = min (unat (limit l) - used_at l t0 k) (requested k ops)"
  using assms
proof (induction ops arbitrary: l)
  case (Cons r ops)
  obtain t j where r: "r = (t, j)" by fastforce
  obtain x l' where x: "limiter_begin l t j = (x, l')" by fastforce
  have t: "t0 \<le> t" "t < t0 + window l" using Cons.prems(2) r by auto
  have cfg: "window l' = window l" "limit l' = limit l" "rl_capacity l' = rl_capacity l"
    using limiter_begin_config [of l t j] x by simp_all
  have w': "in_window t0 l'" using in_window_begin [OF Cons.prems(1) t(1), of j] x by simp
  have t0: "t0 < t0 + window l" using Cons.prems(1) by (simp add: in_window_def)
  have u: "used_at l' t0 k = used_at l t0 k + (if k = j \<and> is_ok x then 1 else 0)"
    using used_at_begin [OF Cons.prems(1), of t j k] x
      used_at_in_window [OF Cons.prems(1) t(2) t0, of k]
      used_at_in_window [OF w', of t t0 k] t t0 cfg by simp
  have "\<not> no_room l t j"
    using Cons.prems r by (intro room_for_known_keys [of l S]) (auto simp: in_window_def)
  then have ok: "k = j \<Longrightarrow> is_ok x \<longleftrightarrow> used_at l t0 k < unat (limit l)"
    using limiter_begin_result [of l t j] x Cons.prems(1)
      used_at_in_window [OF Cons.prems(1) t(2) t0, of k]
    by (simp add: in_window_def limiter_inv_def)
  have "admitted k (serve l' ops) = min (unat (limit l') - used_at l' t0 k) (requested k ops)"
    using Cons.IH [OF w'] Cons.prems(2,3,4,5) cfg limiter_begin_keys [of l t j] x r by auto
  then show ?case
    using u ok cfg by (auto simp: r x admitted_def requested_def split: if_splits)
qed (simp add: admitted_def requested_def)

text \<open>C33: the requests of a fresh limiter that all fall into one window length. However they
  interleave, at most \<open>limit\<close> of them are admitted for any key; and when the keys fit the
  capacity exactly as many are admitted as the limit and the requests allow.\<close>

theorem fixed_window_allowance:
  assumes "0 < win" and "\<forall>r \<in> set ops. t0 \<le> fst r \<and> fst r < t0 + win"
  shows "admitted k (serve (new_limiter lim win cap) ops) \<le> unat lim \<and>
    (card (snd ` set ops) \<le> cap \<longrightarrow>
       admitted k (serve (new_limiter lim win cap) ops) = min (unat lim) (requested k ops))"
proof -
  let ?l = "new_limiter lim win cap :: 'a limiter"
  have w: "in_window t0 ?l"
    using assms(1) new_limiter_inv [of lim win cap]
    unfolding in_window_def by (simp add: new_limiter_def)
  have u: "used_at ?l t0 k = 0" by (simp add: used_at_def new_limiter_def)
  have cfg: "window ?l = win" "limit ?l = lim" "rl_capacity ?l = cap" "buckets ?l = []"
    by (simp_all add: new_limiter_def)
  show ?thesis
    using serve_bound [OF w, of ops k] serve_exact [OF w, of ops "snd ` set ops" k] assms(2) u cfg
    by simp
qed

theorem fixed_window_allowance_witness:
  "admitted ''a'' (serve (new_limiter 2 10 4) [(3, ''a''), (4, ''b''), (4, ''a''), (12, ''a'')]) = 2"
  using fixed_window_allowance [of 10 "[(3, ''a''), (4, ''b''), (4, ''a''), (12, ''a'')]" 3 "''a''" 2 4]
  by (simp add: requested_def card_insert_if del: serve.simps)

section \<open>Refusals\<close>

lemma retry_after_full_table:
  assumes inv: "limiter_inv l"
    and past: "\<forall>j b. hm_get (buckets l) j = Some b \<longrightarrow> started_at b \<le> now"
    and cfg: "0 < window l" "0 < limit l" "0 < rl_capacity l"
    and denied: "limiter_begin l now k = (Inl (Exhausted d), l')"
    and Inl: "make_room l now k = Inl e"
  shows "0 < d \<and> d \<le> window l \<and> is_ok (fst (limiter_begin l' (now + d) k))"
proof -
  have inv': "limiter_inv l'" and wf: "hm_wf (buckets l)"
    using limiter_begin_inv [OF inv, of now k] inv denied by (simp_all add: limiter_inv_def)
  have cfg': "window l' = window l" "limit l' = limit l" "rl_capacity l' = rl_capacity l"
    using limiter_begin_config [of l now k] denied by simp_all
  have lim: "0 < unat (limit l)" using cfg(2) by (simp add: word_less_nat_alt)
  have room: "\<not> no_room l' (now + window l) k"
  proof -
    have "buckets l' = hm_retain (\<lambda>_ b. now - started_at b < window l) (buckets l)"
      using Inl denied by (auto simp: limiter_begin_def)
    then have "started_at (snd x) \<le> now" if "x \<in> set (buckets l')" for x
      using that past by (auto simp: hm_retain_def hm_get_mem [OF wf])
    then have "hm_retain (\<lambda>_ b. (now + window l) - started_at b < window l) (buckets l') = []"
      by (fastforce simp: hm_retain_def filter_empty_conv)
    then show ?thesis using cfg cfg' by (simp add: no_room_def)
  qed
  have "no_room l now k" using Inl make_room_Inl [of l now k e] by simp
  then have "hm_get (buckets l') k = None"
    using Inl denied wf by (auto simp: limiter_begin_def no_room_def hm.get_retain)
  then have "used_at l' (now + window l) k = 0"
    by (simp add: used_at_def)
  with room have "is_ok (fst (limiter_begin l' (now + window l) k))"
    using limiter_begin_result [of l' "now + window l" k] inv' cfg cfg' lim
    by (simp add: limiter_inv_def)
  moreover have "d = window l"
    using Inl denied make_room_Inl [of l now k e] by (auto simp: limiter_begin_def)
  ultimately show ?thesis using cfg(1) by simp
qed

lemma retry_after_exhausted:
  assumes inv: "limiter_inv l"
    and past: "\<forall>j b. hm_get (buckets l) j = Some b \<longrightarrow> started_at b \<le> now"
    and cfg: "0 < window l" "0 < limit l" "0 < rl_capacity l"
    and denied: "limiter_begin l now k = (Inl (Exhausted d), l')"
    and Inr: "make_room l now k = Inr l1"
  shows "0 < d \<and> d \<le> window l \<and> is_ok (fst (limiter_begin l' (now + d) k))"
proof -
  have inv': "limiter_inv l'" and wf: "hm_wf (buckets l)"
    using limiter_begin_inv [OF inv, of now k] inv denied by (simp_all add: limiter_inv_def)
  have cfg': "window l' = window l" "limit l' = limit l" "rl_capacity l' = rl_capacity l"
    using limiter_begin_config [of l now k] denied by simp_all
  have lim: "0 < unat (limit l)" using cfg(2) by (simp add: word_less_nat_alt)
  have l1: "hm_get (buckets l1) k = hm_get (buckets l) k" "window l1 = window l"
    "limit l1 = limit l"
    using make_room_Inr [OF Inr] wf by (auto simp: hm.get_retain)
  obtain b where b: "hm_get (buckets l) k = Some b" "now - started_at b < window l"
    "d = window l - (now - started_at b)" "hm_get (buckets l') k = Some b"
    using Inr denied cfg lim l1
    by (auto simp: limiter_begin_def entry_or_insert_def roll_window_def Let_def
        split: if_splits option.splits)
  have "started_at b \<le> now" using past b(1) by blast
  then have "used_at l' (now + d) k = 0"
    using b cfg' by (simp add: used_at_def)
  moreover have "\<not> no_room l' (now + d) k"
    using b(4) by (simp add: no_room_def)
  ultimately show ?thesis
    using limiter_begin_result [of l' "now + d" k] inv' cfg cfg' lim b(2,3)
    by (simp add: limiter_inv_def)
qed

text \<open>C34: a refusal asks the client to wait a positive time, at most one window, and the wait is
  long enough: the same request, made again then, is admitted.\<close>

theorem retry_after_suffices:
  assumes inv: "limiter_inv l"
    and past: "\<forall>j b. hm_get (buckets l) j = Some b \<longrightarrow> started_at b \<le> now"
    and cfg: "0 < window l" "0 < limit l" "0 < rl_capacity l"
    and denied: "limiter_begin l now k = (Inl (Exhausted d), l')"
  shows "0 < d \<and> d \<le> window l \<and> is_ok (fst (limiter_begin l' (now + d) k))"
proof (cases "make_room l now k")
  case (Inl e)
  show ?thesis by (rule retry_after_full_table [OF inv past cfg denied Inl])
next
  case (Inr l1)
  show ?thesis by (rule retry_after_exhausted [OF inv past cfg denied Inr])
qed

theorem retry_after_suffices_witness:
  "is_ok (fst (limiter_begin (snd (limiter_begin (snd (limiter_begin (new_limiter 1 1000 16) 0 ''alice''))
      999 ''alice'')) (999 + 1) ''alice''))"
proof -
  let ?l = "snd (limiter_begin (new_limiter 1 1000 16) 0 ''alice'')"
  note ev = limiter_defs new_limiter_def Let_def hm_get_def hm_len_def hm_insert_def
  have inv: "limiter_inv ?l" by (rule limiter_begin_inv) (rule new_limiter_inv)
  have "\<forall>j b. hm_get (buckets ?l) j = Some b \<longrightarrow> started_at b \<le> 999"
    by (simp add: ev)
  moreover have "0 < window ?l" "0 < limit ?l" "0 < rl_capacity ?l"
    by (simp_all add: new_limiter_def)
  moreover have "limiter_begin ?l 999 ''alice'' =
      (Inl (Exhausted 1), snd (limiter_begin ?l 999 ''alice''))"
    by (simp add: ev)
  ultimately show ?thesis
    using retry_after_suffices [OF inv] by blast
qed

section \<open>Generations\<close>

text \<open>
  A guard from a window that is over must not give anything back to the window that replaced it.
  The generation counter is a wrapping \<open>u64\<close>, so this is a property of runs shorter than its range.
\<close>

definition generations_below :: "'k limiter \<Rightarrow> bool" where
  "generations_below l \<longleftrightarrow>
     (\<forall>k b. hm_get (buckets l) k = Some b \<longrightarrow> generation b < next_generation l)"

text \<open>What is known of the bucket of an attempt's key: it is still the attempt's bucket, or a
  younger one.\<close>

definition attempt_link :: "'k \<Rightarrow> u64 \<Rightarrow> instant \<Rightarrow> 'k limiter \<Rightarrow> bool" where
  "attempt_link k g s l \<longleftrightarrow> hm_wf (buckets l) \<and> g < next_generation l
     \<and> (\<forall>b. hm_get (buckets l) k = Some b \<longrightarrow>
          (generation b = g \<and> started_at b = s) \<or> g < generation b)"

lemma limiter_begin_next_unat:
  assumes "unat (next_generation l) + 2 < 2 ^ 64"
  shows "unat (next_generation l) \<le> unat (next_generation (snd (limiter_begin l t k)))"
    and "unat (next_generation (snd (limiter_begin l t k))) \<le> unat (next_generation l) + 2"
    and "unat (next_generation l + 1) = unat (next_generation l) + 1"
proof -
  have 1: "unat (g + 1) = unat g + 1" if "unat g + 1 < 2 ^ 64" for g :: u64
    using that by (simp add: unat_word_ariths)
  show "unat (next_generation l + 1) = unat (next_generation l) + 1"
    using assms by (intro 1) simp
  moreover have "unat (next_generation l + 1 + 1) = unat (next_generation l) + 2"
    using assms calculation 1 [of "next_generation l + 1"] by simp
  ultimately show "unat (next_generation l) \<le> unat (next_generation (snd (limiter_begin l t k)))"
    "unat (next_generation (snd (limiter_begin l t k))) \<le> unat (next_generation l) + 2"
    using limiter_begin_next_generation [of l t k] by auto
qed

lemma attempt_release_bucket:
  assumes "hm_wf (buckets l)" and "hm_get (buckets (fst (attempt_release l a))) j = Some b"
  shows "\<exists>b0. hm_get (buckets l) j = Some b0 \<and> generation b = generation b0
    \<and> started_at b = started_at b0"
  using assms by (auto simp: attempt_release_def Let_def hm.get_del split: option.splits if_splits)

lemma attempt_release_next [simp]:
  "next_generation (fst (attempt_release l a)) = next_generation l"
  by (auto simp: attempt_release_def Let_def split: option.splits)

lemma attempt_link_step:
  assumes link: "attempt_link k g s l" and "unat (next_generation l) + 2 < 2 ^ 64"
  shows "attempt_link k g s (limiter_step l op)
    \<and> unat (next_generation (limiter_step l op)) \<le> unat (next_generation l) + 2"
proof (cases op)
  case (OpBegin t j)
  have wf: "hm_wf (buckets l)" using link by (simp add: attempt_link_def)
  have wf': "hm_wf (buckets (snd (limiter_begin l t j)))"
    using wf by (auto simp: limiter_begin_def entry_or_insert_def roll_window_def Let_def make_room_def
        hm.wf_retain hm.wf_put split: sum.splits if_splits)
  note nx = limiter_begin_next_unat(1,2) [OF assms(2), of t j]
    limiter_begin_next_unat(3) [OF assms(2)]
  have g: "unat g < unat (next_generation l)"
    using link by (simp add: attempt_link_def word_less_nat_alt)
  have b: "(generation b = g \<and> started_at b = s) \<or> g < generation b"
    if "hm_get (buckets (snd (limiter_begin l t j))) k = Some b" for b
    using limiter_begin_bucket [OF wf that] link g nx(3)
    by (auto simp: attempt_link_def word_less_nat_alt)
  show ?thesis
    using OpBegin wf' b g nx by (simp add: attempt_link_def word_less_nat_alt)
next
  case (OpRelease a)
  have "hm_wf (buckets (fst (attempt_release l a)))"
    using link by (auto simp: attempt_link_def attempt_release_def Let_def hm.wf_del hm.wf_put
        split: option.splits)
  with OpRelease link attempt_release_bucket [of l a k] show ?thesis
    by (fastforce simp: attempt_link_def attempt_rollback_eq)
qed

lemma attempt_link_run:
  "attempt_link k g s l \<Longrightarrow> unat (next_generation l) + 2 * length ops < 2 ^ 64 - 2 \<Longrightarrow>
     attempt_link k g s (run limiter_step l ops)"
proof (induction ops arbitrary: l)
  case (Cons op ops)
  from attempt_link_step [OF Cons.prems(1), of op] Cons.prems(2)
  have "attempt_link k g s (limiter_step l op)"
    "unat (next_generation (limiter_step l op)) \<le> unat (next_generation l) + 2"
    by simp_all
  with Cons.IH [of "limiter_step l op"] Cons.prems(2) show ?case by simp
qed simp

lemma limiter_begin_generations:
  assumes wf: "hm_wf (buckets l)" and below: "generations_below l"
    and nowrap: "unat (next_generation l) + 2 < 2 ^ 64"
  shows "generations_below (snd (limiter_begin l t k))"
proof -
  have up: "next_generation l < next_generation l + 1"
    "next_generation l + 1 < next_generation l + 1 + 1"
    using nowrap by (simp_all add: word_less_nat_alt unat_word_ariths)
  then have up2: "g < next_generation l \<Longrightarrow> g < next_generation l + 1"
    "g < next_generation l \<Longrightarrow> g < next_generation l + 1 + 1"
    "next_generation l < next_generation l + 1 + 1" for g
    by (meson less_trans)+
  show ?thesis
  proof (cases "make_room l t k")
    case (Inl e)
    with below wf show ?thesis
      by (auto simp: limiter_begin_def generations_below_def hm.get_retain_Some)
  next
    case (Inr l1)
    have "next_generation l1 = next_generation l" "generations_below l1"
      using make_room_Inr [OF Inr] below wf
      by (auto simp: generations_below_def hm.get_retain_Some)
    with Inr up up2 show ?thesis
      by (auto simp: limiter_begin_def entry_or_insert_def roll_window_def Let_def
          generations_below_def split: option.splits)
  qed
qed

lemma new_limiter_generations: "generations_below (new_limiter lim win cap)"
  by (simp add: generations_below_def new_limiter_def)

text \<open>a guard that outlives its window is harmless: whatever happened to the limiter since
  the attempt was admitted, if the key's bucket has started another window, then dropping or rolling
  back the old attempt changes nothing.\<close>

theorem stale_attempt_harmless:
  assumes inv: "limiter_inv l" "generations_below l" "0 < window l"
    and begun: "limiter_begin l t k = (Inr a, l1)" "hm_get (buckets l1) k = Some b1"
    and later: "hm_get (buckets (run limiter_step l1 ops)) k = Some b2"
      "started_at b2 \<noteq> started_at b1"
    and nowrap: "unat (next_generation l) + 2 * length ops + 4 < 2 ^ 64"
  shows "attempt_rollback (run limiter_step l1 ops) a = run limiter_step l1 ops \<and>
         attempt_drop (run limiter_step l1 ops) a = run limiter_step l1 ops"
proof -
  have wf: "hm_wf (buckets l)" and wf1: "hm_wf (buckets l1)"
    using inv(1) limiter_begin_inv [OF inv(1), of t k] begun(1) by (simp_all add: limiter_inv_def)
  have a: "at_key a = Some k" "at_generation a = generation b1" "committed a = False"
    using limiter_begin_get_same [OF wf begun(1) inv(3)] begun(2) by auto
  have "generations_below l1"
    using limiter_begin_generations [OF wf inv(2), of t k] nowrap begun(1) by simp
  then have "attempt_link k (generation b1) (started_at b1) l1"
    using wf1 begun(2) by (simp add: attempt_link_def generations_below_def)
  moreover have "unat (next_generation l1) + 2 * length ops < 2 ^ 64 - 2"
    using limiter_begin_next_unat(2) [of l t k] begun(1) nowrap by simp
  ultimately have "attempt_link k (generation b1) (started_at b1) (run limiter_step l1 ops)"
    by (rule attempt_link_run)
  then have "generation b2 \<noteq> generation b1"
    using later by (auto simp: attempt_link_def)
  then show ?thesis
    using a later(1) by (simp add: attempt_rollback_eq attempt_drop_def attempt_release_def)
qed

theorem stale_attempt_harmless_witness:
  "attempt_drop
     (run limiter_step (snd (limiter_begin (new_limiter 1 1000 16) 0 ''alice'')) [OpBegin 1000 ''alice''])
     \<lparr>at_key = Some ''alice'', at_generation = 1, committed = False\<rparr> =
   run limiter_step (snd (limiter_begin (new_limiter 1 1000 16) 0 ''alice'')) [OpBegin 1000 ''alice'']"
proof -
  note ev = limiter_defs new_limiter_def Let_def hm_get_def hm_len_def hm_insert_def
  let ?l = "new_limiter 1 1000 16 :: string limiter"
  let ?a = "\<lparr>at_key = Some ''alice'', at_generation = 1, committed = False\<rparr>"
  let ?l1 = "snd (limiter_begin ?l 0 ''alice'')"
  have 1: "limiter_begin ?l 0 ''alice'' = (Inr ?a, ?l1)"
    by (simp add: ev)
  have l1: "?l1 = \<lparr>limit = 1, window = 1000, rl_capacity = 16, next_generation = 2,
      buckets = [(''alice'', \<lparr>started_at = 0, generation = 1, count = 1\<rparr>)]\<rparr>"
    by (simp add: ev)
  have 2: "hm_get (buckets ?l1) ''alice'' = Some \<lparr>started_at = 0, generation = 1, count = 1\<rparr>"
    by (simp add: ev)
  have 3: "hm_get (buckets (run limiter_step ?l1 [OpBegin 1000 ''alice''])) ''alice'' =
      Some \<lparr>started_at = 1000, generation = 3, count = 1\<rparr>"
    unfolding l1 by (simp add: limiter_defs Let_def hm_get_def hm_len_def hm_insert_def)
  have w: "0 < window ?l" and g: "unat (next_generation ?l) + 2 * length [OpBegin 1000 ''alice''] + 4 < 2 ^ 64"
    by (simp_all add: new_limiter_def)
  show ?thesis
    using stale_attempt_harmless [OF new_limiter_inv new_limiter_generations w 1 2 3 _ g] by simp
qed

end
