(* ===== verification/Origin.thy ===== *)
theory Origin
  imports Config
begin

text \<open>
  \<open>origin.rs\<close>: the allowed origin of browser requests and the validation of \<open>Origin\<close> headers. URL
  parsing is the URL library of \<open>config_lib\<close>. The lemma characterises the accepted headers.
\<close>

type_synonym origin_policy = url_origin

datatype origin_error = OriginMissing | OriginMultiple | OriginMalformed | OriginDisallowed

definition parse_origin :: "config_lib \<Rightarrow> string \<Rightarrow> origin_error + url" where
  "parse_origin lib text =
     and_then (ok_or OriginMalformed (url_parse lib text)) (\<lambda>u.
     and_then (fail_if (url_scheme u \<notin> {''http'', ''https''} \<or> url_username u \<noteq> []
         \<or> url_password u \<noteq> None \<or> url_host u = None \<or> url_path u \<noteq> ''/''
         \<or> url_query u \<noteq> None \<or> url_fragment u \<noteq> None) OriginMalformed) (\<lambda>_. Inr u))"

definition origin_policy_new :: "config_lib \<Rightarrow> string \<Rightarrow> origin_error + origin_policy" where
  "origin_policy_new lib text = map_ok url_origin_of (parse_origin lib text)"

definition origin_validate :: "config_lib \<Rightarrow> origin_policy \<Rightarrow> string \<Rightarrow> origin_error + unit" where
  "origin_validate lib allowed text =
     and_then (parse_origin lib text) (\<lambda>u.
     if url_origin_of u = allowed then Inr () else Inl OriginDisallowed)"

definition validate_header_values ::
  "config_lib \<Rightarrow> origin_policy \<Rightarrow> bytes list \<Rightarrow> origin_error + unit" where
  "validate_header_values lib allowed hs =
     (case hs of
        [] \<Rightarrow> Inl OriginMissing
      | [h] \<Rightarrow> if is_str h then origin_validate lib allowed h else Inl OriginMalformed
      | _ \<Rightarrow> Inl OriginMultiple)"

lemma parse_origin_ok:
  "parse_origin lib text = Inr u \<longleftrightarrow>
     url_parse lib text = Some u \<and> bare_origin_url u \<and> url_scheme u \<in> {''http'', ''https''}"
  by (auto simp: parse_origin_def bare_origin_url_def)

text \<open>C26: A request passes the origin check iff it carries exactly one \<open>Origin\<close> header, of UTF-8 text
  that parses to a bare http or https origin equal to the configured one; every other request is
  refused with an error that names why.\<close>

theorem origin_check_exact:
  "(validate_header_values lib allowed hs = Inr () \<longleftrightarrow>
      (\<exists>h u. hs = [h] \<and> is_str h \<and> url_parse lib h = Some u \<and> bare_origin_url u
        \<and> url_scheme u \<in> {''http'', ''https''} \<and> url_origin_of u = allowed))
   \<and> (validate_header_values lib allowed hs = Inl OriginMissing \<longleftrightarrow> hs = [])
   \<and> (validate_header_values lib allowed hs = Inl OriginMultiple \<longleftrightarrow> 1 < length hs)"
proof -
  have e: "parse_origin lib h \<noteq> Inl OriginMissing" "parse_origin lib h \<noteq> Inl OriginMultiple" for h
    by (auto simp: parse_origin_def and_then_eq_Inl)
  then have "origin_validate lib allowed h \<noteq> Inl OriginMissing"
    "origin_validate lib allowed h \<noteq> Inl OriginMultiple" for h
    by (auto simp: origin_validate_def and_then_eq_Inl split: if_splits)
  moreover have "origin_validate lib allowed h = Inr () \<longleftrightarrow>
      (\<exists>u. parse_origin lib h = Inr u \<and> url_origin_of u = allowed)" for h
    by (auto simp: origin_validate_def split: if_splits)
  ultimately show ?thesis
    by (auto simp: validate_header_values_def parse_origin_ok split: list.splits)
qed

end
