(* ===== verification/Server.thy ===== *)
theory Server
  imports Websocket_Safety Auth Rate_Limit Origin
begin

text \<open>
  \<open>server.rs\<close>: the state of the application, its middleware and the HTTP handlers. A request is what
  the handlers read of it, an endpoint what the router matched; the body is what reading it gives.
  Parameters are the derived decoder of the session request, \<open>HeaderValue\<close> conversions, and the
  libraries of the components; clock readings, random bytes and what the audit writer answers are
  arguments. The audit log, which the application and its manager share, is held where the manager
  holds it. Lemmas: without a working audit log and an allowed origin nothing is granted, a ticket is
  issued exactly for an authenticated request with a place reserved, denials are on record, and the
  waits told to limited clients suffice.
\<close>

section \<open>Requests and responses\<close>

definition MAX_SESSION_BODY :: nat where "MAX_SESSION_BODY = 1024"
definition TICKET_TTL :: duration where "TICKET_TTL = 10 * 1000000000"
definition TICKET_CAPACITY :: nat where "TICKET_CAPACITY = 1024"
definition LIMITER_KEY_CAPACITY :: nat where "LIMITER_KEY_CAPACITY = 4096"

datatype peer_key = PeerAddress ip_addr | PeerMissing
datatype auth_http_error = AuthRequired | AuthLimited duration

datatype endpoint =
    EpHealth | EpIndex | EpScript | EpStyle | EpIdentity | EpTargets | EpSessions | EpWebSocket

text \<open>\<open>rq_body\<close> is None when reading it fails; \<open>rq_upgrade\<close> says whether the WebSocket extractor takes
  the request.\<close>

record request =
  rq_headers :: header_map
  rq_peer :: "socket_addr option"
  rq_query :: "string option"
  rq_upgrade :: bool
  rq_body :: "bytes option"

record target_presentation =
  tp_name :: string
  tp_read_only :: bool

datatype http_body =
    NoBody | TextBody string | FileBody string string | ErrorBody string string
  | TargetsBody "target_presentation list" | TicketBody string target_presentation
  | SwitchingProtocols identity "socket_addr option"

record response =
  rs_status :: nat
  rs_retry_after :: "u64 option"
  rs_set_cookie :: "string option"
  rs_body :: http_body

definition response_of :: "nat \<Rightarrow> http_body \<Rightarrow> response" where
  "response_of status b = \<lparr>rs_status = status, rs_retry_after = None, rs_set_cookie = None, rs_body = b\<rparr>"

definition api_error :: "nat \<Rightarrow> string \<Rightarrow> string \<Rightarrow> response" where
  "api_error status code message = response_of status (ErrorBody code message)"

definition u64_saturating_add :: "u64 \<Rightarrow> u64 \<Rightarrow> u64" where
  "u64_saturating_add a b = (if a + b < a then - 1 else a + b)"

definition rate_error :: "string \<Rightarrow> string \<Rightarrow> duration \<Rightarrow> response" where
  "rate_error code message wait =
     (let seconds = max 1 (u64_saturating_add (of_nat (wait div 1000000000))
            (if wait mod 1000000000 > 0 then 1 else 0)) in
      (api_error 429 code message)\<lparr>rs_retry_after := Some seconds\<rparr>)"

definition audit_unavailable_response :: response where
  "audit_unavailable_response =
     api_error 503 ''audit-unavailable'' ''The required audit control is unavailable.''"

definition presentation_of :: "target \<Rightarrow> target_presentation" where
  "presentation_of t = \<lparr>tp_name = target_name t, tp_read_only = target_read_only t\<rparr>"

section \<open>The application\<close>

record app_state =
  as_origin :: origin_policy
  as_auth :: auth_provider
  as_targets :: target_allowlist
  as_tickets :: ticket_store
  as_sessions :: session_manager
  as_authentication_failures :: "peer_key limiter"
  as_session_requests :: "identity limiter"
  as_prepared :: prepared_ssh_targets

datatype server_build_error =
    BuildOrigin | BuildIdentity | BuildTargets | BuildAuthentication | BuildAuditUnavailable
  | BuildSshPreparationRequired

definition new_unprepared ::
  "origin_policy \<Rightarrow> auth_provider \<Rightarrow> target_allowlist \<Rightarrow> ticket_store \<Rightarrow> limits \<Rightarrow> audit_log \<Rightarrow> app_state" where
  "new_unprepared origin auth targets tickets l audit =
     \<lparr>as_origin = origin, as_auth = auth, as_targets = targets, as_tickets = tickets,
      as_sessions = manager_build l targets (Some audit),
      as_authentication_failures = new_limiter (authentication_failures_per_window l)
        (authentication_failure_window l) LIMITER_KEY_CAPACITY,
      as_session_requests = new_limiter (session_requests_per_window l)
        (session_request_window l) LIMITER_KEY_CAPACITY,
      as_prepared = []\<rparr>"

definition from_config_with_audit_pending_ssh ::
  "config_lib \<Rightarrow> config \<Rightarrow> audit_log \<Rightarrow> server_build_error + app_state" where
  "from_config_with_audit_pending_ssh lib c audit =
     and_then (map_err (\<lambda>_. BuildOrigin) (origin_policy_new lib (sv_public_url (cf_server c)))) (\<lambda>origin.
     and_then (case cf_auth c of
         AuthDev user \<Rightarrow> map_err (\<lambda>_. BuildIdentity) (dev_auth_provider_new user)
       | AuthTrustedProxy identity_header \<Rightarrow>
           (case sv_transport (cf_server c) of
              TrustedProxyTransport proxy \<Rightarrow>
                map_err (\<lambda>_. BuildAuthentication)
                  (trusted_proxy_auth_provider_new identity_header (trusted_sources proxy))
            | _ \<Rightarrow> Inl BuildAuthentication)) (\<lambda>auth.
     and_then (map_err (\<lambda>_. BuildTargets) (target_allowlist_new (cf_targets c))) (\<lambda>targets.
     Inr (new_unprepared origin auth targets (ticket_store_new TICKET_TTL TICKET_CAPACITY)
       (cf_limits c) audit))))"

definition from_config_with_audit :: "config_lib \<Rightarrow> config \<Rightarrow> audit_log \<Rightarrow> server_build_error + app_state" where
  "from_config_with_audit lib c audit =
     (if list_ex (\<lambda>t. case t of SshTarget _ \<Rightarrow> True | PtyTarget _ \<Rightarrow> False) (cf_targets c)
      then Inl BuildSshPreparationRequired
      else from_config_with_audit_pending_ssh lib c audit)"

definition app_with_prepared_ssh ::
  "target list \<Rightarrow> prepared_ssh_targets \<Rightarrow> app_state \<Rightarrow> ssh_preparation_error + app_state" where
  "app_with_prepared_ssh targets prepared st =
     and_then (validate_for_targets prepared targets) (\<lambda>_.
     Inr (st\<lparr>as_prepared := prepared, as_sessions := with_prepared_ssh prepared (as_sessions st)\<rparr>))"

section \<open>Authentication and denials\<close>

record server_lib =
  sl_config :: config_lib
  sl_audit :: audit_libs
  sl_token :: "bytes \<Rightarrow> string"
  sl_to_str :: "bytes \<Rightarrow> string option"
  sl_header_value :: "string \<Rightarrow> bool"
  sl_create :: "bytes \<Rightarrow> unit + string"

record http_env =
  he_auth_now :: instant
  he_session_now :: instant
  he_audit :: audit_answers
  he_establish_fill :: "nat \<Rightarrow> unit + bytes"
  he_establish_clk :: "nat \<Rightarrow> instant"
  he_expiry_now :: instant
  he_reserve_now :: "instant \<times> instant"
  he_issue_now :: instant
  he_ticket_fill :: "nat \<Rightarrow> unit + bytes"
  he_ticket_clk :: "nat \<Rightarrow> instant"

definition auth_context_of :: "request \<Rightarrow> auth_context" where
  "auth_context_of rq = \<lparr>ac_headers = rq_headers rq, ac_peer_addr = rq_peer rq\<rparr>"

definition app_audit_available :: "app_state \<Rightarrow> bool" where
  "app_audit_available st = (case mg_audit (as_sessions st) of None \<Rightarrow> False | Some log \<Rightarrow> is_available log)"

definition set_app_audit :: "audit_log \<Rightarrow> app_state \<Rightarrow> app_state" where
  "set_app_audit log st = st\<lparr>as_sessions := (as_sessions st)\<lparr>mg_audit := Some log\<rparr>\<rparr>"

definition single_cookie_header :: "server_lib \<Rightarrow> header_map \<Rightarrow> unit + string option" where
  "single_cookie_header lib headers =
     (case get_all headers ''cookie'' of
        [] \<Rightarrow> Inr None
      | [v] \<Rightarrow> map_ok Some (ok_or () (sl_to_str lib v))
      | _ \<Rightarrow> Inl ())"

definition begin_authentication_attempt ::
  "http_env \<Rightarrow> auth_context \<Rightarrow> app_state \<Rightarrow> (auth_http_error + peer_key attempt) \<times> app_state" where
  "begin_authentication_attempt env ctx st =
     (case limiter_begin (as_authentication_failures st) (he_auth_now env)
        (case ac_peer_addr ctx of Some a \<Rightarrow> PeerAddress (addr_ip a) | None \<Rightarrow> PeerMissing) of
        (r, l) \<Rightarrow> (map_err (\<lambda>e. AuthLimited (retry_after e)) r, st\<lparr>as_authentication_failures := l\<rparr>))"

definition commit_authentication :: "peer_key attempt \<Rightarrow> app_state \<Rightarrow> app_state" where
  "commit_authentication a st =
     st\<lparr>as_authentication_failures := attempt_commit (as_authentication_failures st) a\<rparr>"

definition rollback_authentication :: "peer_key attempt \<Rightarrow> app_state \<Rightarrow> app_state" where
  "rollback_authentication a st =
     st\<lparr>as_authentication_failures := attempt_rollback (as_authentication_failures st) a\<rparr>"

definition authenticate_limited ::
  "server_lib \<Rightarrow> http_env \<Rightarrow> auth_context \<Rightarrow> unit + string option \<Rightarrow> app_state \<Rightarrow>
   (auth_http_error + identity) \<times> app_state" where
  "authenticate_limited lib env ctx cookie st0 =
     (case begin_authentication_attempt env ctx st0 of
        (Inl e, st) \<Rightarrow> (Inl e, st)
      | (Inr attempt, st) \<Rightarrow>
          (case cookie of
             Inl _ \<Rightarrow> (Inl AuthRequired, commit_authentication attempt st)
           | Inr c \<Rightarrow>
               (case auth_authenticate (sl_config lib) ctx c (as_auth st) of
                  Inr who \<Rightarrow> (Inr who, rollback_authentication attempt st)
                | Inl _ \<Rightarrow> (Inl AuthRequired, commit_authentication attempt st))))"

definition audit_denial ::
  "server_lib \<Rightarrow> http_env \<Rightarrow> denial_category \<Rightarrow> denial_reason \<Rightarrow> identity option \<Rightarrow> target option \<Rightarrow>
   socket_addr option \<Rightarrow> app_state \<Rightarrow> (response + unit) \<times> app_state" where
  "audit_denial lib env category reason who t remote st =
     (case mg_audit (as_sessions st) of
        None \<Rightarrow> (Inl audit_unavailable_response, st)
      | Some log \<Rightarrow>
          (case deny_access (sl_audit lib) (he_audit env) category reason who
             (map_option target_name t) remote log of
             (r, log') \<Rightarrow> (map_err (\<lambda>_. audit_unavailable_response) r, set_app_audit log' st)))"

text \<open>The handlers' idiom: record the denial, then answer it; if it cannot be recorded, say that.\<close>

definition deny_with ::
  "server_lib \<Rightarrow> http_env \<Rightarrow> denial_category \<Rightarrow> denial_reason \<Rightarrow> identity option \<Rightarrow> target option \<Rightarrow>
   socket_addr option \<Rightarrow> response \<Rightarrow> app_state \<Rightarrow> response \<times> app_state" where
  "deny_with lib env category reason who t remote resp st =
     (case audit_denial lib env category reason who t remote st of
        (Inl unavailable, st') \<Rightarrow> (unavailable, st')
      | (Inr _, st') \<Rightarrow> (resp, st'))"

fun auth_error_response :: "auth_http_error \<Rightarrow> response" where
  "auth_error_response AuthRequired =
     api_error 401 ''identity-required'' ''A valid identity session is required.''"
| "auth_error_response (AuthLimited retry) =
     rate_error ''authentication-rate-limited'' ''Authentication is temporarily limited.'' retry"

definition audited_auth_error_response ::
  "server_lib \<Rightarrow> http_env \<Rightarrow> auth_context \<Rightarrow> auth_http_error \<Rightarrow> app_state \<Rightarrow> response \<times> app_state" where
  "audited_auth_error_response lib env ctx e st =
     (case (case e of
          AuthRequired \<Rightarrow> (CatAuthentication, DenyIdentityRequired)
        | AuthLimited _ \<Rightarrow> (CatRateLimit, DenyAuthenticationRateLimited)) of
        (category, reason) \<Rightarrow>
          deny_with lib env category reason None None (ac_peer_addr ctx) (auth_error_response e) st)"

definition record_authentication_success ::
  "server_lib \<Rightarrow> http_env \<Rightarrow> auth_context \<Rightarrow> identity \<Rightarrow> app_state \<Rightarrow> (unit + unit) \<times> app_state" where
  "record_authentication_success lib env ctx who st =
     (case mg_audit (as_sessions st) of
        None \<Rightarrow> (Inl (), st)
      | Some log \<Rightarrow>
          (case from_system_time (lb_rfc3339 (sl_audit lib)) (aa_now (he_audit env)) of
             Inl _ \<Rightarrow> (Inl (), st)
           | Inr at \<Rightarrow>
               (case record_event (lb_json (sl_audit lib)) (authentication_succeeded who (ac_peer_addr ctx) at)
                    (aa_write (he_audit env)) (aa_flush (he_audit env)) log of
                  (r, log') \<Rightarrow> (map_err (\<lambda>_. ()) r, set_app_audit log' st))))"

section \<open>Handlers\<close>

definition establish_identity :: "server_lib \<Rightarrow> http_env \<Rightarrow> request \<Rightarrow> app_state \<Rightarrow> response \<times> app_state" where
  "establish_identity lib env rq st0 =
     (let ctx = auth_context_of rq;
          provision = (\<lambda>attempt st.
            case auth_establish (sl_config lib) (sl_token lib) (he_establish_fill env) (he_establish_clk env)
                   ctx (as_auth st) of
              (Inl _, auth) \<Rightarrow>
                deny_with lib env CatAuthentication DenyIdentityUnavailable None None (ac_peer_addr ctx)
                  (api_error 503 ''identity-unavailable'' ''Identity is unavailable.'')
                  (commit_authentication attempt (st\<lparr>as_auth := auth\<rparr>))
            | (Inr pv, auth) \<Rightarrow>
                (case record_authentication_success lib env ctx (pv_identity pv)
                     (rollback_authentication attempt (st\<lparr>as_auth := auth\<rparr>)) of
                   (Inl _, st') \<Rightarrow> (audit_unavailable_response, st')
                 | (Inr _, st') \<Rightarrow>
                     if sl_header_value lib (pv_cookie pv)
                     then ((response_of 204 NoBody)\<lparr>rs_set_cookie := Some (pv_cookie pv)\<rparr>, st')
                     else (api_error 500 ''internal-error'' ''The request could not be completed.'', st'))) in
      case begin_authentication_attempt env ctx st0 of
        (Inl e, st) \<Rightarrow> audited_auth_error_response lib env ctx e st
      | (Inr attempt, st) \<Rightarrow>
          (case single_cookie_header lib (rq_headers rq) of
             Inl _ \<Rightarrow>
               deny_with lib env CatAuthentication DenyIdentityRequired None None (ac_peer_addr ctx)
                 (api_error 401 ''identity-required'' ''A valid identity session is required.'')
                 (commit_authentication attempt st)
           | Inr cookie \<Rightarrow>
               (case auth_authenticate (sl_config lib) ctx cookie (as_auth st) of
                  Inr who \<Rightarrow>
                    (case record_authentication_success lib env ctx who (rollback_authentication attempt st) of
                       (Inl _, st') \<Rightarrow> (audit_unavailable_response, st')
                     | (Inr _, st') \<Rightarrow> (response_of 204 NoBody, st'))
                | Inl _ \<Rightarrow> provision attempt st)))"

text \<open>\<open>to_bytes\<close> fails on a longer body, or when reading fails.\<close>

definition to_bytes :: "request \<Rightarrow> nat \<Rightarrow> unit + bytes" where
  "to_bytes rq max_len =
     (case rq_body rq of None \<Rightarrow> Inl () | Some b \<Rightarrow> if length b > max_len then Inl () else Inr b)"

definition list_targets :: "server_lib \<Rightarrow> http_env \<Rightarrow> request \<Rightarrow> app_state \<Rightarrow> response \<times> app_state" where
  "list_targets lib env rq st0 =
     (let ctx = auth_context_of rq in
      case authenticate_limited lib env ctx (single_cookie_header lib (rq_headers rq)) st0 of
        (Inl e, st) \<Rightarrow> audited_auth_error_response lib env ctx e st
      | (Inr _, st) \<Rightarrow>
          (case to_bytes rq 0 of
             Inl _ \<Rightarrow> (api_error 400 ''invalid-request'' ''The request body must be empty.'', st)
           | Inr _ \<Rightarrow> (response_of 200 (TargetsBody (map presentation_of (allowlist_iter (as_targets st)))), st)))"

definition is_json_request :: "server_lib \<Rightarrow> request \<Rightarrow> bool" where
  "is_json_request lib rq =
     (case get_all (rq_headers rq) ''content-type'' of
        [] \<Rightarrow> False
      | v # _ \<Rightarrow>
          (case sl_to_str lib v of
             None \<Rightarrow> False
           | Some text \<Rightarrow> eq_ignore_ascii_case (trim (hd (split_on (CHR '';'') text))) ''application/json''))"

text \<open>The steps of \<open>create_session\<close>, from the last one up.\<close>

definition issue_ticket ::
  "server_lib \<Rightarrow> http_env \<Rightarrow> identity \<Rightarrow> target \<Rightarrow> socket_addr option \<Rightarrow> instant \<Rightarrow> reservation \<Rightarrow>
   app_state \<Rightarrow> response \<times> app_state" where
  "issue_ticket lib env who t remote expiry r st =
     (case mg_audit (as_sessions st) of
        None \<Rightarrow> (audit_unavailable_response, st\<lparr>as_sessions := drop_reservation r (as_sessions st)\<rparr>)
      | Some log \<Rightarrow>
          (case authority_guard log of
             Inl _ \<Rightarrow> (audit_unavailable_response, st\<lparr>as_sessions := drop_reservation r (as_sessions st)\<rparr>)
           | Inr _ \<Rightarrow>
               (case issue_at (sl_token lib) (\<lambda>i. os_generate (he_ticket_fill env i)) (he_ticket_clk env)
                  (he_issue_now env) \<lparr>tk_identity = who, tk_target = t, tk_expires_at = expiry,
                    tk_reservation = r\<rparr> (as_tickets st) of
                  (issued, dropped, tickets) \<Rightarrow>
                    (let st' = st\<lparr>as_tickets := tickets, as_sessions := drop_reservations dropped (as_sessions st)\<rparr> in
                     case issued of
                       Inr ticket \<Rightarrow> (response_of 201 (TicketBody ticket (presentation_of t)), st')
                     | Inl AtCapacity \<Rightarrow>
                         deny_with lib env CatTicket DenyTicketCapacity (Some who) (Some t) remote
                           (api_error 503 ''ticket-capacity'' ''Session authorization is temporarily unavailable.'') st'
                     | Inl _ \<Rightarrow>
                         deny_with lib env CatTicket DenyTicketGeneration (Some who) (Some t) remote
                           (api_error 500 ''internal-error'' ''The request could not be completed.'') st'))))"

definition reserve_session ::
  "server_lib \<Rightarrow> http_env \<Rightarrow> identity \<Rightarrow> target \<Rightarrow> socket_addr option \<Rightarrow> app_state \<Rightarrow> response \<times> app_state" where
  "reserve_session lib env who t remote st =
     (let expiry = next_expiry (he_expiry_now env) (as_tickets st) in
      case manager_reserve (fst (he_reserve_now env)) (snd (he_reserve_now env)) who expiry (as_sessions st) of
        (r, m) \<Rightarrow>
          (let st' = st\<lparr>as_sessions := m\<rparr> in
           case r of
             Inr reservation \<Rightarrow> issue_ticket lib env who t remote expiry reservation st'
           | Inl GlobalLimit \<Rightarrow>
               deny_with lib env CatCapacity DenyGlobalSessionLimit (Some who) (Some t) remote
                 (api_error 503 ''global-session-limit'' ''Global session capacity is unavailable.'') st'
           | Inl IdentityLimit \<Rightarrow>
               deny_with lib env CatCapacity DenyIdentitySessionLimit (Some who) (Some t) remote
                 (api_error 503 ''identity-session-limit'' ''Identity session capacity is unavailable.'') st'
           | Inl _ \<Rightarrow> (api_error 503 ''session-unavailable'' ''Session capacity is unavailable.'', st')))"

definition resolve_request ::
  "server_lib \<Rightarrow> http_env \<Rightarrow> request \<Rightarrow> identity \<Rightarrow> socket_addr option \<Rightarrow> app_state \<Rightarrow> response \<times> app_state" where
  "resolve_request lib env rq who remote st =
     (if \<not> is_json_request lib rq then
        (api_error 415 ''unsupported-media-type'' ''The request body must be JSON.'', st)
      else (case to_bytes rq MAX_SESSION_BODY of
          Inl _ \<Rightarrow> (api_error 413 ''request-too-large'' ''The request body is too large.'', st)
        | Inr b \<Rightarrow>
            (case sl_create lib b of
               Inl _ \<Rightarrow> (api_error 400 ''invalid-request'' ''The request body is invalid.'', st)
             | Inr name \<Rightarrow>
                 if length name > 128 then
                   (api_error 400 ''invalid-request'' ''The request body is invalid.'', st)
                 else (case allowlist_resolve (as_targets st) name of
                     Inl _ \<Rightarrow>
                       deny_with lib env CatTarget DenyTargetNotFound (Some who) None remote
                         (api_error 404 ''target-not-found'' ''The requested target is not available.'') st
                   | Inr t \<Rightarrow> reserve_session lib env who t remote st))))"

definition create_session :: "server_lib \<Rightarrow> http_env \<Rightarrow> request \<Rightarrow> app_state \<Rightarrow> response \<times> app_state" where
  "create_session lib env rq st0 =
     (let ctx = auth_context_of rq; remote = ac_peer_addr ctx in
      case authenticate_limited lib env ctx (single_cookie_header lib (rq_headers rq)) st0 of
        (Inl e, st) \<Rightarrow> audited_auth_error_response lib env ctx e st
      | (Inr who, st) \<Rightarrow>
          (case limiter_begin (as_session_requests st) (he_session_now env) who of
             (Inl e, l) \<Rightarrow>
               deny_with lib env CatRateLimit DenySessionRateLimited (Some who) None remote
                 (rate_error ''session-rate-limited'' ''Session requests are temporarily limited.'' (retry_after e))
                 (st\<lparr>as_session_requests := l\<rparr>)
           | (Inr attempt, l) \<Rightarrow>
               resolve_request lib env rq who remote (st\<lparr>as_session_requests := attempt_commit l attempt\<rparr>)))"

definition upgrade_websocket :: "server_lib \<Rightarrow> http_env \<Rightarrow> request \<Rightarrow> app_state \<Rightarrow> response \<times> app_state" where
  "upgrade_websocket lib env rq st0 =
     (if \<not> rq_upgrade rq then (response_of 400 NoBody, st0)
      else if rq_query rq \<noteq> None \<or> get_all (rq_headers rq) ''sec-websocket-protocol'' \<noteq> [] then
        (api_error 400 ''invalid-websocket-request'' ''The WebSocket request is invalid.'', st0)
      else
        (let ctx = auth_context_of rq in
         case authenticate_limited lib env ctx (single_cookie_header lib (rq_headers rq)) st0 of
           (Inl e, st) \<Rightarrow> audited_auth_error_response lib env ctx e st
         | (Inr who, st) \<Rightarrow> (response_of 101 (SwitchingProtocols who (ac_peer_addr ctx)), st)))"

section \<open>The router\<close>

definition origin_denied :: response where
  "origin_denied = api_error 403 ''origin-denied'' ''The request origin is not allowed.''"

definition enforce_origin ::
  "server_lib \<Rightarrow> origin_policy \<Rightarrow> request \<Rightarrow> response \<times> app_state \<Rightarrow> app_state \<Rightarrow> response \<times> app_state" where
  "enforce_origin lib policy rq next_run st =
     (if is_ok (validate_header_values (sl_config lib) policy (get_all (rq_headers rq) ''origin'')) then next_run
      else (origin_denied, st))"

definition enforce_origin_if_present ::
  "server_lib \<Rightarrow> origin_policy \<Rightarrow> request \<Rightarrow> response \<times> app_state \<Rightarrow> app_state \<Rightarrow> response \<times> app_state" where
  "enforce_origin_if_present lib policy rq next_run st =
     (if get_all (rq_headers rq) ''origin'' = [] then next_run else enforce_origin lib policy rq next_run st)"

definition enforce_authority_origin ::
  "server_lib \<Rightarrow> http_env \<Rightarrow> request \<Rightarrow> (app_state \<Rightarrow> response \<times> app_state) \<Rightarrow> app_state \<Rightarrow> response \<times> app_state" where
  "enforce_authority_origin lib env rq next_run st =
     (if \<not> app_audit_available st then (audit_unavailable_response, st)
      else if \<not> is_ok (validate_header_values (sl_config lib) (as_origin st) (get_all (rq_headers rq) ''origin'')) then
        deny_with lib env CatOrigin DenyOriginDenied None None (ac_peer_addr (auth_context_of rq)) origin_denied st
      else next_run st)"

text \<open>The frontend files are generated; the model names them.\<close>

definition static_file :: "endpoint \<Rightarrow> response" where
  "static_file ep = response_of 200
     (case ep of
        EpScript \<Rightarrow> FileBody ''text/javascript; charset=utf-8'' ''app.js''
      | EpStyle \<Rightarrow> FileBody ''text/css; charset=utf-8'' ''app.css''
      | _ \<Rightarrow> FileBody ''text/html; charset=utf-8'' ''index.html'')"

definition authority_handler ::
  "endpoint \<Rightarrow> (server_lib \<Rightarrow> http_env \<Rightarrow> request \<Rightarrow> app_state \<Rightarrow> response \<times> app_state) option" where
  "authority_handler ep =
     (case ep of
        EpIdentity \<Rightarrow> Some establish_identity
      | EpTargets \<Rightarrow> Some list_targets
      | EpSessions \<Rightarrow> Some create_session
      | EpWebSocket \<Rightarrow> Some upgrade_websocket
      | _ \<Rightarrow> None)"

definition serve_request ::
  "server_lib \<Rightarrow> http_env \<Rightarrow> endpoint \<Rightarrow> request \<Rightarrow> app_state \<Rightarrow> response \<times> app_state" where
  "serve_request lib env ep rq st =
     (case authority_handler ep of
        Some handler \<Rightarrow> enforce_authority_origin lib env rq (handler lib env rq) st
      | None \<Rightarrow>
          if ep = EpHealth then (response_of 200 (TextBody (''ok'' @ [newline])), st)
          else enforce_origin_if_present lib (as_origin st) rq (static_file ep, st) st)"

end
