(* ===== verification/Server_Safety.thy ===== *)
theory Server_Safety
  imports Server
begin

text \<open>
  What \<open>Server\<close> guarantees: nothing is granted without a working audit log, an allowed origin and an
  authenticated identity; a session ticket stands for a place reserved until the ticket's deadline,
  and no other answer leaves a place taken; refusals are on record; and the waiting time told to a
  limited client is enough.
\<close>

section \<open>Refusals are on record\<close>

definition http_denial_recorded ::
  "server_lib \<Rightarrow> http_env \<Rightarrow> denial_category \<Rightarrow> denial_reason \<Rightarrow> app_state \<Rightarrow> app_state \<Rightarrow> bool" where
  "http_denial_recorded lib env category reason st st' \<longleftrightarrow>
     (\<exists>cid who t remote at log log'.
        mg_audit (as_sessions st) = Some log \<and> mg_audit (as_sessions st') = Some log'
        \<and> record_event (lb_json (sl_audit lib)) (access_denied cid category reason who t remote at)
            (aa_write (he_audit env)) (aa_flush (he_audit env)) log = (Inr (), log'))"

lemma deny_access_Some:
  "deny_access libs ans category reason who tname remote log = (Inr (), log') \<Longrightarrow>
   \<exists>cid t at. record_event (lb_json libs) (access_denied cid category reason who t remote at)
     (aa_write ans) (aa_flush ans) log = (Inr (), log')"
  unfolding deny_access_def by (auto split: sum.splits prod.splits)

text \<open>A denial answers what it was given, on record, or that the audit log is unavailable; it changes
  the audit log only.\<close>

lemma deny_with_cases:
  assumes "deny_with lib env category reason who t remote resp st = (r, st')"
  shows "(r = audit_unavailable_response \<or> r = resp \<and> http_denial_recorded lib env category reason st st')
    \<and> (st' = st \<or> (\<exists>log. st' = set_app_audit log st))"
proof (cases "mg_audit (as_sessions st)")
  case None
  with assms show ?thesis by (auto simp: deny_with_def audit_denial_def)
next
  case (Some log)
  obtain res log' where d: "deny_access (sl_audit lib) (he_audit env) category reason who
      (map_option target_name t) remote log = (res, log')" by fastforce
  show ?thesis
  proof (cases res)
    case (Inl u)
    with assms Some d show ?thesis by (auto simp: deny_with_def audit_denial_def)
  next
    case (Inr u)
    with d deny_access_Some [of "sl_audit lib" "he_audit env" category reason who "map_option target_name t" remote log log']
    have "\<exists>cid t at. record_event (lb_json (sl_audit lib)) (access_denied cid category reason who t remote at)
        (aa_write (he_audit env)) (aa_flush (he_audit env)) log = (Inr (), log')" by simp
    with Some have "http_denial_recorded lib env category reason st (set_app_audit log' st)"
      unfolding http_denial_recorded_def set_app_audit_def by fastforce
    with assms Some d Inr show ?thesis by (auto simp: deny_with_def audit_denial_def)
  qed
qed

text \<open>The statuses: a response that grants is below 400, all refusals are not.\<close>

lemma refusal_status [simp]:
  "rs_status (api_error status code message) = status" "rs_status (rate_error code message d) = 429"
  "rs_status (response_of status b) = status" "rs_status audit_unavailable_response = 503"
  by (simp_all add: api_error_def rate_error_def response_of_def audit_unavailable_response_def)

text \<open>The codes of refusals that are decisions about access, each with the denial that is to be recorded
  for it.\<close>

definition denial_codes :: "(string \<times> denial_category \<times> denial_reason) list" where
  "denial_codes = [(''origin-denied'', CatOrigin, DenyOriginDenied),
     (''identity-required'', CatAuthentication, DenyIdentityRequired),
     (''authentication-rate-limited'', CatRateLimit, DenyAuthenticationRateLimited),
     (''identity-unavailable'', CatAuthentication, DenyIdentityUnavailable),
     (''session-rate-limited'', CatRateLimit, DenySessionRateLimited),
     (''target-not-found'', CatTarget, DenyTargetNotFound),
     (''global-session-limit'', CatCapacity, DenyGlobalSessionLimit),
     (''identity-session-limit'', CatCapacity, DenyIdentitySessionLimit),
     (''ticket-capacity'', CatTicket, DenyTicketCapacity),
     (''internal-error'', CatTicket, DenyTicketGeneration)]"

definition refused_on_record :: "server_lib \<Rightarrow> http_env \<Rightarrow> app_state \<Rightarrow> response \<Rightarrow> app_state \<Rightarrow> bool" where
  "refused_on_record lib env st resp st' \<longleftrightarrow>
     (\<exists>code message category reason. rs_body resp = ErrorBody code message
        \<and> (code, category, reason) \<in> set denial_codes \<and> http_denial_recorded lib env category reason st st')"

text \<open>Answers to requests that are not well formed.\<close>

definition malformed_answers :: "response list" where
  "malformed_answers =
     [response_of 400 NoBody,
      api_error 400 ''invalid-websocket-request'' ''The WebSocket request is invalid.'',
      api_error 400 ''invalid-request'' ''The request body must be empty.'',
      api_error 400 ''invalid-request'' ''The request body is invalid.'',
      api_error 413 ''request-too-large'' ''The request body is too large.'',
      api_error 415 ''unsupported-media-type'' ''The request body must be JSON.'']"

text \<open>The two refusals that are answered without a denial: a fresh identity whose cookie is no header
  value, after its authentication was recorded, and a manager that is closed or whose reservation is
  already over.\<close>

definition cookie_unencodable :: "server_lib \<Rightarrow> http_env \<Rightarrow> app_state \<Rightarrow> response \<Rightarrow> app_state \<Rightarrow> bool" where
  "cookie_unencodable lib env st resp st' \<longleftrightarrow>
     resp = api_error 500 ''internal-error'' ''The request could not be completed.''
     \<and> (\<exists>who remote at log log'. mg_audit (as_sessions st) = Some log \<and> mg_audit (as_sessions st') = Some log'
          \<and> record_event (lb_json (sl_audit lib)) (authentication_succeeded who remote at)
              (aa_write (he_audit env)) (aa_flush (he_audit env)) log = (Inr (), log'))"

definition manager_unavailable :: "http_env \<Rightarrow> app_state \<Rightarrow> response \<Rightarrow> app_state \<Rightarrow> bool" where
  "manager_unavailable env st resp st' \<longleftrightarrow>
     resp = api_error 503 ''session-unavailable'' ''Session capacity is unavailable.''
     \<and> mg_audit (as_sessions st') = mg_audit (as_sessions st)
     \<and> (\<exists>who e m. e \<in> {ManagerClosed, ReservationUnavailable}
          \<and> manager_reserve (fst (he_reserve_now env)) (snd (he_reserve_now env)) who
              (next_expiry (he_expiry_now env) (as_tickets st)) (as_sessions st) = (Inl e, m))"

definition answered_on_record :: "server_lib \<Rightarrow> http_env \<Rightarrow> app_state \<Rightarrow> response \<Rightarrow> app_state \<Rightarrow> bool" where
  "answered_on_record lib env st resp st' \<longleftrightarrow>
     rs_status resp < 400 \<or> refused_on_record lib env st resp st'
     \<or> resp = audit_unavailable_response
     \<or> resp \<in> set malformed_answers \<and> mg_audit (as_sessions st') = mg_audit (as_sessions st)
     \<or> cookie_unencodable lib env st resp st' \<or> manager_unavailable env st resp st'"

text \<open>Handlers that reach their answer over a state with the same manager and tickets.\<close>

definition same_store :: "app_state \<Rightarrow> app_state \<Rightarrow> bool" where
  "same_store st st' \<longleftrightarrow> as_sessions st' = as_sessions st \<and> as_tickets st' = as_tickets st"

lemma answered_same_store:
  "answered_on_record lib env st1 resp st' \<Longrightarrow> same_store st st1 \<Longrightarrow> answered_on_record lib env st resp st'"
  by (simp add: answered_on_record_def refused_on_record_def http_denial_recorded_def cookie_unencodable_def
    manager_unavailable_def same_store_def)

lemma same_store_simps [simp]:
  "same_store st (commit_authentication a st1) = same_store st st1"
  "same_store st (rollback_authentication a st1) = same_store st st1"
  "same_store st (st1\<lparr>as_auth := p\<rparr>) = same_store st st1"
  "same_store st (st1\<lparr>as_session_requests := l\<rparr>) = same_store st st1" "same_store st st"
  by (simp_all add: commit_authentication_def rollback_authentication_def same_store_def)

lemma begin_authentication_store: "begin_authentication_attempt env ctx st = (r, st') \<Longrightarrow> same_store st st'"
  by (auto simp: begin_authentication_attempt_def same_store_def split: prod.splits)

lemma authenticate_limited_store: "authenticate_limited lib env ctx cookie st = (r, st') \<Longrightarrow> same_store st st'"
  by (auto simp: authenticate_limited_def split: prod.splits sum.splits dest!: begin_authentication_store)

lemma error_body [simp]:
  "rs_body (api_error status code message) = ErrorBody code message"
  "rs_body (rate_error code message d) = ErrorBody code message" "rs_body (response_of status b) = b"
  by (simp_all add: api_error_def rate_error_def response_of_def)

lemma deny_with_answered:
  assumes "deny_with lib env category reason who t remote resp st = (r, st')"
    and "rs_body resp = ErrorBody code message" "(code, category, reason) \<in> set denial_codes"
  shows "answered_on_record lib env st r st'"
  using deny_with_cases [OF assms(1)] assms(2,3) by (auto simp: answered_on_record_def refused_on_record_def)

lemma denied_api_error:
  "deny_with lib env category reason who t remote (api_error status code message) st1 = (r, st') \<Longrightarrow>
   (code, category, reason) \<in> set denial_codes \<Longrightarrow> same_store st st1 \<Longrightarrow> answered_on_record lib env st r st'"
  by (rule answered_same_store, rule deny_with_answered, assumption, simp_all)

lemma denied_rate_error:
  "deny_with lib env category reason who t remote (rate_error code message d) st1 = (r, st') \<Longrightarrow>
   (code, category, reason) \<in> set denial_codes \<Longrightarrow> same_store st st1 \<Longrightarrow> answered_on_record lib env st r st'"
  by (rule answered_same_store, rule deny_with_answered, assumption, simp_all)

lemma answered_simps [simp]:
  "answered_on_record lib env st audit_unavailable_response st'"
  "rs_status resp < 400 \<Longrightarrow> answered_on_record lib env st resp st'"
  by (simp_all add: answered_on_record_def)

lemma malformed_answered:
  "resp \<in> set malformed_answers \<Longrightarrow> mg_audit (as_sessions st') = mg_audit (as_sessions st) \<Longrightarrow>
   answered_on_record lib env st resp st'"
  by (simp add: answered_on_record_def)

lemma auth_error_answered:
  "audited_auth_error_response lib env ctx e st = (resp, st') \<Longrightarrow> answered_on_record lib env st resp st'"
  by (cases e) (auto simp: audited_auth_error_response_def denial_codes_def elim!: deny_with_answered)

lemma success_unencodable:
  assumes "record_authentication_success lib env ctx who st1 = (Inr (), st')" "same_store st st1"
  shows "answered_on_record lib env st (api_error 500 ''internal-error'' ''The request could not be completed.'') st'"
proof -
  have "cookie_unencodable lib env st1 (api_error 500 ''internal-error'' ''The request could not be completed.'') st'"
    using assms(1) by (fastforce simp: record_authentication_success_def cookie_unencodable_def set_app_audit_def
      split: option.splits sum.splits prod.splits)
  then have "answered_on_record lib env st1 (api_error 500 ''internal-error'' ''The request could not be completed.'') st'"
    by (simp add: answered_on_record_def)
  then show ?thesis using assms(2) by (rule answered_same_store)
qed

text \<open>The record of two states with the same log.\<close>

definition same_log :: "app_state \<Rightarrow> app_state \<Rightarrow> bool" where
  "same_log st st' \<longleftrightarrow> mg_audit (as_sessions st) = mg_audit (as_sessions st')"

lemma begin_authentication_log:
  "begin_authentication_attempt env ctx st = (r, st') \<Longrightarrow> same_log st st'"
  by (auto simp: begin_authentication_attempt_def same_log_def split: prod.splits)

lemma authentication_log [simp]:
  "same_log st (commit_authentication a st1) = same_log st st1"
  "same_log st (rollback_authentication a st1) = same_log st st1"
  "same_log st (st1\<lparr>as_auth := p\<rparr>) = same_log st st1"
  "same_log st (st1\<lparr>as_session_requests := l\<rparr>) = same_log st st1"
  by (simp_all add: commit_authentication_def rollback_authentication_def same_log_def)

lemma authenticate_limited_log: "authenticate_limited lib env ctx cookie st = (r, st') \<Longrightarrow> same_log st st'"
  by (auto simp: authenticate_limited_def split: prod.splits sum.splits dest!: begin_authentication_log)

lemma establish_answered: "establish_identity lib env rq st = (resp, st') \<Longrightarrow> answered_on_record lib env st resp st'"
  by (auto simp: establish_identity_def Let_def denial_codes_def split: prod.splits sum.splits if_splits
    dest!: begin_authentication_store intro: answered_same_store denied_api_error success_unencodable
    dest: auth_error_answered)

lemma list_targets_answered: "list_targets lib env rq st = (resp, st') \<Longrightarrow> answered_on_record lib env st resp st'"
  by (auto simp: list_targets_def Let_def malformed_answers_def same_store_def split: prod.splits sum.splits
    dest!: authenticate_limited_store intro: answered_same_store malformed_answered dest: auth_error_answered)

lemma upgrade_answered: "upgrade_websocket lib env rq st = (resp, st') \<Longrightarrow> answered_on_record lib env st resp st'"
  by (auto simp: upgrade_websocket_def Let_def malformed_answers_def split: prod.splits sum.splits if_splits
    dest!: authenticate_limited_store intro: answered_same_store malformed_answered dest: auth_error_answered)

lemma issue_ticket_answered:
  assumes issue: "issue_ticket lib env who t remote expiry r st1 = (resp, st')"
    and same: "mg_audit (as_sessions st1) = mg_audit (as_sessions st)"
  shows "answered_on_record lib env st resp st'"
proof -
  have kept: "answered_on_record lib env st resp st'"
    if "deny_with lib env category reason who' t' remote (api_error status code message)
        (st1\<lparr>as_tickets := tickets, as_sessions := drop_reservations dropped (as_sessions st1)\<rparr>) = (resp, st')"
      "(code, category, reason) \<in> set denial_codes" for category reason who' t' status code message tickets dropped
    using deny_with_cases [OF that(1)] that(2) same
    by (fastforce simp: answered_on_record_def refused_on_record_def http_denial_recorded_def)
  from issue show ?thesis
    by (auto simp: issue_ticket_def Let_def response_of_def denial_codes_def
      split: option.splits prod.splits sum.splits ticket_error.splits intro: kept)
qed

lemma manager_reserve_audit: "manager_reserve a b who e m = (r, m') \<Longrightarrow> mg_audit m' = mg_audit m"
  by (auto simp: manager_reserve_def split: if_splits prod.splits)

lemma manager_reserve_refusal:
  "manager_reserve a b who e m = (Inl err, m') \<Longrightarrow> err \<in> {GlobalLimit, IdentityLimit, ManagerClosed, ReservationUnavailable}"
  by (auto simp: manager_reserve_def reserve_pending_def reserve_with_state_def Let_def split: if_splits prod.splits)

lemma reserve_session_answered:
  assumes "reserve_session lib env who t remote st = (resp, st')"
  shows "answered_on_record lib env st resp st'"
proof -
  obtain r m where m: "manager_reserve (fst (he_reserve_now env)) (snd (he_reserve_now env)) who
      (next_expiry (he_expiry_now env) (as_tickets st)) (as_sessions st) = (r, m)" by fastforce
  note audit = manager_reserve_audit [OF m]
  have kept: "answered_on_record lib env st resp st'"
    if "deny_with lib env category reason who' t' remote (api_error status code message) (st\<lparr>as_sessions := m\<rparr>) = (resp, st')"
      "(code, category, reason) \<in> set denial_codes" for category reason status code message who' t'
    using deny_with_cases [OF that(1)] that(2) audit
    by (fastforce simp: answered_on_record_def refused_on_record_def http_denial_recorded_def)
  show ?thesis
  proof (cases r)
    case (Inr reservation)
    with assms m audit show ?thesis
      by (auto simp: reserve_session_def Let_def dest: issue_ticket_answered [where st = st])
  next
    case (Inl e)
    have closed: "answered_on_record lib env st (api_error 503 ''session-unavailable'' ''Session capacity is unavailable.'')
        (st\<lparr>as_sessions := m\<rparr>)" if "e \<in> {ManagerClosed, ReservationUnavailable}"
      using that m Inl audit by (auto simp: answered_on_record_def manager_unavailable_def)
    from manager_reserve_refusal [OF m [unfolded Inl]] assms m Inl closed show ?thesis
      by (auto simp: reserve_session_def Let_def denial_codes_def intro: kept)
  qed
qed

lemma create_answered:
  assumes "create_session lib env rq st = (resp, st')"
  shows "answered_on_record lib env st resp st'"
proof -
  have "answered_on_record lib env st resp st'"
    if "resolve_request lib env rq who remote st1 = (resp, st')" "same_store st st1" for who remote st1
    using that by (auto simp: resolve_request_def malformed_answers_def denial_codes_def same_store_def
      split: if_splits sum.splits
      intro: malformed_answered denied_api_error answered_same_store [OF reserve_session_answered])
  with assms show ?thesis
    by (auto simp: create_session_def Let_def denial_codes_def split: prod.splits sum.splits
      dest!: authenticate_limited_store intro: answered_same_store denied_rate_error dest: auth_error_answered)
qed

text \<open>C35: Every answer to an authority request is a grant, or a refusal given only after exactly one
  successful audit record, the denial that belongs to its code, or says that the audit log is
  unavailable, or rejects the form of the request; the only others are the error for a fresh identity
  whose cookie is no header value, after the record of its authentication, and the unrecorded answer
  of a manager that is closed or whose reservation is already over.\<close>

theorem refusals_recorded:
  assumes "serve_request lib env ep rq st = (resp, st')" and "authority_handler ep \<noteq> None"
  shows "answered_on_record lib env st resp st'"
  using assms
  by (cases ep) (auto simp: serve_request_def authority_handler_def enforce_authority_origin_def origin_denied_def
    denial_codes_def split: if_splits dest: establish_answered list_targets_answered upgrade_answered create_answered
    intro: denied_api_error)

section \<open>What a grant needs\<close>

lemma deny_with_refuses:
  "deny_with lib env category reason who t remote resp st = (r, st') \<Longrightarrow> 400 \<le> rs_status resp \<Longrightarrow> 400 \<le> rs_status r"
  using deny_with_cases [of lib env category reason who t remote resp st r st'] by auto

lemma auth_error_refuses:
  "audited_auth_error_response lib env ctx e st = (r, st') \<Longrightarrow> 400 \<le> rs_status r"
  by (cases e) (auto simp: audited_auth_error_response_def dest!: deny_with_refuses)

lemma authenticate_limited_ok:
  assumes "authenticate_limited lib env ctx cookie st = (Inr who, st')"
  shows "\<exists>c. cookie = Inr c \<and> auth_authenticate (sl_config lib) ctx c (as_auth st) = Inr who"
  using assms
  by (auto simp: authenticate_limited_def begin_authentication_attempt_def split: prod.splits sum.splits)

text \<open>An authority request is granted to an identity that its cookie authenticates.\<close>

definition authenticated_as :: "server_lib \<Rightarrow> request \<Rightarrow> app_state \<Rightarrow> identity \<Rightarrow> bool" where
  "authenticated_as lib rq st who \<longleftrightarrow>
     (\<exists>c. single_cookie_header lib (rq_headers rq) = Inr c
        \<and> auth_authenticate (sl_config lib) (auth_context_of rq) c (as_auth st) = Inr who)"

lemma list_targets_granted:
  "list_targets lib env rq st = (resp, st') \<Longrightarrow> rs_status resp < 400 \<Longrightarrow> \<exists>who. authenticated_as lib rq st who"
  by (auto simp: list_targets_def Let_def authenticated_as_def split: prod.splits sum.splits
    dest!: authenticate_limited_ok auth_error_refuses)

lemma create_session_granted:
  "create_session lib env rq st = (resp, st') \<Longrightarrow> rs_status resp < 400 \<Longrightarrow> \<exists>who. authenticated_as lib rq st who"
  by (auto simp: create_session_def Let_def authenticated_as_def split: prod.splits sum.splits
    dest!: authenticate_limited_ok auth_error_refuses)

lemma upgrade_granted:
  "upgrade_websocket lib env rq st = (resp, st') \<Longrightarrow> rs_status resp < 400 \<Longrightarrow>
   \<exists>who. authenticated_as lib rq st who \<and> rs_body resp = SwitchingProtocols who (rq_peer rq)"
  by (auto simp: upgrade_websocket_def Let_def authenticated_as_def response_of_def auth_context_of_def
    split: prod.splits sum.splits if_splits dest!: authenticate_limited_ok auth_error_refuses)

definition success_recorded :: "server_lib \<Rightarrow> http_env \<Rightarrow> socket_addr option \<Rightarrow> app_state \<Rightarrow> app_state \<Rightarrow> bool" where
  "success_recorded lib env remote st st' \<longleftrightarrow>
     (\<exists>who at log log'. mg_audit (as_sessions st) = Some log \<and> mg_audit (as_sessions st') = Some log'
        \<and> record_event (lb_json (sl_audit lib)) (authentication_succeeded who remote at)
            (aa_write (he_audit env)) (aa_flush (he_audit env)) log = (Inr (), log'))"

lemma record_success_ok:
  "record_authentication_success lib env ctx who st1 = (Inr (), st') \<Longrightarrow> same_log st st1 \<Longrightarrow>
   success_recorded lib env (ac_peer_addr ctx) st st'"
  unfolding success_recorded_def record_authentication_success_def same_log_def
  by (fastforce simp: set_app_audit_def split: option.splits sum.splits prod.splits)

lemma establish_granted:
  assumes "establish_identity lib env rq st = (resp, st')" "rs_status resp < 400"
  shows "success_recorded lib env (rq_peer rq) st st'"
proof -
  have "success_recorded lib env (ac_peer_addr (auth_context_of rq)) st st'"
    using assms
    by (auto simp: establish_identity_def Let_def split: prod.splits sum.splits if_splits
      dest!: begin_authentication_log auth_error_refuses deny_with_refuses intro: record_success_ok)
  then show ?thesis by (simp add: auth_context_of_def)
qed

text \<open>C9: An authority request is granted only while the audit log works and with exactly one \<open>Origin\<close>
  header, the allowed one. An identity is granted only with its success on record; targets, tickets and
  upgrades are granted only to an identity that the single cookie header authenticates, and an
  upgraded socket belongs to that identity. Without a working audit log the answer is always the same
  and nothing changes.\<close>

theorem authority_fails_closed:
  assumes "serve_request lib env ep rq st = (resp, st')" and "authority_handler ep \<noteq> None"
  shows "(\<not> app_audit_available st \<longrightarrow> resp = audit_unavailable_response \<and> st' = st)
    \<and> (rs_status resp < 400 \<longrightarrow> app_audit_available st
        \<and> validate_header_values (sl_config lib) (as_origin st) (get_all (rq_headers rq) ''origin'') = Inr ()
        \<and> (if ep = EpIdentity then success_recorded lib env (rq_peer rq) st st'
           else \<exists>who. authenticated_as lib rq st who
             \<and> (ep = EpWebSocket \<longrightarrow> rs_body resp = SwitchingProtocols who (rq_peer rq))))"
proof -
  obtain handler where h: "authority_handler ep = Some handler" using assms(2) by blast
  have granted: "if ep = EpIdentity then success_recorded lib env (rq_peer rq) st st'
      else \<exists>who. authenticated_as lib rq st who
        \<and> (ep = EpWebSocket \<longrightarrow> rs_body resp = SwitchingProtocols who (rq_peer rq))"
    if "handler lib env rq st = (resp, st')" "rs_status resp < 400"
    using that h list_targets_granted create_session_granted upgrade_granted establish_granted
    by (cases ep) (auto simp: authority_handler_def)
  have origin: "is_ok (validate_header_values (sl_config lib) policy hs) \<longleftrightarrow>
      validate_header_values (sl_config lib) policy hs = Inr ()" for policy hs
    by (cases "validate_header_values (sl_config lib) policy hs") (simp_all add: is_ok_def)
  have "400 \<le> rs_status origin_denied" by (simp add: origin_denied_def)
  with assms(1) h granted show ?thesis
    by (auto simp: serve_request_def enforce_authority_origin_def origin split: if_splits dest: deny_with_refuses)
qed

section \<open>Session tickets\<close>

lemma authenticate_limited_frame:
  "authenticate_limited lib env ctx cookie st = (r, st') \<Longrightarrow>
   as_tickets st' = as_tickets st \<and> as_sessions st' = as_sessions st \<and> as_targets st' = as_targets st"
  by (auto simp: authenticate_limited_def begin_authentication_attempt_def commit_authentication_def
    rollback_authentication_def split: prod.splits sum.splits)

text \<open>What a refusal leaves: neither a lease nor a ticket that was not there before.\<close>

definition nothing_taken :: "app_state \<Rightarrow> app_state \<Rightarrow> bool" where
  "nothing_taken st st' \<longleftrightarrow> no_new_lease (mg_capacity (as_sessions st)) (mg_capacity (as_sessions st'))
     \<and> (\<forall>token e. hm_get (ts_entries (as_tickets st')) token = Some e \<longrightarrow>
          hm_get (ts_entries (as_tickets st)) token = Some e)"

lemma nothing_taken_refl [simp]: "nothing_taken st st"
  by (simp add: nothing_taken_def no_new_lease_def)

lemma nothing_taken_audit [simp]: "nothing_taken st (set_app_audit log st1) = nothing_taken st st1"
  by (simp add: nothing_taken_def set_app_audit_def)

lemma no_ticket_body [simp]:
  "rs_body (api_error status code message) = ErrorBody code message"
  "rs_body (rate_error code message d) = ErrorBody code message"
  "rs_body audit_unavailable_response = ErrorBody ''audit-unavailable'' ''The required audit control is unavailable.''"
  "rs_body (response_of status b) = b"
  by (simp_all add: api_error_def rate_error_def response_of_def audit_unavailable_response_def)

definition refused :: "app_state \<Rightarrow> response \<Rightarrow> app_state \<Rightarrow> bool" where
  "refused st resp st' \<longleftrightarrow> (\<exists>code message. rs_body resp = ErrorBody code message) \<and> nothing_taken st st'"

lemma deny_with_refused:
  assumes "deny_with lib env category reason who t remote resp st1 = (r, st')"
    and "nothing_taken st st1" and "rs_body resp = ErrorBody code message"
  shows "refused st r st'"
  using deny_with_cases [OF assms(1)] assms(2,3) by (auto simp: refused_def)

lemma auth_error_refused:
  "audited_auth_error_response lib env ctx e st1 = (r, st') \<Longrightarrow> nothing_taken st st1 \<Longrightarrow> refused st r st'"
  by (cases e) (auto simp: audited_auth_error_response_def intro: deny_with_refused)

lemma drop_reservations_get:
  "hm_wf (cp_leases (mg_capacity m)) \<Longrightarrow>
   hm_get (cp_leases (mg_capacity (drop_reservations rs m))) k =
     (if Reservation (Some k) \<in> set rs then None else hm_get (cp_leases (mg_capacity m)) k)"
proof (induction rs arbitrary: m)
  case (Cons r rs)
  have "hm_wf (cp_leases (mg_capacity (drop_reservation r m)))"
    using drop_reservations_capacity [OF Cons.prems, of "[r]"] by (simp add: drop_reservations_def)
  from Cons.IH [OF this] Cons.prems show ?case
    by (cases "(r, mg_capacity m)" rule: reservation_drop.cases)
      (auto simp: drop_reservations_def drop_reservation_def hm.get_del)
qed simp

lemma held_retain: "set (held (hm_retain P m)) \<subseteq> set (held m)"
  by (auto simp: held_def hm_retain_def hm_values_def)

lemma issue_at_result:
  assumes "issue_at encode gen clk now e st = (res, dropped, st')" "hm_wf (ts_entries st)"
  shows "case res of
      Inr token \<Rightarrow> hm_get (ts_entries st') token = Some e \<and> set dropped \<subseteq> set (held (ts_entries st))
    | Inl _ \<Rightarrow> tk_reservation e \<in> set dropped
        \<and> (\<forall>token x. hm_get (ts_entries st') token = Some x \<longrightarrow> hm_get (ts_entries st) token = Some x)"
proof -
  define m where "m = hm_retain (\<lambda>_ x. tk_expires_at x > now) (ts_entries st)"
  obtain r m' where a: "issue_attempts encode gen clk e 0 4 m = (r, m')" by fastforce
  have m: "hm_get m token = Some x \<Longrightarrow> hm_get (ts_entries st) token = Some x" for token x
    using assms(2) by (simp add: m_def hm.get_retain_Some)
  show ?thesis
    using assms(1) issue_attempts_result [OF a] a m held_retain
    by (fastforce simp: issue_at_def Let_def m_def [symmetric] hm.get_put split: if_splits sum.splits)
qed

lemma issue_ticket_result:
  assumes issue: "issue_ticket lib env who t remote expiry r st1 = (resp, st')"
    and r: "r = Reservation (Some k)" "r \<notin> set (held (ts_entries (as_tickets st1)))"
    and wf: "hm_wf (cp_leases (mg_capacity (as_sessions st1)))" "hm_wf (ts_entries (as_tickets st1))"
    and lease: "hm_get (cp_leases (mg_capacity (as_sessions st1))) k = Some l"
    and others: "\<And>i x. hm_get (cp_leases (mg_capacity (as_sessions st1))) i = Some x \<Longrightarrow> i \<noteq> k \<Longrightarrow>
      hm_get (cp_leases (mg_capacity (as_sessions st))) i = Some x"
    and tickets: "as_tickets st1 = as_tickets st"
  shows "refused st resp st' \<or> (\<exists>token. rs_body resp = TicketBody token (presentation_of t)
      \<and> hm_get (ts_entries (as_tickets st')) token = Some \<lparr>tk_identity = who, tk_target = t,
          tk_expires_at = expiry, tk_reservation = r\<rparr>
      \<and> hm_get (cp_leases (mg_capacity (as_sessions st'))) k = Some l)"
proof -
  have dropped: "nothing_taken st (st1\<lparr>as_sessions := drop_reservation r (as_sessions st1)\<rparr>)"
    using drop_reservations_get [OF wf(1), of "[r]"] r(1) others tickets
    by (auto simp: nothing_taken_def no_new_lease_def drop_reservations_def split: if_splits)
  show ?thesis
  proof (cases "\<exists>log. mg_audit (as_sessions st1) = Some log \<and> authority_guard log = Inr ()")
    case False
    with issue dropped show ?thesis
      by (auto simp: issue_ticket_def refused_def split: option.splits sum.splits)
  next
    case True
    obtain issued gone tks where i: "issue_at (sl_token lib) (\<lambda>i. os_generate (he_ticket_fill env i)) (he_ticket_clk env)
        (he_issue_now env) \<lparr>tk_identity = who, tk_target = t, tk_expires_at = expiry, tk_reservation = r\<rparr>
        (as_tickets st1) = (issued, gone, tks)"
      by (metis prod_cases3)
    note result = issue_at_result [OF i wf(2)]
    let ?st = "st1\<lparr>as_tickets := tks, as_sessions := drop_reservations gone (as_sessions st1)\<rparr>"
    show ?thesis
    proof (cases issued)
      case (Inl e)
      with result r(1) others tickets have "nothing_taken st ?st"
        by (auto simp: nothing_taken_def no_new_lease_def drop_reservations_get [OF wf(1)] split: if_splits)
      with issue True i Inl show ?thesis
        by (cases e) (auto simp: issue_ticket_def Let_def intro: deny_with_refused)
    next
      case (Inr token)
      with result r lease have "hm_get (cp_leases (mg_capacity (as_sessions ?st))) k = Some l"
        by (auto simp: drop_reservations_get [OF wf(1)])
      moreover from issue True i Inr have "resp = response_of 201 (TicketBody token (presentation_of t))" "st' = ?st"
        by (auto simp: issue_ticket_def Let_def)
      ultimately show ?thesis using result Inr by (intro disjI2 exI [of _ token]) simp
    qed
  qed
qed

lemma manager_reserve_result:
  assumes "manager_reserve now1 now2 who expiry m = (res, m')" "hm_wf (cp_leases (mg_capacity m))"
  shows "case res of
      Inr r \<Rightarrow> r = Reservation (Some (cp_next_id (mg_capacity m)))
        \<and> hm_get (cp_leases (mg_capacity m')) (cp_next_id (mg_capacity m))
            = Some \<lparr>ls_identity = who, ls_state = Pending expiry\<rparr>
        \<and> hm_wf (cp_leases (mg_capacity m'))
        \<and> (\<forall>i x. hm_get (cp_leases (mg_capacity m')) i = Some x \<longrightarrow> i \<noteq> cp_next_id (mg_capacity m) \<longrightarrow>
             hm_get (cp_leases (mg_capacity m)) i = Some x)
    | Inl _ \<Rightarrow> no_new_lease (mg_capacity m) (mg_capacity m')"
proof -
  have purged: "hm_wf (cp_leases (purge_expired_leases now2 (mg_capacity m)))"
    "cp_next_id (purge_expired_leases now2 (mg_capacity m)) = cp_next_id (mg_capacity m)"
    using assms(2) by (simp_all add: purge_expired_leases_def hm.wf_retain)
  note sub = purge_subset [OF assms(2), of now2, unfolded no_new_lease_def]
  show ?thesis
    using assms(1) purged sub
    by (auto simp: manager_reserve_def reserve_pending_def reserve_with_state_def Let_def no_new_lease_def
      hm.wf_put hm.get_put split: if_splits)
qed

lemma reserve_session_result:
  assumes serve: "reserve_session lib env who t remote st = (resp, st')"
    and wf: "hm_wf (cp_leases (mg_capacity (as_sessions st)))" "hm_wf (ts_entries (as_tickets st))"
    and fresh: "Reservation (Some (cp_next_id (mg_capacity (as_sessions st)))) \<notin> set (held (ts_entries (as_tickets st)))"
  shows "refused st resp st' \<or> (\<exists>token k. rs_body resp = TicketBody token (presentation_of t)
      \<and> hm_get (ts_entries (as_tickets st')) token = Some \<lparr>tk_identity = who, tk_target = t,
          tk_expires_at = next_expiry (he_expiry_now env) (as_tickets st), tk_reservation = Reservation (Some k)\<rparr>
      \<and> hm_get (cp_leases (mg_capacity (as_sessions st'))) k = Some \<lparr>ls_identity = who,
          ls_state = Pending (next_expiry (he_expiry_now env) (as_tickets st))\<rparr>)"
proof -
  obtain res m where m: "manager_reserve (fst (he_reserve_now env)) (snd (he_reserve_now env)) who
      (next_expiry (he_expiry_now env) (as_tickets st)) (as_sessions st) = (res, m)" by fastforce
  note result = manager_reserve_result [OF m wf(1)]
  show ?thesis
  proof (cases res)
    case (Inl e)
    with result have "nothing_taken st (st\<lparr>as_sessions := m\<rparr>)" by (simp add: nothing_taken_def)
    with serve m Inl show ?thesis
      by (cases e) (auto simp: reserve_session_def Let_def refused_def [of _ "api_error _ _ _"] intro: deny_with_refused)
  next
    case (Inr r)
    let ?st = "st\<lparr>as_sessions := m\<rparr>"
    from serve m Inr have "issue_ticket lib env who t remote (next_expiry (he_expiry_now env) (as_tickets st)) r ?st
        = (resp, st')" by (simp add: reserve_session_def Let_def)
    from issue_ticket_result [OF this, of "cp_next_id (mg_capacity (as_sessions st))" _ st] result Inr wf fresh
    show ?thesis by auto
  qed
qed

definition same_stock :: "app_state \<Rightarrow> app_state \<Rightarrow> bool" where
  "same_stock st st' \<longleftrightarrow> as_tickets st' = as_tickets st \<and> as_sessions st' = as_sessions st \<and> as_targets st' = as_targets st"

lemma same_stock_taken: "same_stock st st1 \<Longrightarrow> nothing_taken st st1"
  by (simp add: same_stock_def nothing_taken_def no_new_lease_def)

lemma create_session_cases:
  assumes "create_session lib env rq st = (resp, st')"
  shows "refused st resp st' \<or> (\<exists>who st1. authenticated_as lib rq st who \<and> same_stock st st1
    \<and> resolve_request lib env rq who (rq_peer rq) st1 = (resp, st'))"
proof -
  obtain res st1 where auth: "authenticate_limited lib env (auth_context_of rq)
      (single_cookie_header lib (rq_headers rq)) st = (res, st1)" by fastforce
  then have st1: "same_stock st st1" by (auto simp: same_stock_def dest: authenticate_limited_frame)
  show ?thesis
  proof (cases res)
    case (Inl e)
    with assms auth auth_error_refused same_stock_taken [OF st1] show ?thesis
      by (auto simp: create_session_def Let_def)
  next
    case (Inr who)
    obtain r l where l: "limiter_begin (as_session_requests st1) (he_session_now env) who = (r, l)" by fastforce
    have stock: "same_stock st (st1\<lparr>as_session_requests := x\<rparr>)" for x
      using st1 by (simp add: same_stock_def)
    from auth Inr have who: "authenticated_as lib rq st who"
      by (auto simp: authenticated_as_def dest: authenticate_limited_ok)
    show ?thesis
    proof (cases r)
      case (Inl e)
      with assms auth Inr l have "deny_with lib env CatRateLimit DenySessionRateLimited (Some who) None (rq_peer rq)
          (rate_error ''session-rate-limited'' ''Session requests are temporarily limited.'' (retry_after e))
          (st1\<lparr>as_session_requests := l\<rparr>) = (resp, st')"
        by (simp add: create_session_def Let_def auth_context_of_def)
      from deny_with_refused [OF this same_stock_taken [OF stock]] show ?thesis by simp
    next
      case ok: (Inr attempt)
      with assms auth Inr l have "resolve_request lib env rq who (rq_peer rq)
          (st1\<lparr>as_session_requests := attempt_commit l attempt\<rparr>) = (resp, st')"
        by (simp add: create_session_def Let_def auth_context_of_def)
      with who stock show ?thesis by blast
    qed
  qed
qed

lemma resolve_request_cases:
  assumes "resolve_request lib env rq who remote st1 = (resp, st')" "same_stock st st1"
  shows "refused st resp st' \<or> (\<exists>b name t. rq_body rq = Some b \<and> length b \<le> 1024 \<and> sl_create lib b = Inr name
    \<and> allowlist_resolve (as_targets st) name = Inr t \<and> reserve_session lib env who t remote st1 = (resp, st'))"
proof -
  have err: "refused st (api_error n c d) st1" for n c d
    using same_stock_taken [OF assms(2)] by (simp add: refused_def)
  have deny: "deny_with lib env c d w t remote (api_error n code m) st1 = (resp, st') \<Longrightarrow> refused st resp st'"
    for c d w t n code m
    by (rule deny_with_refused [OF _ same_stock_taken [OF assms(2)] no_ticket_body(1)])
  have targets: "as_targets st1 = as_targets st" using assms(2) by (simp add: same_stock_def)
  show ?thesis
    using assms(1) err
    by (auto simp: resolve_request_def to_bytes_def MAX_SESSION_BODY_def targets dest: deny
      split: if_splits option.splits sum.splits)
qed

lemma enforced_cases:
  assumes "enforce_authority_origin lib env rq handler st = (resp, st')"
  shows "refused st resp st' \<or> handler st = (resp, st')"
proof -
  have deny: "deny_with lib env c d w t remote origin_denied st = (resp, st') \<Longrightarrow> refused st resp st'" for c d w t remote
    unfolding origin_denied_def by (rule deny_with_refused [OF _ nothing_taken_refl no_ticket_body(1)])
  have "refused st audit_unavailable_response st" by (simp add: refused_def)
  with assms show ?thesis
    by (auto simp: enforce_authority_origin_def dest: deny split: if_splits)
qed

text \<open>C16: A session request is answered with a ticket only for an identity its cookie authenticates, a
  JSON body of at most 1024 bytes that names an allowed target, and a free place: the ticket is then
  stored for exactly that identity and target, and its reservation is a place taken for the identity
  until the ticket's own deadline. Every other answer is an error that leaves no place and no ticket
  that was not there before, the ones where the audit log fails half-way included.\<close>

theorem session_request_exact:
  assumes wf: "hm_wf (cp_leases (mg_capacity (as_sessions st)))" "hm_wf (ts_entries (as_tickets st))"
    and fresh: "Reservation (Some (cp_next_id (mg_capacity (as_sessions st)))) \<notin> set (held (ts_entries (as_tickets st)))"
    and serve: "serve_request lib env EpSessions rq st = (resp, st')"
  shows "case rs_body resp of
      TicketBody token pres \<Rightarrow>
        (\<exists>who t k b name. authenticated_as lib rq st who \<and> rq_body rq = Some b \<and> length b \<le> 1024
          \<and> sl_create lib b = Inr name \<and> allowlist_resolve (as_targets st) name = Inr t \<and> pres = presentation_of t
          \<and> hm_get (ts_entries (as_tickets st')) token = Some \<lparr>tk_identity = who, tk_target = t,
              tk_expires_at = next_expiry (he_expiry_now env) (as_tickets st), tk_reservation = Reservation (Some k)\<rparr>
          \<and> hm_get (cp_leases (mg_capacity (as_sessions st'))) k = Some \<lparr>ls_identity = who,
              ls_state = Pending (next_expiry (he_expiry_now env) (as_tickets st))\<rparr>)
    | _ \<Rightarrow> (\<exists>code message. rs_body resp = ErrorBody code message) \<and> nothing_taken st st'"
proof (cases "refused st resp st'")
  case True
  then show ?thesis by (auto simp: refused_def)
next
  case False
  from serve have "enforce_authority_origin lib env rq (create_session lib env rq) st = (resp, st')"
    by (simp add: serve_request_def authority_handler_def)
  from enforced_cases [OF this] False have "create_session lib env rq st = (resp, st')" by simp
  from create_session_cases [OF this] False obtain who st1 where
    who: "authenticated_as lib rq st who" and st1: "same_stock st st1"
    and request: "resolve_request lib env rq who (rq_peer rq) st1 = (resp, st')" by blast
  from resolve_request_cases [OF request st1] False obtain b name t where
    body: "rq_body rq = Some b" "length b \<le> 1024" "sl_create lib b = Inr name"
      "allowlist_resolve (as_targets st) name = Inr t"
    and reserved: "reserve_session lib env who t (rq_peer rq) st1 = (resp, st')" by blast
  from st1 have stock: "as_tickets st1 = as_tickets st" "as_sessions st1 = as_sessions st"
    by (simp_all add: same_stock_def)
  have "\<not> refused st1 resp st'" using False stock by (simp add: refused_def nothing_taken_def)
  with reserve_session_result [OF reserved] wf fresh stock who body show ?thesis by auto
qed

text \<open>A session request that meets a closed manager is refused without a record, unlike every other
  refusal for lack of a place.\<close>

lemma closed_manager_unrecorded:
  assumes "rg_shutting_down (mg_registry (as_sessions st))"
  shows "reserve_session lib env who t remote st
    = (api_error 503 ''session-unavailable'' ''Session capacity is unavailable.'', st)"
  using assms by (simp add: reserve_session_def manager_reserve_def Let_def)

section \<open>The wait that is told\<close>

lemma seconds_of_wait:
  assumes "d < 2 ^ 64 * 1000000000"
  shows "unat (of_nat (d div 1000000000) :: u64) = d div 1000000000"
proof -
  have "d div 1000000000 < 2 ^ 64" using assms by (simp add: less_mult_imp_div_less)
  then show ?thesis by (simp add: unat_of_nat take_bit_nat_eq_self)
qed

text \<open>A limited client is told a positive number of seconds, the least whole number that covers the
  wait of the limiter; only a wait beyond the range of the counter, of more than 2^64 - 1 seconds, is
  told as that.\<close>

theorem retry_after_covers:
  assumes "d < 2 ^ 64 * 1000000000" and "rs_retry_after (rate_error code message d) = Some s"
  shows "1 \<le> unat s \<and> (d \<le> unat s * 1000000000 \<or> unat s = 2 ^ 64 - 1)
    \<and> (0 < d \<longrightarrow> (unat s - 1) * 1000000000 < d)"
proof -
  define q where "q = d div 1000000000"
  have q: "unat (of_nat q :: u64) = q" "q < 2 ^ 64"
    using assms(1) seconds_of_wait by (simp_all add: q_def less_mult_imp_div_less)
  define r where "r = d mod 1000000000"
  have d: "d = q * 1000000000 + r" "r < 1000000000"
    by (simp_all add: q_def r_def)
  let ?add = "u64_saturating_add (of_nat q) (if r > 0 then 1 else 0)"
  have s: "s = max 1 ?add"
    using assms(2) by (simp add: rate_error_def Let_def q_def r_def)
  show ?thesis
  proof (cases "r = 0")
    case True
    then have "?add = of_nat q" by (simp add: u64_saturating_add_def)
    then have "unat s = max 1 q" using s q(1) by (simp add: max_def word_le_nat_alt)
    with d True show ?thesis by (auto simp: max_def)
  next
    case rest: False
    show ?thesis
    proof (cases "q = 2 ^ 64 - 1")
      case True
      moreover have max: "unat (- 1 :: u64) = 2 ^ 64 - 1" by (simp add: unsigned_minus_1_eq_mask mask_eq_exp_minus_1)
      ultimately have "(of_nat q :: u64) = - 1" using q(1) by (intro word_unat_eq_iff [THEN iffD2]) simp
      then have "?add = - 1" using rest by (simp add: u64_saturating_add_def word_less_nat_alt max)
      then have "unat s = 2 ^ 64 - 1" using s max by (simp add: max_def)
      with True d rest show ?thesis by simp
    next
      case False
      then have "unat (of_nat q + 1 :: u64) = q + 1"
        using q by (simp add: unat_word_ariths take_bit_nat_eq_self flip: of_nat_Suc)
      then have "\<not> (of_nat q + 1 :: u64) < of_nat q" using q(1) by (simp add: word_less_nat_alt)
      then have "?add = of_nat q + 1" using rest by (simp add: u64_saturating_add_def)
      then have "unat s = q + 1"
        using s \<open>unat (of_nat q + 1 :: u64) = q + 1\<close> by (simp add: max_def word_le_nat_alt)
      moreover have "d \<le> (q + 1) * 1000000000" using d by simp
      moreover have "q * 1000000000 < d" using d(1) rest by simp
      ultimately show ?thesis by simp
    qed
  qed
qed

theorem retry_after_covers_witness:
  "\<exists>s. rs_retry_after (rate_error ''c'' ''m'' 1500000000) = Some s \<and> (1500000000 \<le> unat s * 1000000000 \<or> unat s = 2 ^ 64 - 1)"
proof -
  obtain s where "rs_retry_after (rate_error ''c'' ''m'' 1500000000) = Some s"
    by (simp add: rate_error_def Let_def)
  with retry_after_covers [OF _ this] show ?thesis by auto
qed

section \<open>Witnesses\<close>

definition demo_server_lib :: server_lib where
  "demo_server_lib = \<lparr>sl_config = demo_config_lib, sl_audit = demo_libs, sl_token = (\<lambda>_. demo_token),
     sl_to_str = Some, sl_header_value = (\<lambda>_. True), sl_create = (\<lambda>_. Inr ''pty'')\<rparr>"

definition demo_http_env :: http_env where
  "demo_http_env = \<lparr>he_auth_now = 5, he_session_now = 5, he_audit = demo_answers,
     he_establish_fill = (\<lambda>_. Inr []), he_establish_clk = (\<lambda>_. 5), he_expiry_now = 5,
     he_reserve_now = (5, 6), he_issue_now = 7, he_ticket_fill = (\<lambda>_. Inr []), he_ticket_clk = (\<lambda>_. 8)\<rparr>"

definition demo_app :: app_state where
  "demo_app = \<lparr>as_origin = TupleOrigin ''http'' ''localhost'' 80,
     as_auth = DevAuthProvider (Identity ''alice'') demo_sessions, as_targets = demo_allowlist,
     as_tickets = ticket_store_new 10 2, as_sessions = demo_manager\<lparr>mg_audit := Some demo_audit_log\<rparr>,
     as_authentication_failures = new_limiter 1 10 2, as_session_requests = new_limiter 1 10 2, as_prepared = []\<rparr>"

definition demo_request :: "bytes \<Rightarrow> request" where
  "demo_request origin = \<lparr>rq_headers = [(''origin'', origin), (''cookie'', SESSION_COOKIE_NAME @ ''='' @ demo_token),
     (''content-type'', ''application/json'')], rq_peer = None, rq_query = None, rq_upgrade = False, rq_body = Some ''b''\<rparr>"

lemma demo_headers:
  "get_all (rq_headers (demo_request origin)) ''origin'' = [origin]"
  "single_cookie_header demo_server_lib (rq_headers (demo_request origin))
     = Inr (Some (SESSION_COOKIE_NAME @ ''='' @ demo_token))"
  "get_all (rq_headers (demo_request origin)) ''content-type'' = [''application/json'']"
  by (simp_all add: demo_request_def get_all_def single_cookie_header_def demo_server_lib_def
    del: map_ok_eq_Inr)

lemma demo_origin:
  "validate_header_values demo_config_lib (as_origin demo_app) [''http://localhost/''] = Inr ()"
  "validate_header_values demo_config_lib (as_origin demo_app) [''http://other/''] = Inl OriginMalformed"
  by (simp_all add: validate_header_values_def origin_validate_def parse_origin_def demo_config_lib_def
    demo_url_def demo_app_def is_ascii_is_str is_ascii_def del: and_then_eq_Inr)

lemma demo_authenticated:
  "\<exists>st1. authenticate_limited demo_server_lib demo_http_env (auth_context_of (demo_request origin))
     (single_cookie_header demo_server_lib (rq_headers (demo_request origin))) demo_app = (Inr (Identity ''alice''), st1)
     \<and> same_stock demo_app st1 \<and> as_session_requests st1 = new_limiter 1 10 2"
proof -
  have "authenticate_session demo_sessions (Some (SESSION_COOKIE_NAME @ ''='' @ demo_token)) = Inr (Identity ''alice'')"
    using cookie_pair_authenticates [of demo_token demo_sessions] demo_token_shape
    by (simp add: token_shape_def demo_sessions_def hm_get_def)
  then have auth: "auth_authenticate (sl_config demo_server_lib) ctx (Some (SESSION_COOKIE_NAME @ ''='' @ demo_token))
      (as_auth demo_app) = Inr (Identity ''alice'')" for ctx
    by (simp add: demo_app_def auth_authenticate_def)
  have parts: "ac_peer_addr (auth_context_of (demo_request origin)) = None" "he_auth_now demo_http_env = 5"
    "as_authentication_failures demo_app = new_limiter 1 10 2" "as_session_requests demo_app = new_limiter 1 10 2"
    by (simp_all add: auth_context_of_def demo_request_def demo_http_env_def demo_app_def)
  obtain a l where "limiter_begin (new_limiter 1 10 2 :: peer_key limiter) 5 PeerMissing = (Inr a, l)"
    by (simp add: limiter_defs new_limiter_def hm_get_def hm_len_def Let_def)
  with auth show ?thesis
    by (simp add: authenticate_limited_def begin_authentication_attempt_def demo_headers parts same_stock_def
      rollback_authentication_def)
qed

lemma demo_ticket_from_store:
  assumes "as_tickets st = ticket_store_new 10 2" "mg_audit (as_sessions st) = Some demo_audit_log"
  shows "\<exists>st'. issue_ticket demo_server_lib demo_http_env who t None 15 r st
      = (response_of 201 (TicketBody demo_token (presentation_of t)), st')"
proof -
  have env: "he_issue_now demo_http_env = 7" "he_ticket_fill demo_http_env i = Inr []" "he_ticket_clk demo_http_env i = 8"
    "sl_token demo_server_lib b = demo_token" for i b
    by (simp_all add: demo_http_env_def demo_server_lib_def)
  have "issue_attempts enc (\<lambda>i. os_generate (he_ticket_fill demo_http_env i)) (he_ticket_clk demo_http_env)
      e 0 (Suc k) [] = (Inr (enc []), [(enc [], e)])" if "tk_expires_at e = 15" for e enc k
    using that by (simp add: env os_generate_def hm_get_def hm_insert_def Let_def)
  from this [of "\<lparr>tk_identity = who, tk_target = t, tk_expires_at = 15, tk_reservation = r\<rparr>"
    "sl_token demo_server_lib" 3] assms
  show ?thesis
    by (simp add: issue_ticket_def authority_guard_def from_writer_def issue_at_def env
      ticket_store_new_def hm_retain_def held_def hm_values_def hm_len_def Let_def)
qed

lemma demo_ticket_issued:
  "\<exists>resp st'. serve_request demo_server_lib demo_http_env EpSessions (demo_request ''http://localhost/'') demo_app = (resp, st')
     \<and> rs_status resp = 201 \<and> rs_body resp = TicketBody demo_token (presentation_of (PtyTarget demo_pty))"
proof -
  let ?rq = "demo_request ''http://localhost/''" and ?who = "Identity ''alice''" and ?t = "PtyTarget demo_pty"
  obtain st1 where st1: "authenticate_limited demo_server_lib demo_http_env (auth_context_of ?rq)
      (single_cookie_header demo_server_lib (rq_headers ?rq)) demo_app = (Inr ?who, st1)"
    "same_stock demo_app st1" "as_session_requests st1 = new_limiter 1 10 2"
    using demo_authenticated by blast
  obtain a l where l: "limiter_begin (new_limiter 1 10 2) 5 ?who = (Inr a, l)"
    by (simp add: limiter_defs new_limiter_def hm_get_def hm_len_def Let_def)
  define st2 where "st2 = st1\<lparr>as_session_requests := l\<rparr>"
  have parts: "as_tickets st2 = ticket_store_new 10 2" "as_targets st2 = demo_allowlist"
    "as_sessions st2 = demo_manager\<lparr>mg_audit := Some demo_audit_log\<rparr>"
    using st1(2) by (simp_all add: st2_def same_stock_def demo_app_def)
  obtain m where m: "manager_reserve 5 6 ?who 15 (as_sessions st2) = (Inr (Reservation (Some 0)), m)"
      "mg_audit m = Some demo_audit_log"
    by (simp add: parts manager_reserve_def demo_manager_simps registry_new_def reserve_pending_def
      reserve_with_state_def Let_def purge_expired_leases_def hm_retain_def hm_len_def lease_count_def hm_values_def)
  have env: "he_reserve_now demo_http_env = (5, 6)" "he_expiry_now demo_http_env = 5" "he_session_now demo_http_env = 5"
    by (simp_all add: demo_http_env_def)
  have expiry: "next_expiry 5 (ticket_store_new 10 2) = 15"
    by (simp add: next_expiry_def ticket_store_new_def)
  have "\<exists>st'. issue_ticket demo_server_lib demo_http_env ?who ?t None 15 (Reservation (Some 0)) (st2\<lparr>as_sessions := m\<rparr>)
      = (response_of 201 (TicketBody demo_token (presentation_of ?t)), st')"
    by (rule demo_ticket_from_store) (simp_all add: m(2) parts)
  then obtain st' where issued: "reserve_session demo_server_lib demo_http_env ?who ?t None st2
      = (response_of 201 (TicketBody demo_token (presentation_of ?t)), st')"
    using m(1) by (auto simp: reserve_session_def env parts(1) expiry Let_def)
  have "is_json_request demo_server_lib ?rq"
    by (simp add: is_json_request_def demo_headers)
      (simp add: demo_server_lib_def eq_ignore_ascii_case_def trim_id is_ascii_def is_whitespace_def)
  moreover have "to_bytes ?rq MAX_SESSION_BODY = Inr ''b''" "rq_peer ?rq = None"
    by (simp_all add: to_bytes_def demo_request_def MAX_SESSION_BODY_def)
  moreover have "allowlist_resolve demo_allowlist ''pty'' = Inr ?t" "sl_create demo_server_lib b = Inr ''pty''" for b
    by (simp_all add: allowlist_resolve_def demo_allowlist_def hm_get_def demo_server_lib_def)
  ultimately have "resolve_request demo_server_lib demo_http_env ?rq ?who None st2
      = (response_of 201 (TicketBody demo_token (presentation_of ?t)), st')"
    using issued by (simp add: resolve_request_def parts)
  moreover have "ac_peer_addr (auth_context_of ?rq) = None" by (simp add: auth_context_of_def demo_request_def)
  ultimately have "create_session demo_server_lib demo_http_env ?rq demo_app
      = (response_of 201 (TicketBody demo_token (presentation_of ?t)), st')"
    using st1(1,3) l by (simp add: create_session_def Let_def env st2_def)
  moreover have "app_audit_available demo_app" "sl_config demo_server_lib = demo_config_lib"
    by (simp_all add: app_audit_available_def demo_app_def is_available_def from_writer_def demo_server_lib_def)
  ultimately show ?thesis
    by (simp add: serve_request_def authority_handler_def enforce_authority_origin_def demo_headers demo_origin is_ok_def)
qed

theorem session_request_exact_witness:
  "\<exists>who t k. authenticated_as demo_server_lib (demo_request ''http://localhost/'') demo_app who
     \<and> presentation_of (PtyTarget demo_pty) = presentation_of t \<and> k = (0 :: u64)"
proof -
  from demo_ticket_issued obtain resp st' where s: "serve_request demo_server_lib demo_http_env EpSessions
      (demo_request ''http://localhost/'') demo_app = (resp, st')"
    "rs_body resp = TicketBody demo_token (presentation_of (PtyTarget demo_pty))" by blast
  have "hm_wf (cp_leases (mg_capacity (as_sessions demo_app)))" "hm_wf (ts_entries (as_tickets demo_app))"
    "Reservation (Some (cp_next_id (mg_capacity (as_sessions demo_app)))) \<notin> set (held (ts_entries (as_tickets demo_app)))"
    by (simp_all add: demo_app_def demo_manager_simps hm_wf_def ticket_store_new_def held_def hm_values_def)
  from session_request_exact [OF this s(1)] s(2) show ?thesis by auto
qed

theorem authority_fails_closed_witness:
  "app_audit_available demo_app \<and> (\<exists>who. authenticated_as demo_server_lib (demo_request ''http://localhost/'') demo_app who)"
proof -
  from demo_ticket_issued obtain resp st' where s: "serve_request demo_server_lib demo_http_env EpSessions
      (demo_request ''http://localhost/'') demo_app = (resp, st')" "rs_status resp = 201" by blast
  have "authority_handler EpSessions \<noteq> None" by (simp add: authority_handler_def)
  from authority_fails_closed [OF s(1) this] s(2) show ?thesis by auto
qed

theorem refusals_recorded_witness:
  "\<exists>st'. serve_request demo_server_lib demo_http_env EpTargets (demo_request ''http://other/'') demo_app = (origin_denied, st')
     \<and> http_denial_recorded demo_server_lib demo_http_env CatOrigin DenyOriginDenied demo_app st'"
proof -
  have "\<exists>log'. deny_access demo_libs demo_answers CatOrigin DenyOriginDenied None None None demo_audit_log = (Inr (), log')"
    using demo_record by (simp add: deny_access_def correlation_id_generate_def from_system_time_def demo_libs_def
      demo_answers_def)
  moreover have "app_audit_available demo_app" "mg_audit (as_sessions demo_app) = Some demo_audit_log"
    by (simp_all add: app_audit_available_def demo_app_def is_available_def from_writer_def)
  moreover have "sl_config demo_server_lib = demo_config_lib" "sl_audit demo_server_lib = demo_libs"
    "he_audit demo_http_env = demo_answers" "rq_peer (demo_request ''http://other/'') = None"
    by (simp_all add: demo_server_lib_def demo_http_env_def demo_request_def)
  ultimately have "\<exists>st'. serve_request demo_server_lib demo_http_env EpTargets (demo_request ''http://other/'') demo_app
      = (origin_denied, st')"
    by (auto simp: serve_request_def authority_handler_def enforce_authority_origin_def demo_headers demo_origin
      is_ok_def deny_with_def audit_denial_def auth_context_of_def)
  then obtain st' where s: "serve_request demo_server_lib demo_http_env EpTargets (demo_request ''http://other/'') demo_app
      = (origin_denied, st')" by blast
  have "authority_handler EpTargets \<noteq> None" by (simp add: authority_handler_def)
  from refusals_recorded [OF s this] have "http_denial_recorded demo_server_lib demo_http_env CatOrigin DenyOriginDenied demo_app st'"
    by (auto simp: answered_on_record_def refused_on_record_def origin_denied_def malformed_answers_def denial_codes_def
      audit_unavailable_response_def cookie_unencodable_def manager_unavailable_def api_error_def response_of_def)
  with s show ?thesis by blast
qed

end
