(* ===== verification/Application.thy ===== *)
theory Application
  imports Ledger Server_Safety Websocket_Safety
begin

text \<open>
  The running application: requests, upgrades and sessions that interleave over the state they share.
  A task holds what its local variables hold between two of its critical sections: a session request
  the identity it was admitted for while it waits for its body, then the reservation it has not yet put
  into a ticket (\<open>create_session\<close> in \<open>server.rs\<close>), an upgrade the grant of the ticket it redeemed
  and later the refusal of its connection (\<open>accept_upgrade\<close> in \<open>websocket.rs\<close>), a supervisor its connection
  or session (\<open>session.rs\<close>). The handlers
  are cut at these points, and the pieces composed again are the handlers. One step of the application
  is one piece of one task: of a request, an upgrade, or a session; the ghost fields are the list of the
  session requests that ever took a place, and the list of the end records that could not be made.
\<close>

section \<open>The handlers in pieces\<close>

definition answer :: "response \<times> app_state \<Rightarrow> (response + 'a) \<times> app_state" where
  "answer ra = (case ra of (resp, st) \<Rightarrow> (Inl resp, st))"

text \<open>The layer before an authority handler: an answer, or on to the handler.\<close>

definition authority_check ::
  "server_lib \<Rightarrow> http_env \<Rightarrow> request \<Rightarrow> app_state \<Rightarrow> (response + unit) \<times> app_state" where
  "authority_check lib env rq st =
     (if \<not> app_audit_available st then (Inl audit_unavailable_response, st)
      else if \<not> is_ok (validate_header_values (sl_config lib) (as_origin st) (get_all (rq_headers rq) ''origin'')) then
        answer (deny_with lib env CatOrigin DenyOriginDenied None None (ac_peer_addr (auth_context_of rq)) origin_denied st)
      else (Inr (), st))"

text \<open>\<open>create_session\<close> up to its reservation: who asks for which target, with the deadline of the
  ticket to be and the place it has.\<close>

type_synonym taken_place = "identity \<times> target \<times> instant \<times> reservation"

definition reserve_piece ::
  "server_lib \<Rightarrow> http_env \<Rightarrow> identity \<Rightarrow> target \<Rightarrow> socket_addr option \<Rightarrow> app_state \<Rightarrow>
   (response + taken_place) \<times> app_state" where
  "reserve_piece lib env who t remote st =
     (let expiry = next_expiry (he_expiry_now env) (as_tickets st) in
      case manager_reserve (fst (he_reserve_now env)) (snd (he_reserve_now env)) who expiry (as_sessions st) of
        (r, m) \<Rightarrow>
          (let st' = st\<lparr>as_sessions := m\<rparr> in
           case r of
             Inr reservation \<Rightarrow> (Inr (who, t, expiry, reservation), st')
           | Inl GlobalLimit \<Rightarrow>
               answer (deny_with lib env CatCapacity DenyGlobalSessionLimit (Some who) (Some t) remote
                 (api_error 503 ''global-session-limit'' ''Global session capacity is unavailable.'') st')
           | Inl IdentityLimit \<Rightarrow>
               answer (deny_with lib env CatCapacity DenyIdentitySessionLimit (Some who) (Some t) remote
                 (api_error 503 ''identity-session-limit'' ''Identity session capacity is unavailable.'') st')
           | Inl _ \<Rightarrow> (Inl (api_error 503 ''session-unavailable'' ''Session capacity is unavailable.''), st')))"

definition resolve_piece ::
  "server_lib \<Rightarrow> http_env \<Rightarrow> request \<Rightarrow> identity \<Rightarrow> socket_addr option \<Rightarrow> app_state \<Rightarrow>
   (response + taken_place) \<times> app_state" where
  "resolve_piece lib env rq who remote st =
     (if \<not> is_json_request lib rq then
        (Inl (api_error 415 ''unsupported-media-type'' ''The request body must be JSON.''), st)
      else (case to_bytes rq MAX_SESSION_BODY of
          Inl _ \<Rightarrow> (Inl (api_error 413 ''request-too-large'' ''The request body is too large.''), st)
        | Inr b \<Rightarrow>
            (case sl_create lib b of
               Inl _ \<Rightarrow> (Inl (api_error 400 ''invalid-request'' ''The request body is invalid.''), st)
             | Inr name \<Rightarrow>
                 if length name > 128 then
                   (Inl (api_error 400 ''invalid-request'' ''The request body is invalid.''), st)
                 else (case allowlist_resolve (as_targets st) name of
                     Inl _ \<Rightarrow>
                       answer (deny_with lib env CatTarget DenyTargetNotFound (Some who) None remote
                         (api_error 404 ''target-not-found'' ''The requested target is not available.'') st)
                   | Inr t \<Rightarrow> reserve_piece lib env who t remote st))))"

text \<open>\<open>create_session\<close> up to the body it waits for: who may ask.\<close>

definition admit_piece ::
  "server_lib \<Rightarrow> http_env \<Rightarrow> request \<Rightarrow> app_state \<Rightarrow> (response + identity) \<times> app_state" where
  "admit_piece lib env rq st0 =
     (let ctx = auth_context_of rq; remote = ac_peer_addr ctx in
      case authenticate_limited lib env ctx (single_cookie_header lib (rq_headers rq)) st0 of
        (Inl e, st) \<Rightarrow> answer (audited_auth_error_response lib env ctx e st)
      | (Inr who, st) \<Rightarrow>
          (case limiter_begin (as_session_requests st) (he_session_now env) who of
             (Inl e, l) \<Rightarrow>
               answer (deny_with lib env CatRateLimit DenySessionRateLimited (Some who) None remote
                 (rate_error ''session-rate-limited'' ''Session requests are temporarily limited.'' (retry_after e))
                 (st\<lparr>as_session_requests := l\<rparr>))
           | (Inr attempt, l) \<Rightarrow> (Inr who, st\<lparr>as_session_requests := attempt_commit l attempt\<rparr>)))"

definition session_request_piece ::
  "server_lib \<Rightarrow> http_env \<Rightarrow> request \<Rightarrow> app_state \<Rightarrow> (response + identity) \<times> app_state" where
  "session_request_piece lib env rq st =
     (case authority_check lib env rq st of
        (Inl resp, st') \<Rightarrow> (Inl resp, st')
      | (Inr _, st') \<Rightarrow> admit_piece lib env rq st')"

text \<open>The upgrade up to its redeemed ticket.\<close>

definition redeem_piece ::
  "(bytes \<Rightarrow> unit + string) \<Rightarrow> audit_libs \<Rightarrow> accept_env \<Rightarrow> identity \<Rightarrow> socket_addr option \<Rightarrow>
   ticket_store \<Rightarrow> session_manager \<Rightarrow> (accept_result + ticket_grant) \<times> ticket_store \<times> session_manager" where
  "redeem_piece envelope libs env who remote tickets m =
     (let deny = (\<lambda>e failure tickets m. case on_log (deny_ticket libs (ae_audit env) who remote e failure) m of
            (r, m') \<Rightarrow> (Inl r, tickets, m')) in
      case await_handshake (ae_received env) of
        HandshakeWaits \<Rightarrow> (Inl AcceptWaits, tickets, m)
      | HandshakeGone \<Rightarrow> (Inl AcceptGone, tickets, m)
      | HandshakeOversized \<Rightarrow> deny Malformed (protocol_failure BinaryTooLarge) tickets m
      | HandshakeLate \<Rightarrow> deny Malformed safe_ticket_error tickets m
      | HandshakeGot message \<Rightarrow>
          (case parse_handshake envelope message of
             Inl HandshakeTooLarge \<Rightarrow> deny Malformed (protocol_failure ControlTooLarge) tickets m
           | Inl _ \<Rightarrow> deny Malformed safe_ticket_error tickets m
           | Inr ticket \<Rightarrow>
               (case redeem ticket who (ae_now env) tickets of
                  (Inl e, dropped, tickets') \<Rightarrow> deny e safe_ticket_error tickets' (drop_reservations dropped m)
                | (Inr grant, dropped, tickets') \<Rightarrow> (Inr grant, tickets', drop_reservations dropped m))))"

subsection \<open>The pieces are the handlers\<close>

lemma answer_simps [simp]: "answer (resp, st) = (Inl resp, st)"
  by (simp add: answer_def)

definition issued_after ::
  "server_lib \<Rightarrow> http_env \<Rightarrow> socket_addr option \<Rightarrow> (response + taken_place) \<times> app_state \<Rightarrow> response \<times> app_state" where
  "issued_after lib env remote piece =
     (case piece of
        (Inl resp, st) \<Rightarrow> (resp, st)
      | (Inr (who, t, expiry, r), st) \<Rightarrow> issue_ticket lib env who t remote expiry r st)"

lemma issued_after_simps [simp]:
  "issued_after lib env remote (Inl resp, st) = (resp, st)"
  "issued_after lib env remote (answer ra) = ra"
  "issued_after lib env remote (Inr (who, t, expiry, r), st) = issue_ticket lib env who t remote expiry r st"
  by (simp_all add: issued_after_def answer_def split: prod.split)

lemma reserve_in_pieces:
  "reserve_session lib env who t remote st = issued_after lib env remote (reserve_piece lib env who t remote st)"
  by (auto simp: reserve_session_def reserve_piece_def Let_def split: prod.split sum.split session_error.split)

lemma resolve_in_pieces:
  "resolve_request lib env rq who remote st = issued_after lib env remote (resolve_piece lib env rq who remote st)"
  by (auto simp: resolve_request_def resolve_piece_def reserve_in_pieces split: sum.split)

definition resolved_after ::
  "server_lib \<Rightarrow> http_env \<Rightarrow> request \<Rightarrow> (response + identity) \<times> app_state \<Rightarrow> response \<times> app_state" where
  "resolved_after lib env rq piece =
     (case piece of
        (Inl resp, st) \<Rightarrow> (resp, st)
      | (Inr who, st) \<Rightarrow> issued_after lib env (rq_peer rq) (resolve_piece lib env rq who (rq_peer rq) st))"

lemma resolved_after_simps [simp]:
  "resolved_after lib env rq (Inl resp, st) = (resp, st)"
  "resolved_after lib env rq (answer ra) = ra"
  "resolved_after lib env rq (Inr who, st)
     = issued_after lib env (rq_peer rq) (resolve_piece lib env rq who (rq_peer rq) st)"
  by (simp_all add: resolved_after_def answer_def split: prod.split)

lemma create_in_pieces: "create_session lib env rq st = resolved_after lib env rq (admit_piece lib env rq st)"
  by (auto simp: create_session_def admit_piece_def resolve_in_pieces auth_context_of_def Let_def
    split: prod.split sum.split)

lemma session_request_in_pieces:
  "serve_request lib env EpSessions rq st = resolved_after lib env rq (session_request_piece lib env rq st)"
  by (auto simp: serve_request_def authority_handler_def enforce_authority_origin_def session_request_piece_def
    authority_check_def create_in_pieces answer_def split: prod.split)

lemma accept_in_pieces:
  "accept_upgrade envelope libs env who remote tickets m =
     (case redeem_piece envelope libs env who remote tickets m of
        (Inl res, tickets', m') \<Rightarrow> (res, tickets', m')
      | (Inr grant, tickets', m') \<Rightarrow>
          (case accept_redeemed libs env who remote grant m' of (res, m'') \<Rightarrow> (res, tickets', m'')))"
  by (auto simp: accept_upgrade_def redeem_piece_def Let_def
    split: handshake.split sum.split handshake_error.split prod.split)

text \<open>The end of an upgrade whose connection was refused is that of the whole handler.\<close>

lemma refused_connection_in_pieces:
  assumes "run_connecting libs cenv cn (mg_audit m) (mg_capacity m) = ConnectingRefused (Some e) events c audit cap"
  shows "await_start libs env cenv who remote t i cn m
    = on_log (accept_failed libs (ae_audit env) who t remote e) (connecting_settled i audit cap m)"
  using assms by (simp add: await_start_def)

subsection \<open>Relations that requests keep\<close>

text \<open>A relation of two states that neither authentication, nor the limiters, nor a record of a request
  in the audit log leave is kept by every request but a session request, and by a session request
  until it asks for its place.\<close>

locale state_relation =
  fixes R :: "server_lib \<Rightarrow> app_state \<Rightarrow> app_state \<Rightarrow> bool"
  assumes kept_refl [simp]: "R lib st st"
    and kept_auth [simp]: "R lib st (st1\<lparr>as_auth := auth\<rparr>) = R lib st st1"
    and kept_requests [simp]: "R lib st (st1\<lparr>as_session_requests := l\<rparr>) = R lib st st1"
    and kept_failures [simp]: "R lib st (st1\<lparr>as_authentication_failures := l'\<rparr>) = R lib st st1"
    and kept_denial: "deny_with lib env category reason who t remote resp st1 = (r, st') \<Longrightarrow> R lib st st1 \<Longrightarrow> R lib st st'"
    and kept_success: "record_authentication_success lib env ctx who' st1 = (r', st') \<Longrightarrow> R lib st st1 \<Longrightarrow> R lib st st'"
begin

lemma kept_attempts [simp]:
  "R lib st (commit_authentication a st1) = R lib st st1" "R lib st (rollback_authentication a st1) = R lib st st1"
  by (simp_all add: commit_authentication_def rollback_authentication_def)

lemma kept_auth_error:
  "audited_auth_error_response lib env ctx e st1 = (r, st') \<Longrightarrow> R lib st st1 \<Longrightarrow> R lib st st'"
  by (cases e) (auto simp: audited_auth_error_response_def intro: kept_denial)

lemma kept_begin: "begin_authentication_attempt env ctx st1 = (r, st') \<Longrightarrow> R lib st st1 \<Longrightarrow> R lib st st'"
  by (auto simp: begin_authentication_attempt_def split: prod.splits)

lemma kept_authenticate:
  "authenticate_limited lib env ctx cookie st1 = (r, st') \<Longrightarrow> R lib st st1 \<Longrightarrow> R lib st st'"
  by (auto simp: authenticate_limited_def dest!: kept_begin [of _ _ _ _ _ lib st] split: prod.splits sum.splits)

lemma kept_establish: "establish_identity lib env rq st = (r, st') \<Longrightarrow> R lib st st'"
  by (auto simp: establish_identity_def Let_def dest!: kept_denial [of _ _ _ _ _ _ _ _ _ _ _ st]
    kept_auth_error [of _ _ _ _ _ _ _ st] kept_success [of _ _ _ _ _ _ _ st] kept_begin [of _ _ _ _ _ lib st]
    split: prod.splits sum.splits if_splits)

lemma kept_targets: "list_targets lib env rq st = (r, st') \<Longrightarrow> R lib st st'"
  by (auto simp: list_targets_def Let_def dest!: kept_authenticate [of _ _ _ _ _ _ _ st] kept_auth_error [of _ _ _ _ _ _ _ st]
    split: prod.splits sum.splits)

lemma kept_upgrade: "upgrade_websocket lib env rq st = (r, st') \<Longrightarrow> R lib st st'"
  by (auto simp: upgrade_websocket_def Let_def dest!: kept_authenticate [of _ _ _ _ _ _ _ st] kept_auth_error [of _ _ _ _ _ _ _ st]
    split: prod.splits sum.splits if_splits)

lemma kept_other:
  assumes "ep \<noteq> EpSessions" "serve_request lib env ep rq st = (r, st')"
  shows "R lib st st'"
  using assms
  by (cases ep) (auto simp: serve_request_def authority_handler_def enforce_authority_origin_def
    enforce_origin_if_present_def enforce_origin_def dest: kept_denial [of _ _ _ _ _ _ _ _ _ _ _ st]
    kept_establish kept_targets kept_upgrade split: if_splits)

lemma kept_answer:
  "answer (deny_with lib env category reason who t remote resp st1) = (res, st') \<Longrightarrow> R lib st st1 \<Longrightarrow> R lib st st'"
  by (auto simp: answer_def split: prod.splits dest: kept_denial)

lemma kept_admit:
  assumes "admit_piece lib env rq st = (res, st')"
  shows "R lib st st'"
proof -
  obtain r st1 where auth: "authenticate_limited lib env (auth_context_of rq)
      (single_cookie_header lib (rq_headers rq)) st = (r, st1)" by fastforce
  then have st1: "R lib st st1" by (rule kept_authenticate) simp
  show ?thesis
  proof (cases r)
    case (Inl e)
    with assms auth kept_auth_error [OF _ st1] show ?thesis
      by (auto simp: admit_piece_def Let_def answer_def split: prod.splits)
  next
    case (Inr who)
    obtain b l where l: "limiter_begin (as_session_requests st1) (he_session_now env) who = (b, l)" by fastforce
    from st1 have stock: "R lib st (st1\<lparr>as_session_requests := l'\<rparr>)" for l' by simp
    from assms auth Inr l stock show ?thesis
      by (cases b) (auto simp: admit_piece_def Let_def intro: kept_answer [OF _ stock])
  qed
qed

lemma kept_session_request: "session_request_piece lib env rq st = (res, st') \<Longrightarrow> R lib st st'"
  by (auto simp: session_request_piece_def authority_check_def dest: kept_admit
    split: prod.splits sum.splits if_splits intro: kept_answer [OF _ kept_refl])
    (auto simp: answer_def split: prod.splits dest: kept_denial [OF _ kept_refl])

end

section \<open>The application as a system of tasks\<close>

text \<open>What a task holds between two pieces: an admitted session request its identity, a resolved one its
  place, an upgrade whose client was authenticated nothing yet, then the grant of its ticket, then
  nothing while a supervisor connects its session, and the error if that failed, which it still has to
  put on record; and a supervisor its registry number and its connection or session; the target with
  the last two is ghost state.\<close>

datatype app_task =
    Admitted request identity
  | Requesting "socket_addr option" identity target instant reservation
  | Handshaking identity "socket_addr option"
  | Attaching identity "socket_addr option" target reservation
  | Connecting u64 target connecting
  | Answering identity "socket_addr option" target session_error
  | Running u64 target supervisor

text \<open>Ghost state: the end records of sessions that could not be made when they were due, because the
  time did not format or because the log refused the event.\<close>

datatype missed_end = MissedTime persistent_audit identity string system_time | MissedEvent audit_event

record application =
  ap_state :: app_state
  ap_tasks :: "app_task list"
  ap_requests :: "(identity \<times> target) list"
  ap_missed :: "missed_end list"

abbreviation at_rest :: "app_state \<Rightarrow> application" where
  "at_rest st \<equiv> \<lparr>ap_state = st, ap_tasks = [], ap_requests = [], ap_missed = []\<rparr>"

text \<open>A 101 response spawns the upgrade's own task.\<close>

definition upgraded :: "response \<Rightarrow> app_task list" where
  "upgraded resp = (case rs_body resp of SwitchingProtocols who remote \<Rightarrow> [Handshaking who remote] | _ \<Rightarrow> [])"

text \<open>A supervisor's task ends: its results are stored, its completion leaves the registry.\<close>

definition store_places :: "audit_log option \<Rightarrow> capacity \<Rightarrow> app_state \<Rightarrow> app_state" where
  "store_places audit cap st = st\<lparr>as_sessions := (as_sessions st)\<lparr>mg_audit := audit, mg_capacity := cap\<rparr>\<rparr>"

definition on_registry :: "(registry \<Rightarrow> registry) \<Rightarrow> app_state \<Rightarrow> app_state" where
  "on_registry f st = st\<lparr>as_sessions := (as_sessions st)\<lparr>mg_registry := f (mg_registry (as_sessions st))\<rparr>\<rparr>"

definition task_ended :: "u64 \<Rightarrow> audit_log option \<Rightarrow> capacity \<Rightarrow> app_state \<Rightarrow> app_state" where
  "task_ended i audit cap st = on_registry (supervisor_completion i) (store_places audit cap st)"

text \<open>An upgrade whose connection was refused is told the error, unless it no longer waits.\<close>

definition answering :: "session_error option \<Rightarrow> connecting \<Rightarrow> target \<Rightarrow> app_task list" where
  "answering reply cn t =
     (case reply of None \<Rightarrow> [] | Some e \<Rightarrow> [Answering (cn_identity cn) (cn_remote cn) t e])"

text \<open>The end record that \<open>record_session_end\<close> cannot make: the ghost state of a session that ends, and
  of a connection that unwinds after its start was recorded.\<close>

definition missed_of ::
  "audit_libs \<Rightarrow> audit_answers \<Rightarrow> persistent_audit option \<Rightarrow> identity \<Rightarrow> string \<Rightarrow> session_close_reason \<Rightarrow>
   child_outcome option \<Rightarrow> audit_log option \<Rightarrow> missed_end list" where
  "missed_of libs ans persistent who tname reason outcome audit =
     (case (persistent, audit) of
        (Some pa, Some log) \<Rightarrow>
          (case from_system_time (lb_rfc3339 libs) (aa_now ans) of
             Inl _ \<Rightarrow> [MissedTime pa who tname (aa_now ans)]
           | Inr ended_at \<Rightarrow>
               (let e = session_ended (pa_session_id pa) who (ResolvedAuditTarget tname) (pa_remote pa)
                      (pa_started_at pa) ended_at (audit_close_reason_of reason) (map_option audit_outcome_of outcome) in
                if is_ok (fst (record_event (lb_json libs) e (aa_write ans) (aa_flush ans) log)) then []
                else [MissedEvent e]))
      | _ \<Rightarrow> [])"

definition supervise_missed :: "audit_libs \<Rightarrow> supervise_env \<Rightarrow> supervisor \<Rightarrow> audit_log option \<Rightarrow> missed_end list" where
  "supervise_missed libs env su audit =
     (case supervise_child (su_limits su) (su_created_at su) (se_polls env) (se_cleanup env) (su_child su) of
        (Some (reason, outcome), _) \<Rightarrow>
          missed_of libs (se_audit env) (su_persistent su) (su_identity su) (su_target_name su) reason (Some outcome) audit
      | _ \<Rightarrow> [])"

definition connecting_missed :: "audit_libs \<Rightarrow> connect_env \<Rightarrow> connecting \<Rightarrow> audit_log option \<Rightarrow> missed_end list" where
  "connecting_missed libs env cn audit =
     (case connecting_select (cn_classifier cn) (ce_polls env) (cn_child cn) of
        (ConnAuthenticated, c) \<Rightarrow>
          (case (persistent_audit_start libs env cn audit, terminate_until_proven (ce_cleanup env) False c) of
             ((Inr persistent, audit'), (Some (status, _), _)) \<Rightarrow>
               missed_of libs (ce_end_audit env) persistent (cn_identity cn) (cn_target_name cn)
                 CloseSupervisorUnwind (Some (from_status status)) audit'
           | _ \<Rightarrow> [])
      | _ \<Rightarrow> [])"

text \<open>The mark of \<open>SessionManager::shutdown\<close>, under the write side of the admission lock.\<close>

definition mark_shutdown :: "app_state \<Rightarrow> app_state" where
  "mark_shutdown st = on_registry (\<lambda>r. snd (shutdown_mark r))
     (store_places (mg_audit (as_sessions st)) (close_pending (mg_capacity (as_sessions st))) st)"

text \<open>Requests. A client that goes away ends a request that still waits for its body.\<close>

inductive request_step :: "server_lib \<Rightarrow> application \<Rightarrow> application \<Rightarrow> bool" for lib where
  other_request: "ep \<noteq> EpSessions \<Longrightarrow> serve_request lib env ep rq (ap_state a) = (resp, st) \<Longrightarrow>
    request_step lib a (a\<lparr>ap_state := st, ap_tasks := upgraded resp @ ap_tasks a\<rparr>)"
| request_answered: "session_request_piece lib env rq (ap_state a) = (Inl resp, st) \<Longrightarrow>
    request_step lib a (a\<lparr>ap_state := st\<rparr>)"
| request_admitted: "session_request_piece lib env rq (ap_state a) = (Inr who, st) \<Longrightarrow>
    request_step lib a (a\<lparr>ap_state := st, ap_tasks := Admitted rq who # ap_tasks a\<rparr>)"
| request_gone: "ap_tasks a = xs @ Admitted rq who # ys \<Longrightarrow>
    request_step lib a (a\<lparr>ap_tasks := xs @ ys\<rparr>)"
| request_refused: "ap_tasks a = xs @ Admitted rq who # ys \<Longrightarrow>
    resolve_piece lib env rq who (rq_peer rq) (ap_state a) = (Inl resp, st) \<Longrightarrow>
    request_step lib a (a\<lparr>ap_state := st, ap_tasks := xs @ ys\<rparr>)"
| request_reserved: "ap_tasks a = xs @ Admitted rq who # ys \<Longrightarrow>
    resolve_piece lib env rq who (rq_peer rq) (ap_state a) = (Inr (who', t, expiry, r), st) \<Longrightarrow>
    request_step lib a (a\<lparr>ap_state := st, ap_tasks := xs @ Requesting (rq_peer rq) who' t expiry r # ys,
      ap_requests := ap_requests a @ [(who', t)]\<rparr>)"
| request_finished: "ap_tasks a = xs @ Requesting remote who t expiry r # ys \<Longrightarrow>
    issue_ticket lib env who t remote expiry r (ap_state a) = (resp, st) \<Longrightarrow>
    request_step lib a (a\<lparr>ap_state := st, ap_tasks := xs @ ys\<rparr>)"

text \<open>Upgrades.\<close>

inductive upgrade_step ::
  "server_lib \<Rightarrow> (bytes \<Rightarrow> unit + string) \<Rightarrow> application \<Rightarrow> application \<Rightarrow> bool" for lib envelope where
  upgrade_refused: "ap_tasks a = xs @ Handshaking who remote # ys \<Longrightarrow>
    redeem_piece envelope (sl_audit lib) aenv who remote (as_tickets (ap_state a)) (as_sessions (ap_state a))
      = (Inl res, tickets, m) \<Longrightarrow> res \<noteq> AcceptWaits \<Longrightarrow>
    upgrade_step lib envelope a (a\<lparr>ap_state := (ap_state a)\<lparr>as_tickets := tickets, as_sessions := m\<rparr>,
      ap_tasks := xs @ ys\<rparr>)"
| upgrade_redeemed: "ap_tasks a = xs @ Handshaking who remote # ys \<Longrightarrow>
    redeem_piece envelope (sl_audit lib) aenv who remote (as_tickets (ap_state a)) (as_sessions (ap_state a))
      = (Inr (t, r), tickets, m) \<Longrightarrow>
    upgrade_step lib envelope a (a\<lparr>ap_state := (ap_state a)\<lparr>as_tickets := tickets, as_sessions := m\<rparr>,
      ap_tasks := xs @ Attaching who remote t r # ys\<rparr>)"
| attach_failed: "ap_tasks a = xs @ Attaching who remote t r # ys \<Longrightarrow>
    accept_redeemed (sl_audit lib) aenv who remote (t, r) (as_sessions (ap_state a)) = (res, m) \<Longrightarrow>
    (\<nexists>t' i cn. res = AcceptStarting t' i cn) \<Longrightarrow>
    upgrade_step lib envelope a (a\<lparr>ap_state := (ap_state a)\<lparr>as_sessions := m\<rparr>, ap_tasks := xs @ ys\<rparr>)"
| attach_started: "ap_tasks a = xs @ Attaching who remote t r # ys \<Longrightarrow>
    accept_redeemed (sl_audit lib) aenv who remote (t, r) (as_sessions (ap_state a)) = (AcceptStarting t' i cn, m) \<Longrightarrow>
    upgrade_step lib envelope a (a\<lparr>ap_state := (ap_state a)\<lparr>as_sessions := m\<rparr>,
      ap_tasks := xs @ Connecting i t' cn # ys\<rparr>)"
| upgrade_answered: "ap_tasks a = xs @ Answering who remote t e # ys \<Longrightarrow>
    on_log (accept_failed (sl_audit lib) ans who t remote e) (as_sessions (ap_state a)) = (res, m) \<Longrightarrow>
    upgrade_step lib envelope a (a\<lparr>ap_state := (ap_state a)\<lparr>as_sessions := m\<rparr>, ap_tasks := xs @ ys\<rparr>)"

text \<open>Connections and sessions, with those who ask them to close.\<close>

inductive session_step :: "server_lib \<Rightarrow> application \<Rightarrow> application \<Rightarrow> bool" for lib where
  connection_refused: "ap_tasks a = xs @ Connecting i t cn # ys \<Longrightarrow>
    run_connecting (sl_audit lib) cenv cn (mg_audit (as_sessions (ap_state a))) (mg_capacity (as_sessions (ap_state a)))
      = ConnectingRefused reply events c audit cap \<Longrightarrow>
    session_step lib a (a\<lparr>ap_state := task_ended i audit cap (ap_state a), ap_tasks := xs @ answering reply cn t @ ys,
      ap_missed := ap_missed a @ connecting_missed (sl_audit lib) cenv cn (mg_audit (as_sessions (ap_state a)))\<rparr>)"
| connection_admitted: "ap_tasks a = xs @ Connecting i t cn # ys \<Longrightarrow>
    run_connecting (sl_audit lib) cenv cn (mg_audit (as_sessions (ap_state a))) (mg_capacity (as_sessions (ap_state a)))
      = ConnectingHandedOver su sn audit cap \<Longrightarrow>
    session_step lib a (a\<lparr>ap_state := store_places audit cap (ap_state a),
      ap_tasks := xs @ Running i t su # ys\<rparr>)"
| session_ended: "ap_tasks a = xs @ Running i t su # ys \<Longrightarrow>
    supervise (sl_audit lib) senv su (mg_audit (as_sessions (ap_state a))) (mg_capacity (as_sessions (ap_state a)))
      = SuperviseEnded su' audit cap \<Longrightarrow>
    session_step lib a (a\<lparr>ap_state := task_ended i audit cap (ap_state a), ap_tasks := xs @ ys,
      ap_missed := ap_missed a @ supervise_missed (sl_audit lib) senv su (mg_audit (as_sessions (ap_state a)))\<rparr>)"
| close_requested: "session_step lib a
    (a\<lparr>ap_state := on_registry (request_close_of i reason) (ap_state a)\<rparr>)"
| shutdown_marked: "session_step lib a (a\<lparr>ap_state := mark_shutdown (ap_state a)\<rparr>)"

inductive app_step ::
  "server_lib \<Rightarrow> (bytes \<Rightarrow> unit + string) \<Rightarrow> application \<Rightarrow> application \<Rightarrow> bool" for lib envelope where
  by_request: "request_step lib a a' \<Longrightarrow> app_step lib envelope a a'"
| by_upgrade: "upgrade_step lib envelope a a' \<Longrightarrow> app_step lib envelope a a'"
| by_session: "session_step lib a a' \<Longrightarrow> app_step lib envelope a a'"

text \<open>An application that has just been built: nothing is stored and nothing runs.\<close>

definition fresh_application :: "limits \<Rightarrow> application \<Rightarrow> bool" where
  "fresh_application l a \<longleftrightarrow> ts_entries (as_tickets (ap_state a)) = []
     \<and> mg_capacity (as_sessions (ap_state a)) = capacity_new l \<and> mg_registry (as_sessions (ap_state a)) = registry_new
     \<and> ap_tasks a = [] \<and> ap_requests a = [] \<and> ap_missed a = []"

section \<open>Its ledger\<close>

fun reserved :: "reservation \<Rightarrow> identity \<Rightarrow> target \<Rightarrow> bool \<Rightarrow> stake list" where
  "reserved (Reservation None) who t live = []"
| "reserved (Reservation (Some k)) who t live =
     [\<lparr>sk_place = k, sk_identity = who, sk_target = t, sk_live = live\<rparr>]"

definition entry_stakes :: "ticket_entry \<Rightarrow> stake list" where
  "entry_stakes e = reserved (tk_reservation e) (tk_identity e) (tk_target e) False"

fun task_stakes :: "app_task \<Rightarrow> stake list" where
  "task_stakes (Admitted rq who) = []"
| "task_stakes (Requesting remote who t expiry r) = reserved r who t False"
| "task_stakes (Handshaking who remote) = []"
| "task_stakes (Attaching who remote t r) = reserved r who t False"
| "task_stakes (Connecting i t cn) = reserved (cn_reservation cn) (cn_identity cn) t True"
| "task_stakes (Answering who remote t e) = []"
| "task_stakes (Running i t su) = reserved (su_reservation su) (su_identity su) t True"

definition stakes_of :: "app_state \<Rightarrow> app_task list \<Rightarrow> stake multiset" where
  "stakes_of st tasks = mset (concat (map entry_stakes (hm_values (ts_entries (as_tickets st)))))
     + mset (concat (map task_stakes tasks))"

definition ledger_of :: "application \<Rightarrow> ledger" where
  "ledger_of a = \<lparr>lg_capacity = mg_capacity (as_sessions (ap_state a)), lg_requests = ap_requests a,
     lg_stakes = stakes_of (ap_state a) (ap_tasks a)\<rparr>"

text \<open>The tasks that hold a live session, and of whom.\<close>

fun session_holder :: "app_task \<Rightarrow> identity option" where
  "session_holder (Connecting i t cn) = Some (cn_identity cn)"
| "session_holder (Running i t su) = Some (su_identity su)"
| "session_holder _ = None"

end
