(* ===== verification/Capacity_Spec.thy ===== *)
theory Capacity_Spec
  imports Capacity "HOL-Library.Multiset"
begin

text \<open>
  What the lease table of \<open>Capacity\<close> promises, without identifiers: a bag of places, each of an
  identity and with its state. Every operation of the table is the operation of the bag of the same
  name, with the same answer.
\<close>

section \<open>The bag\<close>

record place_bag =
  pb_closed :: bool
  pb_places :: "(identity \<times> lease_state) multiset"

definition bag_purge :: "instant \<Rightarrow> place_bag \<Rightarrow> place_bag" where
  "bag_purge now b = b\<lparr>pb_places := filter_mset (\<lambda>(_, s). \<not> lease_expired now s) (pb_places b)\<rparr>"

definition bag_reserve ::
  "u64 \<Rightarrow> u64 \<Rightarrow> instant \<Rightarrow> identity \<Rightarrow> lease_state \<Rightarrow> place_bag \<Rightarrow> (session_error + unit) \<times> place_bag" where
  "bag_reserve overall each now who s b0 =
     (let b = bag_purge now b0 in
      if lease_expired now s then (Inl ReservationUnavailable, b)
      else if pb_closed b then (Inl ManagerClosed, b)
      else if size (pb_places b) \<ge> unat overall then (Inl GlobalLimit, b)
      else if size (filter_mset (\<lambda>(i, _). i = who) (pb_places b)) \<ge> unat each then (Inl IdentityLimit, b)
      else (Inr (), b\<lparr>pb_places := add_mset (who, s) (pb_places b)\<rparr>))"

definition bag_release :: "identity \<times> lease_state \<Rightarrow> place_bag \<Rightarrow> place_bag" where
  "bag_release place b = b\<lparr>pb_places := pb_places b - {#place#}\<rparr>"

text \<open>\<open>held\<close> is the place that the handle of the activation stands for, if the table still has it: it goes
  away whatever the answer, and comes back live if the answer is yes.\<close>

definition bag_activate ::
  "instant \<Rightarrow> identity \<Rightarrow> (identity \<times> lease_state) option \<Rightarrow> place_bag \<Rightarrow> (session_error + unit) \<times> place_bag" where
  "bag_activate now who held b0 =
     (let b = bag_purge now b0;
          rest = (case held of None \<Rightarrow> b | Some place \<Rightarrow> bag_release place b) in
      if pb_closed b then (Inl ManagerClosed, rest)
      else (case held of
          None \<Rightarrow> (Inl ReservationUnavailable, rest)
        | Some (owner, s) \<Rightarrow>
            if owner \<noteq> who \<or> s = Live \<or> lease_expired now s then (Inl ReservationUnavailable, rest)
            else (Inr (), rest\<lparr>pb_places := add_mset (who, Live) (pb_places rest)\<rparr>)))"

definition bag_close :: "place_bag \<Rightarrow> place_bag" where
  "bag_close b = b\<lparr>pb_closed := True, pb_places := filter_mset (\<lambda>(_, s). s = Live) (pb_places b)\<rparr>"

section \<open>The table as a bag\<close>

definition place_of :: "lease \<Rightarrow> identity \<times> lease_state" where
  "place_of l = (ls_identity l, ls_state l)"

definition bag_of :: "capacity \<Rightarrow> place_bag" where
  "bag_of c = \<lparr>pb_closed = cp_closed c, pb_places = image_mset place_of (mset (hm_values (cp_leases c)))\<rparr>"

lemma values_retain:
  "mset (hm_values (hm_retain (\<lambda>_ v. P v) m)) = filter_mset P (mset (hm_values m))"
  by (induction m) (auto simp: hm_values_def hm_retain_def)

lemma values_insert_new:
  "hm_get m k = None \<Longrightarrow> mset (hm_values (hm_insert k v m)) = add_mset v (mset (hm_values m))"
  by (induction m) (auto simp: hm_values_def hm_insert_def hm_get_def split: if_splits)

lemma values_remove:
  "hm_wf m \<Longrightarrow> hm_get m k = Some v \<Longrightarrow> mset (hm_values m) = add_mset v (mset (hm_values (hm_remove k m)))"
  by (induction m) (auto simp: hm_remove_def hm_values_def hm_get_def hm_wf_def delete_id split: if_splits)

lemma values_replace:
  assumes "hm_wf m" "hm_get m k = Some v"
  shows "mset (hm_values (hm_insert k w m)) = add_mset w (mset (hm_values m) - {#v#})"
proof -
  have "add_mset v (mset (hm_values (hm_insert k w m))) = add_mset w (mset (hm_values m))"
    using assms
    by (induction m) (auto simp: hm_values_def hm_insert_def hm_get_def hm_wf_def split: if_splits)
  with values_remove [OF assms] show ?thesis by simp
qed

lemma bag_purged: "bag_of (purge_expired_leases now c) = bag_purge now (bag_of c)"
  by (simp add: bag_of_def bag_purge_def purge_expired_leases_def values_retain place_of_def
    filter_mset_image_mset case_prod_beta comp_def)

lemma bag_size: "size (pb_places (bag_of c)) = hm_len (cp_leases c)"
  by (simp add: bag_of_def hm_len_def hm_values_def)

lemma bag_count: "size (filter_mset (\<lambda>(i, _). i = who) (pb_places (bag_of c))) = lease_count who (cp_leases c)"
  by (simp add: bag_of_def lease_count_def place_of_def filter_mset_image_mset case_prod_beta
    flip: mset_filter)

lemma bag_closed [simp]: "pb_closed (bag_of c) = cp_closed c"
  by (simp add: bag_of_def)

text \<open>The place that a handle stands for.\<close>

definition held_place :: "capacity \<Rightarrow> u64 \<Rightarrow> (identity \<times> lease_state) option" where
  "held_place c i = map_option place_of (hm_get (cp_leases c) i)"

lemma reserve_is_bag_reserve:
  assumes wf: "hm_wf (cp_leases c)" and fresh: "hm_get (cp_leases c) (cp_next_id c) = None"
  shows "bag_reserve (cp_max_sessions c) (cp_max_sessions_per_identity c) now who s (bag_of c)
      = (case reserve_with_state now who s c of (r, c') \<Rightarrow> (map_ok (\<lambda>_. ()) r, bag_of c'))"
proof -
  let ?p = "purge_expired_leases now c"
  have freshp: "hm_get (cp_leases ?p) (cp_next_id ?p) = None"
    using fresh wf by (simp add: purge_expired_leases_def hm.get_retain)
  have limits: "cp_max_sessions ?p = cp_max_sessions c" "cp_max_sessions_per_identity ?p = cp_max_sessions_per_identity c"
    by (simp_all add: purge_expired_leases_def)
  have "bag_of (?p\<lparr>cp_next_id := n, cp_leases := hm_insert (cp_next_id ?p) \<lparr>ls_identity = who, ls_state = s\<rparr> (cp_leases ?p)\<rparr>)
      = (bag_of ?p)\<lparr>pb_places := add_mset (who, s) (pb_places (bag_of ?p))\<rparr>" for n
    using values_insert_new [OF freshp, of "\<lparr>ls_identity = who, ls_state = s\<rparr>"]
    by (simp add: bag_of_def place_of_def)
  then show ?thesis
    by (simp add: bag_reserve_def reserve_with_state_def Let_def limits bag_size bag_count
      flip: bag_purged)
qed

lemma reserved_handle:
  assumes "reserve_with_state now who s c = (Inr r, c')"
  shows "\<exists>i. r = Reservation (Some i) \<and> held_place c' i = Some (who, s)"
  using assms
  by (auto simp: reserve_with_state_def Let_def held_place_def place_of_def hm.get_put split: if_splits)

lemma drop_is_bag_release:
  "hm_wf (cp_leases c) \<Longrightarrow> bag_of (reservation_drop (Reservation (Some i)) c)
     = (case held_place c i of None \<Rightarrow> bag_of c | Some place \<Rightarrow> bag_release place (bag_of c))"
proof (cases "hm_get (cp_leases c) i")
  case None
  then have "hm_remove i (cp_leases c) = cp_leases c"
    by (simp add: hm_get_def hm_remove_def delete_id map_of_eq_None_iff)
  with None show ?thesis by (simp add: held_place_def)
next
  case (Some l)
  assume "hm_wf (cp_leases c)"
  with Some values_remove [of "cp_leases c" i l] show ?thesis
    by (simp add: held_place_def bag_of_def bag_release_def)
qed

lemma close_is_bag_close: "bag_of (close_pending c) = bag_close (bag_of c)"
  by (simp add: bag_of_def bag_close_def close_pending_def values_retain place_of_def
    filter_mset_image_mset case_prod_beta comp_def)

text \<open>A place that expired is no longer in the purged table, and there is no other like it in the purged bag.\<close>

lemma held_purged:
  assumes "hm_wf (cp_leases c)"
  shows "held_place (purge_expired_leases now c) i
     = (case held_place c i of None \<Rightarrow> None | Some (who, s) \<Rightarrow> if lease_expired now s then None else Some (who, s))"
  using assms
  by (auto simp: held_place_def purge_expired_leases_def hm.get_retain place_of_def split: option.split)

lemma release_expired: "lease_expired now s \<Longrightarrow> bag_release (who, s) (bag_purge now b) = bag_purge now b"
  by (simp add: bag_release_def bag_purge_def diff_single_trivial)

lemma dropped_purged:
  assumes "hm_wf (cp_leases c)"
  shows "bag_of (reservation_drop (Reservation (Some i)) (purge_expired_leases now c))
     = (case held_place c i of None \<Rightarrow> bag_purge now (bag_of c) | Some place \<Rightarrow> bag_release place (bag_purge now (bag_of c)))"
proof -
  have wf: "hm_wf (cp_leases (purge_expired_leases now c))"
    using assms by (simp add: purge_expired_leases_def hm.wf_retain)
  show ?thesis
    unfolding drop_is_bag_release [OF wf] held_purged [OF assms] bag_purged
    by (simp add: release_expired split: option.split)
qed

lemma activate_is_bag_activate:
  assumes wf: "hm_wf (cp_leases c)"
  shows "bag_activate now who (held_place c i) (bag_of c)
      = (case activate now (Reservation (Some i)) who c of (r, c') \<Rightarrow> (map_ok (\<lambda>_. ()) r, bag_of c'))"
proof -
  let ?p = "purge_expired_leases now c"
  have wfp: "hm_wf (cp_leases ?p)" using wf by (simp add: purge_expired_leases_def hm.wf_retain)
  note dropped = dropped_purged [OF wf, of i now] and kept = held_purged [OF wf, of now i]
  have closed: "pb_closed (bag_purge now (bag_of c)) = cp_closed ?p" by (simp flip: bag_purged)
  show ?thesis
  proof (cases "hm_get (cp_leases ?p) i")
    case None
    with kept have "held_place c i = None \<or> (\<exists>owner s. held_place c i = Some (owner, s) \<and> lease_expired now s)"
      by (auto simp: held_place_def [of ?p] split: option.splits if_splits)
    with None dropped closed show ?thesis
      by (auto simp: activate_def bag_activate_def Let_def)
  next
    case (Some l)
    with kept have held: "held_place c i = Some (place_of l)" and live: "\<not> lease_expired now (ls_state l)"
      by (auto simp: held_place_def [of ?p] place_of_def split: option.splits if_splits)
    have "bag_of (?p\<lparr>cp_leases := hm_insert i (l\<lparr>ls_state := Live\<rparr>) (cp_leases ?p)\<rparr>)
        = (bag_release (place_of l) (bag_purge now (bag_of c)))\<lparr>pb_places :=
            add_mset (ls_identity l, Live) (pb_places (bag_release (place_of l) (bag_purge now (bag_of c))))\<rparr>"
      using values_replace [OF wfp Some, of "l\<lparr>ls_state := Live\<rparr>"] values_remove [OF wfp Some]
      by (simp add: bag_release_def place_of_def flip: bag_purged) (simp add: bag_of_def place_of_def)
    with Some held live dropped closed show ?thesis
      by (simp add: activate_def bag_activate_def Let_def place_of_def)
  qed
qed

lemma activated_handle: "activate now h who c = (Inr r, c') \<Longrightarrow> r = h \<and> h \<noteq> Reservation None"
  by (auto simp: activate_def Let_def split: reservation.splits option.splits if_splits)

text \<open>C29: The lease table implements a bag of places, operation by operation and answer by answer: a
  reservation is refused for the same reason or adds the same place, and its handle stands for that
  place; activating through a handle is refused for the same reason, and then the place is given back,
  or makes the place of the handle live and returns the handle; dropping a handle releases its place,
  if the table still has it; purging and closing are purging and closing the bag.\<close>

theorem capacity_refines_bag:
  assumes wf: "hm_wf (cp_leases c)" and fresh: "hm_get (cp_leases c) (cp_next_id c) = None"
  shows "bag_of (purge_expired_leases now c) = bag_purge now (bag_of c)
    \<and> bag_reserve (cp_max_sessions c) (cp_max_sessions_per_identity c) now who s (bag_of c)
      = (case reserve_with_state now who s c of (r, c') \<Rightarrow> (map_ok (\<lambda>_. ()) r, bag_of c'))
    \<and> (\<forall>r c'. reserve_with_state now who s c = (Inr r, c') \<longrightarrow>
         (\<exists>i. r = Reservation (Some i) \<and> held_place c' i = Some (who, s)))
    \<and> (\<forall>i. bag_activate now who (held_place c i) (bag_of c)
         = (case activate now (Reservation (Some i)) who c of (r, c') \<Rightarrow> (map_ok (\<lambda>_. ()) r, bag_of c')))
    \<and> (\<forall>h r c'. activate now h who c = (Inr r, c') \<longrightarrow> r = h \<and> h \<noteq> Reservation None)
    \<and> (\<forall>i. bag_of (reservation_drop (Reservation (Some i)) c)
         = (case held_place c i of None \<Rightarrow> bag_of c | Some place \<Rightarrow> bag_release place (bag_of c)))
    \<and> bag_of (close_pending c) = bag_close (bag_of c)"
  by (intro conjI allI impI bag_purged reserve_is_bag_reserve [OF assms] activate_is_bag_activate [OF wf]
      drop_is_bag_release [OF wf] close_is_bag_close reserved_handle)
    (simp_all add: activated_handle)

theorem capacity_refines_bag_witness:
  "bag_reserve 1 1 5 (Identity ''al'') Live \<lparr>pb_closed = False, pb_places = {#}\<rparr>
     = (Inr (), \<lparr>pb_closed = False, pb_places = {#(Identity ''al'', Live)#}\<rparr>)"
proof -
  let ?c = "\<lparr>cp_max_sessions = 1, cp_max_sessions_per_identity = 1, cp_next_id = 0, cp_closed = False, cp_leases = []\<rparr>"
  have "hm_wf (cp_leases ?c)" "hm_get (cp_leases ?c) (cp_next_id ?c) = None" by (simp_all add: hm_get_def)
  from capacity_refines_bag [OF this, of 5 "Identity ''al''" Live] show ?thesis
    by (simp add: bag_of_def hm_values_def reserve_with_state_def Let_def purge_expired_leases_def
      hm_retain_def hm_len_def lease_count_def hm_insert_def place_of_def)
qed

end
