(* ===== verification/Application_Safety.thy ===== *)
theory Application_Safety
  imports Application Capacity_Spec
begin

text \<open>
  The running application implements the ledger: whatever its tasks interleave, every step is a run of
  the ledger's operations, so that its sessions are within the configured limits, answer session
  requests of their own identity and target one to one, and no place of the lease table is lost.
\<close>

section \<open>Operations of the ledger\<close>

abbreviation book :: "capacity \<Rightarrow> (identity \<times> target) list \<Rightarrow> stake multiset \<Rightarrow> ledger" where
  "book cap requests stakes \<equiv> \<lparr>lg_capacity = cap, lg_requests = requests, lg_stakes = stakes\<rparr>"

lemma drop_none [simp]: "reservation_drop (Reservation None) cap = cap"
  by simp

lemma book_give_back:
  "ledger_step\<^sup>*\<^sup>* (book cap requests (mset (reserved r who t live) + rest)) (book (reservation_drop r cap) requests rest)"
proof (cases r)
  case (Reservation o')
  show ?thesis
  proof (cases o')
    case (Some k)
    let ?sk = "\<lparr>sk_place = k, sk_identity = who, sk_target = t, sk_live = live\<rparr>"
    have "ledger_step (book cap requests (add_mset ?sk rest)) (book (reservation_drop r cap) requests rest)"
      using give_back [of "book cap requests (add_mset ?sk rest)" ?sk rest] by (simp add: Reservation Some)
    then show ?thesis by (simp add: Reservation Some)
  qed (simp add: Reservation)
qed

lemma book_activate:
  assumes act: "activate now r who cap = (res, cap')"
  shows "ledger_step\<^sup>*\<^sup>* (book cap requests (mset (reserved r who t live) + rest))
    (book cap' requests (case res of Inr r' \<Rightarrow> mset (reserved r' who t True) + rest | Inl _ \<Rightarrow> rest))"
proof (cases r)
  case (Reservation o')
  show ?thesis
  proof (cases o')
    case None
    with act show ?thesis by (auto simp: activate_def Reservation)
  next
    case (Some k)
    let ?sk = "\<lparr>sk_place = k, sk_identity = who, sk_target = t, sk_live = live\<rparr>"
    let ?lg = "book cap requests (add_mset ?sk rest)"
    show ?thesis
    proof (cases res)
      case (Inl e)
      with lapse [of ?lg ?sk rest now e cap'] act show ?thesis by (auto simp: Reservation Some)
    next
      case (Inr r')
      with act have "r' = r" by (auto simp: activate_def Let_def split: if_splits option.splits reservation.splits)
      with go_live [of ?lg ?sk rest now r' cap'] act Inr show ?thesis by (auto simp: Reservation Some)
    qed
  qed
qed

lemma book_drops:
  "ledger_step\<^sup>*\<^sup>* (book (mg_capacity m) requests (mset (concat (map entry_stakes es)) + rest))
     (book (mg_capacity (drop_reservations (map tk_reservation es) m)) requests rest)"
proof (induction es arbitrary: m)
  case (Cons e es)
  have "ledger_step\<^sup>*\<^sup>* (book (mg_capacity m) requests (mset (concat (map entry_stakes (e # es))) + rest))
      (book (mg_capacity (drop_reservation (tk_reservation e) m)) requests (mset (concat (map entry_stakes es)) + rest))"
    using book_give_back [of "mg_capacity m" requests "tk_reservation e" "tk_identity e" "tk_target e" False
      "mset (concat (map entry_stakes es)) + rest"]
    by (simp add: entry_stakes_def drop_reservation_def add.assoc)
  also have "ledger_step\<^sup>*\<^sup>* \<dots> (book (mg_capacity (drop_reservations (map tk_reservation (e # es)) m)) requests rest)"
    using Cons.IH [of "drop_reservation (tk_reservation e) m"] by (simp add: drop_reservations_def)
  finally show ?case .
qed (simp add: drop_reservations_def)

section \<open>Pieces that use no place\<close>

text \<open>What the sessions are named by never changes.\<close>

definition same_names :: "session_manager \<Rightarrow> session_manager \<Rightarrow> bool" where
  "same_names m m' \<longleftrightarrow> mg_targets m' = mg_targets m \<and> mg_prepared m' = mg_prepared m"

lemma same_names_simps [simp]:
  "same_names m m" "same_names m (drop_reservations rs m') = same_names m m'"
  "same_names m (drop_reservation r m') = same_names m m'"
  "same_names m (m'\<lparr>mg_capacity := cap\<rparr>) = same_names m m'" "same_names m (m'\<lparr>mg_audit := a\<rparr>) = same_names m m'"
  "same_names m (m'\<lparr>mg_registry := rg\<rparr>) = same_names m m'"
  "same_names (drop_reservations rs m) m' = same_names m m'" "same_names (m\<lparr>mg_capacity := cap\<rparr>) m' = same_names m m'"
  by (simp_all add: same_names_def drop_reservation_def)

lemma same_names_trans: "same_names m m1 \<Longrightarrow> same_names m1 m2 \<Longrightarrow> same_names m m2"
  by (simp add: same_names_def)

text \<open>Everything the ledger sees of an application but its tasks.\<close>

definition same_places :: "app_state \<Rightarrow> app_state \<Rightarrow> bool" where
  "same_places st st' \<longleftrightarrow> as_tickets st' = as_tickets st
     \<and> mg_capacity (as_sessions st') = mg_capacity (as_sessions st)
     \<and> mg_registry (as_sessions st') = mg_registry (as_sessions st)
     \<and> same_names (as_sessions st) (as_sessions st')"

interpretation places: state_relation "\<lambda>_. same_places"
proof unfold_locales
  fix lib env category reason who t remote resp st st1 r st'
  assume "deny_with lib env category reason who t remote resp st1 = (r, st')" "same_places st st1"
  then show "same_places st st'"
    using deny_with_cases [of lib env category reason who t remote resp st1 r st']
    by (auto simp: same_places_def set_app_audit_def same_names_def)
next
  fix lib env ctx who st st1 r st'
  assume "record_authentication_success lib env ctx who st1 = (r, st')" "same_places st st1"
  then show "same_places st st'"
    by (auto simp: record_authentication_success_def same_places_def set_app_audit_def same_names_def
      split: option.splits sum.splits prod.splits)
qed (simp_all add: same_places_def same_names_def)

section \<open>Session requests\<close>

text \<open>What a session request up to its reservation does to the ledger: it takes a place for the
  identity and target it then holds, or none.\<close>

definition request_effect :: "app_state \<Rightarrow> (response + taken_place) \<Rightarrow> app_state \<Rightarrow> bool" where
  "request_effect st res st' \<longleftrightarrow>
     as_tickets st' = as_tickets st \<and> mg_registry (as_sessions st') = mg_registry (as_sessions st)
     \<and> same_names (as_sessions st) (as_sessions st')
     \<and> (\<forall>requests M. case res of
          Inl _ \<Rightarrow> ledger_step\<^sup>*\<^sup>* (book (mg_capacity (as_sessions st)) requests M)
            (book (mg_capacity (as_sessions st')) requests M)
        | Inr (who, t, expiry, r) \<Rightarrow> r \<noteq> Reservation None
            \<and> ledger_step\<^sup>*\<^sup>* (book (mg_capacity (as_sessions st)) requests M)
                (book (mg_capacity (as_sessions st')) (requests @ [(who, t)]) (mset (reserved r who t False) + M)))"

lemma request_effect_places:
  "same_places st st1 \<Longrightarrow> request_effect st1 res st' \<Longrightarrow> request_effect st res st'"
  by (cases res) (auto simp: same_places_def request_effect_def intro: same_names_trans)

lemma request_effect_none: "same_places st st' \<Longrightarrow> request_effect st (Inl resp) st'"
  by (simp add: same_places_def request_effect_def)

lemma request_effect_denied:
  assumes "request_effect st (Inl resp) st1" "deny_with lib env category reason who t remote resp' st1 = (r, st')"
  shows "request_effect st (Inl r) st'"
  using assms(1) places.kept_denial [OF assms(2) places.kept_refl]
  by (auto simp: same_places_def request_effect_def intro: same_names_trans)

lemma reserve_step_ledger:
  assumes "manager_reserve n1 n2 who e (as_sessions st) = (res, m)"
  shows "request_effect st (case res of Inl _ \<Rightarrow> Inl resp | Inr r \<Rightarrow> Inr (who, t, e, r)) (st\<lparr>as_sessions := m\<rparr>)"
proof (cases "rg_shutting_down (mg_registry (as_sessions st))")
  case True
  with assms show ?thesis by (auto simp: manager_reserve_def request_effect_def)
next
  case False
  with assms obtain cap where r: "reserve_pending n1 n2 who e (mg_capacity (as_sessions st)) = (res, cap)"
    and m: "m = (as_sessions st)\<lparr>mg_capacity := cap\<rparr>"
    by (auto simp: manager_reserve_def split: prod.splits)
  show ?thesis
  proof (cases res)
    case (Inl err)
    with turn_away [of n1 n2 who e "book (mg_capacity (as_sessions st)) requests M" err cap for requests M] r m
    show ?thesis by (auto simp: request_effect_def)
  next
    case (Inr rv)
    with reserve_pending_result [OF r] obtain k where k: "rv = Reservation (Some k)" by auto
    with take [of n1 n2 who e "book (mg_capacity (as_sessions st)) requests M" k cap t for requests M] r m Inr
    show ?thesis by (auto simp: request_effect_def)
  qed
qed

lemma reserve_piece_effect:
  assumes "reserve_piece lib env who t remote st = (res, st')"
  shows "request_effect st res st'"
proof -
  obtain r m where m: "manager_reserve (fst (he_reserve_now env)) (snd (he_reserve_now env)) who
      (next_expiry (he_expiry_now env) (as_tickets st)) (as_sessions st) = (r, m)" by fastforce
  note effect = reserve_step_ledger [OF m]
  show ?thesis
  proof (cases r)
    case (Inl e)
    with effect have none: "request_effect st (Inl resp) (st\<lparr>as_sessions := m\<rparr>)" for resp by simp
    from assms m Inl none request_effect_denied [OF none] show ?thesis
      by (cases e) (auto simp: reserve_piece_def Let_def answer_def split: prod.splits)
  next
    case (Inr rv)
    with assms m effect show ?thesis by (auto simp: reserve_piece_def Let_def)
  qed
qed

lemma denied_effect:
  "answer (deny_with lib env category reason who t remote resp st1) = (res, st') \<Longrightarrow> same_places st st1 \<Longrightarrow>
   request_effect st res st'"
  by (auto simp: answer_def split: prod.splits intro: request_effect_none dest: places.kept_denial)

lemma resolve_piece_effect: "resolve_piece lib env rq who remote st = (res, st') \<Longrightarrow> request_effect st res st'"
  by (auto simp: resolve_piece_def intro: request_effect_none reserve_piece_effect denied_effect
    split: if_splits sum.splits)

section \<open>Tickets\<close>

abbreviation ticket_stakes :: "ticket_store \<Rightarrow> stake multiset" where
  "ticket_stakes tickets \<equiv> mset (concat (map entry_stakes (hm_values (ts_entries tickets))))"

lemma values_size: "length (hm_values m) = hm_len m"
  by (simp add: hm_values_def hm_len_def)

lemma stakes_multiset: "mset (concat (map f xs)) = (\<Sum>x \<in># mset xs. mset (f x))"
  by (induction xs) simp_all

lemma stakes_eq: "mset xs = mset ys \<Longrightarrow> mset (concat (map f xs)) = mset (concat (map f ys))"
  by (simp add: stakes_multiset)

text \<open>Issuing: the entries before and the new one are the entries after and the ones whose reservations
  are dropped.\<close>

lemma issue_at_entries:
  assumes "issue_at encode gen clk now e st = (res, dropped, st')" "hm_wf (ts_entries st)"
  shows "\<exists>gone. map tk_reservation gone = dropped \<and> hm_wf (ts_entries st') \<and>
    mset (hm_values (ts_entries st)) + {#e#} = mset (hm_values (ts_entries st')) + mset gone"
proof -
  let ?P = "\<lambda>x. tk_expires_at x > now"
  define m where "m = hm_retain (\<lambda>_ x. ?P x) (ts_entries st)"
  define old where "old = hm_values (hm_retain (\<lambda>_ x. \<not> ?P x) (ts_entries st))"
  have all: "mset (hm_values (ts_entries st)) = mset (hm_values m) + mset old"
    by (simp add: m_def old_def values_retain)
  have wf: "hm_wf m" using assms(2) by (simp add: m_def hm.wf_retain)
  obtain r m' where a: "issue_attempts encode gen clk e 0 4 m = (r, m')" by fastforce
  show ?thesis
  proof (cases "tk_expires_at e \<le> now")
    case True
    with assms show ?thesis by (auto simp: issue_at_def intro: exI [of _ "[e]"])
  next
    case ahead: False
    show ?thesis
    proof (cases "ts_capacity st \<le> hm_len m \<or> \<not> is_ok r")
      case True
      then have "dropped = held (hm_retain (\<lambda>_ x. \<not> ?P x) (ts_entries st)) @ [tk_reservation e]" "ts_entries st' = m"
        using assms(1) ahead a issue_attempts_result [OF a]
        by (auto simp: issue_at_def Let_def m_def [symmetric] split: if_splits sum.splits)
      with all wf show ?thesis
        by (intro exI [of _ "old @ [e]"]) (simp add: held_def old_def)
    next
      case False
      then obtain token where "r = Inr token" by (cases r) auto
      with False ahead have "dropped = held (hm_retain (\<lambda>_ x. \<not> ?P x) (ts_entries st))"
        "ts_entries st' = hm_insert token e m" "hm_get m token = None"
        using assms(1) a issue_attempts_result [OF a]
        by (auto simp: issue_at_def Let_def m_def [symmetric] split: if_splits)
      with all wf show ?thesis
        by (intro exI [of _ old]) (simp add: held_def old_def values_insert_new hm.wf_put)
    qed
  qed
qed

lemma issue_ticket_effect:
  assumes issue: "issue_ticket lib env who t remote expiry r st = (resp, st')"
    and wf: "hm_wf (ts_entries (as_tickets st))"
  shows "hm_wf (ts_entries (as_tickets st')) \<and> mg_registry (as_sessions st') = mg_registry (as_sessions st)
    \<and> same_names (as_sessions st) (as_sessions st')
    \<and> set (held (ts_entries (as_tickets st'))) \<subseteq> insert r (set (held (ts_entries (as_tickets st))))
    \<and> hm_len (ts_entries (as_tickets st')) \<le> Suc (hm_len (ts_entries (as_tickets st)))
    \<and> ledger_step\<^sup>*\<^sup>*
        (book (mg_capacity (as_sessions st)) requests (ticket_stakes (as_tickets st) + (mset (reserved r who t False) + M)))
        (book (mg_capacity (as_sessions st')) requests (ticket_stakes (as_tickets st') + M))"
proof (cases "\<exists>log. mg_audit (as_sessions st) = Some log \<and> authority_guard log = Inr ()")
  case False
  with issue have "st' = st\<lparr>as_sessions := drop_reservation r (as_sessions st)\<rparr>"
    by (auto simp: issue_ticket_def split: option.splits sum.splits)
  with wf book_give_back [of "mg_capacity (as_sessions st)" requests r who t False "ticket_stakes (as_tickets st) + M"]
  show ?thesis by (auto simp: drop_reservation_def ac_simps)
next
  case True
  let ?e = "\<lparr>tk_identity = who, tk_target = t, tk_expires_at = expiry, tk_reservation = r\<rparr>"
  obtain issued dropped tks where i: "issue_at (sl_token lib) (\<lambda>i. os_generate (he_ticket_fill env i)) (he_ticket_clk env)
      (he_issue_now env) ?e (as_tickets st) = (issued, dropped, tks)"
    by (metis prod_cases3)
  from issue_at_entries [OF i wf] obtain gone where gone: "map tk_reservation gone = dropped" "hm_wf (ts_entries tks)"
    "mset (hm_values (ts_entries (as_tickets st))) + {#?e#} = mset (hm_values (ts_entries tks)) + mset gone" by blast
  let ?st = "st\<lparr>as_tickets := tks, as_sessions := drop_reservations dropped (as_sessions st)\<rparr>"
  have st': "same_places ?st st'"
    using issue True i by (auto simp: issue_ticket_def Let_def dest!: places.kept_denial [OF _ places.kept_refl]
      split: sum.splits ticket_error.splits)
  from gone(3) have "ticket_stakes (as_tickets st) + mset (reserved r who t False)
      = mset (concat (map entry_stakes gone)) + ticket_stakes tks"
    using stakes_eq [of "hm_values (ts_entries (as_tickets st)) @ [?e]" "hm_values (ts_entries tks) @ gone" entry_stakes]
    by (simp add: entry_stakes_def ac_simps)
  then have eq: "ticket_stakes (as_tickets st) + (mset (reserved r who t False) + M)
      = mset (concat (map entry_stakes gone)) + (ticket_stakes tks + M)"
    by (simp only: add.assoc [symmetric])
  have "ledger_step\<^sup>*\<^sup>*
        (book (mg_capacity (as_sessions st)) requests (ticket_stakes (as_tickets st) + (mset (reserved r who t False) + M)))
        (book (mg_capacity (as_sessions st')) requests (ticket_stakes (as_tickets st') + M))"
    unfolding eq using book_drops [of "as_sessions st" requests gone "ticket_stakes tks + M"] gone(1) st'
    by (simp add: same_places_def)
  moreover have "set (hm_values (ts_entries tks)) \<subseteq> insert ?e (set (hm_values (ts_entries (as_tickets st))))"
    using arg_cong [OF gone(3), of set_mset] by auto
  then have "set (held (ts_entries tks)) \<subseteq> insert r (set (held (ts_entries (as_tickets st))))"
    by (auto simp: held_def)
  moreover have "hm_len (ts_entries tks) \<le> Suc (hm_len (ts_entries (as_tickets st)))"
    using arg_cong [OF gone(3), of size] by (simp add: values_size)
  ultimately show ?thesis using gone(2) st' by (simp add: same_places_def)
qed

lemma redeem_entries:
  assumes "redeem ticket who now st = (res, dropped, st')" "hm_wf (ts_entries st)"
  shows "hm_wf (ts_entries st') \<and> (case res of
      Inl _ \<Rightarrow> \<exists>gone. map tk_reservation gone = dropped
        \<and> mset (hm_values (ts_entries st)) = mset (hm_values (ts_entries st')) + mset gone
    | Inr (t, r) \<Rightarrow> dropped = [] \<and> (\<exists>e. tk_identity e = who \<and> tk_target e = t \<and> tk_reservation e = r
        \<and> mset (hm_values (ts_entries st)) = mset (hm_values (ts_entries st')) + {#e#}))"
proof (cases "length ticket \<noteq> TOKEN_LENGTH \<or> \<not> list_all token_byte ticket \<or> hm_get (ts_entries st) ticket = None")
  case True
  with assms show ?thesis by (auto simp: redeem_def split: if_splits)
next
  case False
  then obtain e where e: "hm_get (ts_entries st) ticket = Some e" by blast
  note gone = values_remove [OF assms(2) e] hm.wf_del [OF assms(2), of ticket]
  show ?thesis
    using assms False e gone
    by (auto simp: redeem_def split: if_splits intro: exI [of _ "[e]"])
qed

section \<open>Upgrades\<close>

lemma on_log_frame:
  "on_log f m = (res, m') \<Longrightarrow>
   mg_capacity m' = mg_capacity m \<and> mg_registry m' = mg_registry m \<and> same_names m m'"
  by (auto simp: on_log_def split: option.splits prod.splits)

lemma redeem_piece_effect:
  assumes piece: "redeem_piece envelope libs env who remote tickets m = (res, tickets', m')"
    and wf: "hm_wf (ts_entries tickets)"
  shows "hm_wf (ts_entries tickets') \<and> mg_registry m' = mg_registry m \<and> same_names m m'
    \<and> set (held (ts_entries tickets')) \<subseteq> set (held (ts_entries tickets))
    \<and> hm_len (ts_entries tickets') + (if is_ok res then 1 else 0) \<le> hm_len (ts_entries tickets)
    \<and> (\<forall>t r. res = Inr (t, r) \<longrightarrow> r \<in> set (held (ts_entries tickets)))
    \<and> ledger_step\<^sup>*\<^sup>* (book (mg_capacity m) requests (ticket_stakes tickets + M))
        (book (mg_capacity m') requests
          (ticket_stakes tickets' + ((case res of Inl _ \<Rightarrow> {#} | Inr (t, r) \<Rightarrow> mset (reserved r who t False)) + M)))"
proof (cases "\<exists>msg ticket. await_handshake (ae_received env) = HandshakeGot msg \<and> parse_handshake envelope msg = Inr ticket")
  case False
  with piece wf on_log_frame show ?thesis
    by (fastforce simp: redeem_piece_def Let_def split: handshake.splits sum.splits handshake_error.splits prod.splits)
next
  case True
  then obtain msg ticket where msg: "await_handshake (ae_received env) = HandshakeGot msg"
    "parse_handshake envelope msg = Inr ticket" by blast
  obtain r0 dropped tks where red: "redeem ticket who (ae_now env) tickets = (r0, dropped, tks)" by (metis prod_cases3)
  note entries = redeem_entries [OF red wf]
  show ?thesis
  proof (cases r0)
    case (Inl e)
    with entries obtain gone where gone: "map tk_reservation gone = dropped" "hm_wf (ts_entries tks)"
      "mset (hm_values (ts_entries tickets)) = mset (hm_values (ts_entries tks)) + mset gone" by auto
    from piece msg red Inl have m': "tickets' = tks" "mg_capacity m' = mg_capacity (drop_reservations dropped m)"
      "mg_registry m' = mg_registry m" "same_names m m'" "\<exists>x. res = Inl x"
      by (auto simp: redeem_piece_def Let_def dest: on_log_frame split: prod.splits)
    from gone(3) have eq: "ticket_stakes tickets + M = mset (concat (map entry_stakes gone)) + (ticket_stakes tks + M)"
      using stakes_eq [of "hm_values (ts_entries tickets)" "hm_values (ts_entries tks) @ gone" entry_stakes]
      by (simp add: ac_simps)
    have "set (held (ts_entries tks)) \<subseteq> set (held (ts_entries tickets))"
      using arg_cong [OF gone(3), of set_mset] by (auto simp: held_def)
    moreover have "hm_len (ts_entries tks) \<le> hm_len (ts_entries tickets)"
      using arg_cong [OF gone(3), of size] by (simp add: values_size)
    ultimately show ?thesis using m' gone(1,2) book_drops [of m requests gone "ticket_stakes tks + M"]
      unfolding eq by auto
  next
    case (Inr g)
    obtain t r where g: "g = (t, r)" by fastforce
    with entries Inr obtain e where e: "tk_identity e = who" "tk_target e = t" "tk_reservation e = r" "dropped = []"
      "hm_wf (ts_entries tks)" "mset (hm_values (ts_entries tickets)) = mset (hm_values (ts_entries tks)) + {#e#}" by auto
    from piece msg red Inr g e have m': "tickets' = tks" "m' = m" "res = Inr (t, r)"
      by (auto simp: redeem_piece_def Let_def)
    have "ticket_stakes tickets = ticket_stakes tks + mset (reserved r who t False)"
      using stakes_eq [of "hm_values (ts_entries tickets)" "hm_values (ts_entries tks) @ [e]" entry_stakes] e
      by (simp add: entry_stakes_def)
    moreover have "set (hm_values (ts_entries tickets)) = insert e (set (hm_values (ts_entries tks)))"
      using arg_cong [OF e(6), of set_mset] by auto
    moreover have "Suc (hm_len (ts_entries tks)) = hm_len (ts_entries tickets)"
      using arg_cong [OF e(6), of size] by (simp add: values_size)
    ultimately show ?thesis using m' e(3,5) by (auto simp: held_def ac_simps)
  qed
qed

text \<open>A start that uses a reservation: the session it starts has the place, live; otherwise it is given
  back.\<close>

lemma start_reserved_effect:
  assumes start: "start_reserved_with_remote libs env r who tname dims remote m = (res, m')"
  shows "ledger_step\<^sup>*\<^sup>* (book (mg_capacity m) requests (mset (reserved r who t False) + M))
    (book (mg_capacity m') requests (case res of
       Some (Inr (i, cn)) \<Rightarrow> mset (reserved (cn_reservation cn) (cn_identity cn) t True) + M | _ \<Rightarrow> M))"
proof (cases "rg_shutting_down (mg_registry m) \<or> validate_resize dims \<noteq> Inr ()")
  case True
  with start have "res = Some (Inl ManagerClosed) \<or> (\<exists>e. res = Some (Inl e))" "m' = drop_reservation r m"
    by (auto simp: start_reserved_with_remote_def split: if_splits sum.splits)
  with book_give_back [of "mg_capacity m" requests r who t False M] show ?thesis
    by (auto simp: drop_reservation_def)
next
  case False
  obtain a cap where act: "activate (be_now env) r who (mg_capacity m) = (a, cap)" by fastforce
  note live = book_activate [OF act, of requests t False M]
  show ?thesis
  proof (cases a)
    case (Inl e)
    with start False act live show ?thesis by (auto simp: start_reserved_with_remote_def)
  next
    case (Inr r')
    from start False act Inr have "start_resolved libs env who tname dims r' remote (m\<lparr>mg_capacity := cap\<rparr>) = (res, m')"
      by (simp add: start_reserved_with_remote_def)
    with start_resolved_frame [where libs = libs and env = env and who = who and tname = tname
      and dims = dims and r = r' and remote = remote and m = "m\<lparr>mg_capacity := cap\<rparr>"]
    have "case res of Some (Inr (i, cn)) \<Rightarrow> mg_capacity m' = cap \<and> cn_reservation cn = r' \<and> cn_identity cn = who
      | _ \<Rightarrow> mg_capacity m' = reservation_drop r' cap"
      by (auto split: option.splits sum.splits prod.splits)
    with live Inr book_give_back [of cap requests r' who t True M] show ?thesis
      by (auto split: option.splits sum.splits prod.splits)
  qed
qed

lemma accept_redeemed_effect:
  assumes accept: "accept_redeemed libs env who remote (t, r) m = (res, m')"
  shows "ledger_step\<^sup>*\<^sup>* (book (mg_capacity m) requests (mset (reserved r who t False) + M))
    (book (mg_capacity m') requests (case res of
       AcceptStarting t' i cn \<Rightarrow> mset (reserved (cn_reservation cn) (cn_identity cn) t True) + M | _ \<Rightarrow> M))"
proof -
  have supported: "supports_redeemed_target t" by (simp add: supports_redeemed_target_def split: target.split)
  obtain a m1 where start: "start_reserved_with_remote libs (ae_start env) r who (target_name t) INITIAL_SIZE remote m = (a, m1)"
    by fastforce
  show ?thesis
  proof (cases "\<exists>i cn. a = Some (Inr (i, cn))")
    case True
    with accept start supported start_reserved_effect [OF start, of requests t M] show ?thesis
      by (auto simp: accept_redeemed_def)
  next
    case False
    with accept start supported have "mg_capacity m' = mg_capacity m1" "\<nexists>t' i cn. res = AcceptStarting t' i cn"
      by (auto simp: accept_redeemed_def accept_failed_def on_log_def told_if_def
        split: option.splits sum.splits prod.splits if_splits)
    with False start_reserved_effect [OF start, of requests t M] show ?thesis
      by (auto split: accept_result.splits option.splits sum.splits)
  qed
qed

lemma start_resolved_names:
  "start_resolved libs env who tname dims r remote m = (res, m') \<Longrightarrow> same_names m m'"
  by (auto simp: start_resolved_def start_admitted_def record_backend_resolution_denial_def record_denial_def
    split: sum.splits option.splits prod.splits if_splits)

lemma start_reserved_names:
  "start_reserved_with_remote libs env r who tname dims remote m = (res, m') \<Longrightarrow> same_names m m'"
  by (auto simp: start_reserved_with_remote_def dest!: start_resolved_names split: if_splits sum.splits prod.splits)

lemma accept_redeemed_names: "accept_redeemed libs env who remote g m = (res, m') \<Longrightarrow> same_names m m'"
  by (auto simp: accept_redeemed_def dest!: start_reserved_names on_log_frame
    intro: same_names_trans split: if_splits sum.splits option.splits prod.splits)

section \<open>The invariant of the tasks\<close>

text \<open>Targets and prepared targets are found by their own names.\<close>

definition names_ok :: "session_manager \<Rightarrow> bool" where
  "names_ok m \<longleftrightarrow> (\<forall>n t. allowlist_resolve (mg_targets m) n = Inr t \<longrightarrow> target_name t = n)
     \<and> (\<forall>n p. hm_get (mg_prepared m) n = Some p \<longrightarrow> pr_name p = n)"

lemma names_okD:
  "allowlist_resolve (mg_targets m) n = Inr t \<Longrightarrow> names_ok m \<Longrightarrow> target_name t = n"
  "hm_get (mg_prepared m) n = Some p \<Longrightarrow> names_ok m \<Longrightarrow> pr_name p = n"
  by (simp_all add: names_ok_def)

lemma names_ok_same: "names_ok m \<Longrightarrow> same_names m m' \<Longrightarrow> names_ok m'"
  by (simp add: names_ok_def same_names_def)

fun task_ok :: "app_task \<Rightarrow> bool" where
  "task_ok (Admitted rq who) \<longleftrightarrow> True"
| "task_ok (Requesting remote who t expiry r) \<longleftrightarrow> r \<noteq> Reservation None"
| "task_ok (Handshaking who remote) \<longleftrightarrow> True"
| "task_ok (Attaching who remote t r) \<longleftrightarrow> r \<noteq> Reservation None"
| "task_ok (Connecting i t cn) \<longleftrightarrow> cn_reservation cn \<noteq> Reservation None
     \<and> (\<exists>pid. cn_child cn = new_child pid) \<and> cn_target_name cn = target_name t"
| "task_ok (Answering who remote t e) \<longleftrightarrow> True"
| "task_ok (Running i t su) \<longleftrightarrow> su_reservation su \<noteq> Reservation None
     \<and> child_inv (su_child su) \<and> su_state su = started_machine \<and> su_target_name su = target_name t"

definition tasks_inv :: "application \<Rightarrow> bool" where
  "tasks_inv a \<longleftrightarrow> hm_wf (ts_entries (as_tickets (ap_state a)))
     \<and> Reservation None \<notin> set (held (ts_entries (as_tickets (ap_state a))))
     \<and> names_ok (as_sessions (ap_state a)) \<and> list_all task_ok (ap_tasks a)"

lemma backend_spawned_child:
  "backend_spawned env b dims = Some (Inr (child, c)) \<Longrightarrow> \<exists>pid. child = new_child pid"
  by (auto simp: backend_spawned_def spawn_def ssh_spawn_def spawn_ssh_def map_ok_def map_err_def and_then_def
    split: backend_spawn.splits sum.splits option.splits)

lemma resolve_backend_name:
  "resolve_backend_target env m who n = Inr b \<Longrightarrow> names_ok m \<Longrightarrow> bs_target_name b = n"
  by (auto simp: resolve_backend_target_def and_then_def ok_or_def dest!: names_okD
    split: sum.splits target.splits option.splits)

lemma started_task_ok:
  assumes accept: "accept_redeemed libs env who remote (t, r) m = (AcceptStarting t' i cn, m')"
    and r: "r \<noteq> Reservation None" and names: "names_ok m"
  shows "t' = t \<and> task_ok (Connecting i t' cn)"
proof -
  note start = accept_redeemed_started [OF accept]
  from start_reserved_started [OF conjunct2 [OF start]] obtain b where
    "resolve_backend_target (ae_start env) m who (target_name t') = Inr b"
    "backend_spawned (ae_start env) (bs_spawn b) INITIAL_SIZE = Some (Inr (cn_child cn, cn_classifier cn))"
    "cn_target_name cn = bs_target_name b" "cn_reservation cn = r" by auto
  with start r names show ?thesis by (auto dest: backend_spawned_child resolve_backend_name)
qed

lemma handed_over_ok:
  assumes run: "run_connecting libs env cn audit cap = ConnectingHandedOver su sn audit' cap'"
    and ok: "task_ok (Connecting i t cn)"
  shows "cap' = cap \<and> su_reservation su = cn_reservation cn \<and> su_identity su = cn_identity cn \<and> task_ok (Running i t su)"
proof -
  from handed_over [OF run] obtain c persistent where
    sel: "connecting_select (cn_classifier cn) (ce_polls env) (cn_child cn) = (ConnAuthenticated, c)"
    and su: "su = new_supervisor env cn c persistent" "cap' = cap" by blast
  from ok obtain pid where "cn_child cn = new_child pid" by auto
  with connecting_select_inv [OF new_child_inv, of "cn_classifier cn" "ce_polls env" pid] sel
  have "child_inv c" by simp
  with su ok show ?thesis by (simp add: new_supervisor_def)
qed

lemma connecting_refused_capacity:
  "run_connecting libs env cn audit cap = ConnectingRefused reply events c audit' cap' \<Longrightarrow>
   cap' = reservation_drop (cn_reservation cn) cap"
  by (auto simp: run_connecting_def refuse_after_cleanup_def recover_unwind_def
    split: prod.splits connecting_outcome.splits sum.splits option.splits)

lemma supervise_ended_capacity:
  "supervise libs env su audit cap = SuperviseEnded su' audit' cap' \<Longrightarrow>
   cap' = reservation_drop (su_reservation su) cap"
  by (auto simp: supervise_def complete_supervisor_def Let_def split: prod.splits option.splits sum.splits)

section \<open>The application implements the ledger\<close>

text \<open>A piece of one task, seen with whatever the other tasks hold.\<close>

lemma task_step:
  assumes tasks: "ap_tasks a = xs @ task # ys"
    and piece: "\<And>M. ledger_step\<^sup>*\<^sup>*
      (book (mg_capacity (as_sessions (ap_state a))) (ap_requests a)
        (ticket_stakes (as_tickets (ap_state a)) + (mset (task_stakes task) + M)))
      (book (mg_capacity (as_sessions st)) (ap_requests a) (ticket_stakes (as_tickets st) + (mset (concat (map task_stakes new)) + M)))"
  shows "ledger_step\<^sup>*\<^sup>* (ledger_of a) (ledger_of (a\<lparr>ap_state := st, ap_tasks := xs @ new @ ys\<rparr>))"
  using piece [of "mset (concat (map task_stakes (xs @ ys)))"]
  by (simp add: ledger_of_def tasks stakes_of_def ac_simps)

lemma request_step_inv:
  assumes "request_step lib a a'" "tasks_inv a"
  shows "tasks_inv a'"
  using assms
proof (cases rule: request_step.cases)
  case (other_request ep env rq resp st)
  from places.kept_other [OF other_request(2,3)] assms(2) show ?thesis
    by (auto simp: other_request(1) tasks_inv_def same_places_def upgraded_def intro: names_ok_same split: http_body.split)
next
  case (request_answered env rq resp st)
  from places.kept_session_request [OF request_answered(2)] assms(2) show ?thesis
    by (auto simp: request_answered(1) tasks_inv_def same_places_def intro: names_ok_same)
next
  case (request_admitted env rq who st)
  from places.kept_session_request [OF request_admitted(2)] assms(2) show ?thesis
    by (auto simp: request_admitted(1) tasks_inv_def same_places_def intro: names_ok_same)
next
  case (request_gone xs rq who ys)
  with assms(2) show ?thesis by (auto simp: tasks_inv_def)
next
  case (request_refused xs rq who ys env resp st)
  from resolve_piece_effect [OF request_refused(3)] request_refused(1,2) assms(2) show ?thesis
    by (auto simp: tasks_inv_def request_effect_def intro: names_ok_same)
next
  case (request_reserved xs rq who ys env who' t expiry r st)
  from resolve_piece_effect [OF request_reserved(3)] request_reserved(1,2) assms(2) show ?thesis
    by (auto simp: tasks_inv_def request_effect_def intro: names_ok_same)
next
  case (request_finished xs remote who t expiry r ys env resp st)
  with assms(2) issue_ticket_effect [OF request_finished(3)] show ?thesis
    by (auto simp: tasks_inv_def intro: names_ok_same)
qed

lemma answering_tasks [simp]:
  "list_all task_ok (answering reply cn t)" "concat (map task_stakes (answering reply cn t)) = []"
  by (cases reply; simp add: answering_def)+

lemma upgrade_step_inv:
  assumes "upgrade_step lib envelope a a'" "tasks_inv a"
  shows "tasks_inv a'"
  using assms
proof (cases rule: upgrade_step.cases)
  case (upgrade_refused xs who remote ys aenv res tickets m)
  with assms(2) redeem_piece_effect [OF upgrade_refused(3)] show ?thesis
    by (auto simp: tasks_inv_def intro: names_ok_same)
next
  case (upgrade_redeemed xs who remote ys aenv t r tickets m)
  with assms(2) redeem_piece_effect [OF upgrade_redeemed(3)] show ?thesis
    by (auto simp: tasks_inv_def intro: names_ok_same)
next
  case (attach_failed xs who remote t r ys aenv res m)
  with assms(2) accept_redeemed_names [OF attach_failed(3)] show ?thesis
    by (auto simp: tasks_inv_def intro: names_ok_same)
next
  case (attach_started xs who remote t r ys aenv t' i cn m)
  with assms(2) have "r \<noteq> Reservation None" "names_ok (as_sessions (ap_state a))" by (auto simp: tasks_inv_def)
  from started_task_ok [OF attach_started(3) this] attach_started assms(2) accept_redeemed_names [OF attach_started(3)]
  show ?thesis by (auto simp: tasks_inv_def intro: names_ok_same simp del: task_ok.simps(5))
next
  case (upgrade_answered xs who remote t e ys ans res m)
  with assms(2) on_log_frame [OF upgrade_answered(3)] show ?thesis
    by (auto simp: tasks_inv_def intro: names_ok_same)
qed

lemma session_step_inv:
  assumes "session_step lib a a'" "tasks_inv a"
  shows "tasks_inv a'"
  using assms
proof (cases rule: session_step.cases)
  case (connection_refused xs i t cn ys cenv reply events c audit cap)
  with assms(2) show ?thesis by (auto simp: tasks_inv_def task_ended_def on_registry_def store_places_def names_ok_def)
next
  case (connection_admitted xs i t cn ys cenv su sn audit cap)
  with assms(2) have "task_ok (Connecting i t cn)" by (auto simp: tasks_inv_def)
  from handed_over_ok [OF connection_admitted(3) this] connection_admitted assms(2) show ?thesis
    by (auto simp: tasks_inv_def store_places_def names_ok_def)
next
  case (session_ended xs i t su ys senv su' audit cap)
  with assms(2) show ?thesis by (auto simp: tasks_inv_def task_ended_def on_registry_def store_places_def names_ok_def)
next
  case (close_requested i reason)
  with assms(2) show ?thesis by (auto simp: tasks_inv_def on_registry_def names_ok_def)
next
  case shutdown_marked
  with assms(2) show ?thesis by (auto simp: tasks_inv_def mark_shutdown_def on_registry_def store_places_def names_ok_def)
qed

lemma app_step_inv: "app_step lib envelope a a' \<Longrightarrow> tasks_inv a \<Longrightarrow> tasks_inv a'"
  by (auto elim!: app_step.cases intro: request_step_inv upgrade_step_inv session_step_inv)

lemma registry_places [simp]:
  "as_tickets (on_registry f st) = as_tickets st"
  "mg_capacity (as_sessions (on_registry f st)) = mg_capacity (as_sessions st)"
  "as_tickets (store_places audit cap st) = as_tickets st"
  "mg_capacity (as_sessions (store_places audit cap st)) = cap"
  by (simp_all add: on_registry_def store_places_def)

lemma upgraded_stakes [simp]: "concat (map task_stakes (upgraded resp)) = []"
  by (cases "rs_body resp") (simp_all add: upgraded_def)

text \<open>The end of a task that held a live place.\<close>

lemma ended_task_step:
  assumes "ap_tasks a = xs @ task # ys" "task_stakes task = reserved r who t True"
    and "cap = reservation_drop r (mg_capacity (as_sessions (ap_state a)))" "concat (map task_stakes zs) = []"
  shows "ledger_step\<^sup>*\<^sup>* (ledger_of a)
    (ledger_of (a\<lparr>ap_state := task_ended i audit cap (ap_state a), ap_tasks := xs @ zs @ ys, ap_missed := missed\<rparr>))"
  using task_step [OF assms(1), of "task_ended i audit cap (ap_state a)" zs]
    book_give_back [of "mg_capacity (as_sessions (ap_state a))" "ap_requests a" r who t True
      "ticket_stakes (as_tickets (ap_state a)) + M" for M]
  by (simp add: assms(2,3,4) task_ended_def ledger_of_def ac_simps)

lemma request_step_ledger:
  assumes "request_step lib a a'" "tasks_inv a"
  shows "ledger_step\<^sup>*\<^sup>* (ledger_of a) (ledger_of a')"
  using assms(1)
proof (cases rule: request_step.cases)
  case (other_request ep env rq resp st)
  from places.kept_other [OF other_request(2,3)] show ?thesis
    by (simp add: other_request(1) ledger_of_def stakes_of_def same_places_def)
next
  case (request_answered env rq resp st)
  from places.kept_session_request [OF request_answered(2)] show ?thesis
    by (simp add: request_answered(1) ledger_of_def stakes_of_def same_places_def)
next
  case (request_admitted env rq who st)
  from places.kept_session_request [OF request_admitted(2)] show ?thesis
    by (simp add: request_admitted(1) ledger_of_def stakes_of_def same_places_def)
next
  case (request_gone xs rq who ys)
  then show ?thesis by (simp add: ledger_of_def stakes_of_def)
next
  case (request_refused xs rq who ys env resp st)
  from resolve_piece_effect [OF request_refused(3)] request_refused(1,2) show ?thesis
    by (simp add: ledger_of_def stakes_of_def request_effect_def)
next
  case (request_reserved xs rq who ys env who' t expiry r st)
  from resolve_piece_effect [OF request_reserved(3)]
  have "as_tickets st = as_tickets (ap_state a)" "ledger_step\<^sup>*\<^sup>*
      (book (mg_capacity (as_sessions (ap_state a))) (ap_requests a) (stakes_of (ap_state a) (ap_tasks a)))
      (book (mg_capacity (as_sessions st)) (ap_requests a @ [(who', t)])
        (mset (reserved r who' t False) + stakes_of (ap_state a) (ap_tasks a)))"
    by (simp_all add: request_effect_def)
  then show ?thesis by (simp add: request_reserved(1,2) ledger_of_def stakes_of_def ac_simps)
next
  case (request_finished xs remote who t expiry r ys env resp st)
  from assms(2) have wf: "hm_wf (ts_entries (as_tickets (ap_state a)))" by (simp add: tasks_inv_def)
  from task_step [OF request_finished(2), of st "[]"] issue_ticket_effect [OF request_finished(3) wf]
  show ?thesis by (simp add: request_finished(1))
qed

lemma upgrade_step_ledger:
  assumes "upgrade_step lib envelope a a'" "tasks_inv a"
  shows "ledger_step\<^sup>*\<^sup>* (ledger_of a) (ledger_of a')"
  using assms(1)
proof (cases rule: upgrade_step.cases)
  case (upgrade_refused xs who remote ys aenv res tickets m)
  from assms(2) have wf: "hm_wf (ts_entries (as_tickets (ap_state a)))" by (simp add: tasks_inv_def)
  from task_step [OF upgrade_refused(2), of "(ap_state a)\<lparr>as_tickets := tickets, as_sessions := m\<rparr>" "[]"]
    redeem_piece_effect [OF upgrade_refused(3) wf]
  show ?thesis by (simp add: upgrade_refused(1))
next
  case (upgrade_redeemed xs who remote ys aenv t r tickets m)
  from assms(2) have wf: "hm_wf (ts_entries (as_tickets (ap_state a)))" by (simp add: tasks_inv_def)
  from task_step [OF upgrade_redeemed(2), of "(ap_state a)\<lparr>as_tickets := tickets, as_sessions := m\<rparr>" "[Attaching who remote t r]"]
    redeem_piece_effect [OF upgrade_redeemed(3) wf]
  show ?thesis by (simp add: upgrade_redeemed(1))
next
  case (attach_failed xs who remote t r ys aenv res m)
  then have "(case res of AcceptStarting t' i cn \<Rightarrow> X t' i cn | _ \<Rightarrow> N) = N" for X and N :: "stake multiset"
    by (cases res) auto
  with task_step [OF attach_failed(2), of "(ap_state a)\<lparr>as_sessions := m\<rparr>" "[]"]
    accept_redeemed_effect [OF attach_failed(3), of "ap_requests a" "ticket_stakes (as_tickets (ap_state a)) + M" for M]
  show ?thesis by (simp add: attach_failed(1) ac_simps)
next
  case (attach_started xs who remote t r ys aenv t' i cn m)
  have "t' = t" using accept_redeemed_started [OF attach_started(3)] by simp
  with task_step [OF attach_started(2), of "(ap_state a)\<lparr>as_sessions := m\<rparr>" "[Connecting i t' cn]"]
    accept_redeemed_effect [OF attach_started(3), of "ap_requests a" "ticket_stakes (as_tickets (ap_state a)) + M" for M]
  show ?thesis by (simp add: attach_started(1) ac_simps)
next
  case (upgrade_answered xs who remote t e ys ans res m)
  with on_log_frame [OF upgrade_answered(3)] show ?thesis by (simp add: ledger_of_def stakes_of_def)
qed

lemma session_step_ledger:
  assumes "session_step lib a a'" "tasks_inv a"
  shows "ledger_step\<^sup>*\<^sup>* (ledger_of a) (ledger_of a')"
  using assms(1)
proof (cases rule: session_step.cases)
  case (connection_refused xs i t cn ys cenv reply events c audit cap)
  from ended_task_step [OF connection_refused(2) _ connecting_refused_capacity [OF connection_refused(3)],
    where zs = "answering reply cn t"]
  show ?thesis by (simp add: connection_refused(1))
next
  case (connection_admitted xs i t cn ys cenv su sn audit cap)
  with assms(2) have "task_ok (Connecting i t cn)" by (auto simp: tasks_inv_def)
  from handed_over_ok [OF connection_admitted(3) this] connection_admitted(1,2) show ?thesis
    by (simp add: ledger_of_def stakes_of_def)
next
  case (session_ended xs i t su ys senv su' audit cap)
  from ended_task_step [OF session_ended(2) _ supervise_ended_capacity [OF session_ended(3)], where zs = "[]"]
  show ?thesis by (simp add: session_ended(1))
next
  case (close_requested i reason)
  then show ?thesis by (simp add: ledger_of_def stakes_of_def)
next
  case shutdown_marked
  with close [of "ledger_of a"] show ?thesis by (auto simp: ledger_of_def stakes_of_def mark_shutdown_def)
qed

lemma app_step_ledger:
  "app_step lib envelope a a' \<Longrightarrow> tasks_inv a \<Longrightarrow> ledger_step\<^sup>*\<^sup>* (ledger_of a) (ledger_of a')"
  by (elim app_step.cases) (auto intro: request_step_ledger upgrade_step_ledger session_step_ledger)

interpretation app: forward_simulation "app_step lib envelope" ledger_step ledger_of tasks_inv for lib envelope
  by unfold_locales (auto intro: app_step_inv app_step_ledger)

text \<open>What holds of every application that runs from a fresh start.\<close>

definition app_reachable :: "server_lib \<Rightarrow> (bytes \<Rightarrow> unit + string) \<Rightarrow> limits \<Rightarrow> application \<Rightarrow> bool" where
  "app_reachable lib envelope l a \<longleftrightarrow> (\<exists>a0. fresh_application l a0 \<and> names_ok (as_sessions (ap_state a0))
     \<and> (app_step lib envelope)\<^sup>*\<^sup>* a0 a)"

lemma fresh_inv:
  assumes "fresh_application l a" "names_ok (as_sessions (ap_state a))"
  shows "tasks_inv a" "ledger_of a = ledger_new l"
  using assms
  by (simp_all add: fresh_application_def tasks_inv_def ledger_of_def ledger_new_def stakes_of_def held_def hm_values_def)

lemma reachable_run:
  assumes "app_reachable lib envelope l a"
  shows "ledger_step\<^sup>*\<^sup>* (ledger_new l) (ledger_of a)"
proof -
  from assms obtain a0 where a0: "fresh_application l a0" "names_ok (as_sessions (ap_state a0))"
    and run: "(app_step lib envelope)\<^sup>*\<^sup>* a0 a" by (auto simp: app_reachable_def)
  from app.run_simulates [OF run fresh_inv(1) [OF a0]] show ?thesis by (simp add: fresh_inv(2) [OF a0])
qed

lemma reachable_inv:
  assumes "app_reachable lib envelope l a"
  shows "tasks_inv a" "length (ap_requests a) \<le> 2 ^ 64 \<Longrightarrow> ledger_inv l (ledger_of a)"
proof -
  from assms obtain a0 where a0: "fresh_application l a0" "names_ok (as_sessions (ap_state a0))"
    and run: "(app_step lib envelope)\<^sup>*\<^sup>* a0 a" by (auto simp: app_reachable_def)
  from app.run_simulates [OF run fresh_inv(1) [OF a0]] show "tasks_inv a" ..
  from ledger_run_inv [OF reachable_run [OF assms] ledger_new_inv]
  show "ledger_inv l (ledger_of a)" if "length (ap_requests a) \<le> 2 ^ 64"
    using that by (simp add: ledger_of_def)
qed

end
