(* ===== verification/Application_Demo.thy ===== *)
theory Application_Demo
  imports Application_Safety
begin

text \<open>
  A run of the application, step by step: a client upgrades a socket, asks for a session of the terminal
  target, sends its ticket, and its session is started, admitted and running. The witnesses of the
  theorems about the whole application are taken from it.
\<close>

abbreviation alice :: identity where
  "alice \<equiv> Identity ''alice''"

definition demo_limiter :: "u64 \<Rightarrow> peer_key limiter" where
  "demo_limiter g = \<lparr>limit = 1, window = 10, rl_capacity = 2, next_generation = g, buckets = []\<rparr>"

definition demo_session_request :: request where
  "demo_session_request = demo_request ''http://localhost/''"

definition demo_upgrade_request :: request where
  "demo_upgrade_request = demo_session_request\<lparr>rq_upgrade := True\<rparr>"

lemma demo_limiter_cycle:
  "\<exists>attempt l. limiter_begin (demo_limiter g) 5 key = (Inr attempt, l) \<and> attempt_rollback l attempt = demo_limiter (g + 1)"
  by (simp add: limiter_defs demo_limiter_def hm_get_def hm_len_def hm_insert_def hm_remove_def Let_def
    attempt_rollback_def attempt_release_def attempt_drop_def)

lemma demo_authenticates:
  assumes "as_auth st = as_auth demo_app" "as_authentication_failures st = demo_limiter g"
    and "rq \<in> {demo_session_request, demo_upgrade_request}"
  shows "authenticate_limited demo_server_lib demo_http_env (auth_context_of rq)
      (single_cookie_header demo_server_lib (rq_headers rq)) st
    = (Inr alice, st\<lparr>as_authentication_failures := demo_limiter (g + 1)\<rparr>)"
proof -
  have "authenticate_session demo_sessions (Some (SESSION_COOKIE_NAME @ ''='' @ demo_token)) = Inr alice"
    using cookie_pair_authenticates [of demo_token demo_sessions] demo_token_shape
    by (simp add: token_shape_def demo_sessions_def hm_get_def)
  then have auth: "auth_authenticate (sl_config demo_server_lib) ctx (Some (SESSION_COOKIE_NAME @ ''='' @ demo_token))
      (as_auth st) = Inr alice" for ctx
    by (simp add: assms(1) demo_app_def auth_authenticate_def)
  have rq: "rq_headers rq = rq_headers (demo_request ''http://localhost/'')" "ac_peer_addr (auth_context_of rq) = None"
    using assms(3) by (auto simp: demo_session_request_def demo_upgrade_request_def auth_context_of_def demo_request_def)
  have now: "he_auth_now demo_http_env = 5" by (simp add: demo_http_env_def)
  obtain attempt l where "limiter_begin (demo_limiter g) 5 PeerMissing = (Inr attempt, l)"
    "attempt_rollback l attempt = demo_limiter (g + 1)" using demo_limiter_cycle by blast
  with auth show ?thesis
    by (simp add: authenticate_limited_def begin_authentication_attempt_def rq demo_headers now assms(2)
      rollback_authentication_def)
qed

lemma demo_app_parts:
  "as_auth demo_app = as_auth demo_app" "as_authentication_failures demo_app = demo_limiter 1"
  "app_audit_available demo_app" "sl_config demo_server_lib = demo_config_lib" "sl_audit demo_server_lib = demo_libs"
  by (simp_all add: demo_app_def demo_limiter_def new_limiter_def app_audit_available_def is_available_def
    from_writer_def demo_server_lib_def)

text \<open>After the upgrade's own request.\<close>

definition demo_upgraded :: app_state where
  "demo_upgraded = demo_app\<lparr>as_authentication_failures := demo_limiter 2\<rparr>"

lemma demo_upgrade_answer:
  "\<exists>resp. serve_request demo_server_lib demo_http_env EpWebSocket demo_upgrade_request demo_app = (resp, demo_upgraded)
    \<and> upgraded resp = [Handshaking alice None]"
proof -
  have rq: "rq_headers demo_upgrade_request = rq_headers (demo_request ''http://localhost/'')"
    "rq_upgrade demo_upgrade_request" "rq_query demo_upgrade_request = None"
    "ac_peer_addr (auth_context_of demo_upgrade_request) = None"
    "get_all (rq_headers (demo_request ''http://localhost/'')) ''sec-websocket-protocol'' = []"
    by (simp_all add: demo_upgrade_request_def demo_session_request_def demo_request_def auth_context_of_def get_all_def)
  from demo_authenticates [of demo_app 1 demo_upgrade_request] demo_app_parts
  have "authenticate_limited demo_server_lib demo_http_env (auth_context_of demo_upgrade_request)
      (single_cookie_header demo_server_lib (rq_headers demo_upgrade_request)) demo_app = (Inr alice, demo_upgraded)"
    by (simp add: demo_upgraded_def)
  then have "serve_request demo_server_lib demo_http_env EpWebSocket demo_upgrade_request demo_app
      = (response_of 101 (SwitchingProtocols alice None), demo_upgraded)"
    using demo_origin demo_app_parts
    by (simp add: serve_request_def authority_handler_def enforce_authority_origin_def upgrade_websocket_def
      rq demo_headers is_ok_def Let_def)
  then show ?thesis by (simp add: upgraded_def)
qed

definition demo_place :: "lease_state \<Rightarrow> capacity" where
  "demo_place s = \<lparr>cp_max_sessions = 2, cp_max_sessions_per_identity = 1, cp_next_id = 1, cp_closed = False,
     cp_leases = [(0, \<lparr>ls_identity = alice, ls_state = s\<rparr>)]\<rparr>"

definition demo_busy_manager :: session_manager where
  "demo_busy_manager = demo_manager\<lparr>mg_audit := Some demo_audit_log, mg_capacity := demo_place (Pending 15)\<rparr>"

lemma demo_place_taken:
  "\<exists>st st'. session_request_piece demo_server_lib demo_http_env demo_session_request demo_upgraded = (Inr alice, st)
    \<and> resolve_piece demo_server_lib demo_http_env demo_session_request alice None st
      = (Inr (alice, PtyTarget demo_pty, 15, Reservation (Some 0)), st')
    \<and> as_tickets st' = ticket_store_new 10 2 \<and> as_sessions st' = demo_busy_manager"
proof -
  let ?rq = demo_session_request
  obtain a l where l: "limiter_begin (new_limiter 1 10 2) 5 alice = (Inr a, l)"
    by (simp add: limiter_defs new_limiter_def hm_get_def hm_len_def Let_def)
  define st where "st = demo_upgraded\<lparr>as_authentication_failures := demo_limiter 3, as_session_requests := l\<rparr>"
  have parts: "as_auth demo_upgraded = as_auth demo_app" "as_authentication_failures demo_upgraded = demo_limiter 2"
    "as_session_requests demo_upgraded = new_limiter 1 10 2" "as_origin demo_upgraded = as_origin demo_app"
    "app_audit_available demo_upgraded" "as_tickets st = ticket_store_new 10 2" "as_targets st = demo_allowlist"
    "as_sessions st = demo_manager\<lparr>mg_audit := Some demo_audit_log\<rparr>"
    using demo_app_parts(3) by (simp_all add: demo_upgraded_def app_audit_available_def st_def) (simp_all add: demo_app_def)
  have env: "he_reserve_now demo_http_env = (5, 6)" "he_expiry_now demo_http_env = 5" "he_session_now demo_http_env = 5"
    by (simp_all add: demo_http_env_def)
  have "manager_reserve 5 6 alice 15 (as_sessions st) = (Inr (Reservation (Some 0)), demo_busy_manager)"
    by (simp add: parts manager_reserve_def demo_manager_simps registry_new_def reserve_pending_def
      reserve_with_state_def Let_def purge_expired_leases_def hm_retain_def hm_len_def lease_count_def hm_values_def
      demo_busy_manager_def demo_place_def hm_insert_def)
  then have "reserve_piece demo_server_lib demo_http_env alice (PtyTarget demo_pty) None st
      = (Inr (alice, PtyTarget demo_pty, 15, Reservation (Some 0)), st\<lparr>as_sessions := demo_busy_manager\<rparr>)"
    by (simp add: reserve_piece_def env parts next_expiry_def ticket_store_new_def Let_def)
  moreover have "is_json_request demo_server_lib ?rq"
    by (simp add: is_json_request_def demo_headers demo_session_request_def)
      (simp add: demo_server_lib_def eq_ignore_ascii_case_def trim_id is_ascii_def is_whitespace_def)
  moreover have "to_bytes ?rq MAX_SESSION_BODY = Inr ''b''" "ac_peer_addr (auth_context_of ?rq) = None"
    by (simp_all add: to_bytes_def demo_request_def demo_session_request_def MAX_SESSION_BODY_def auth_context_of_def)
  moreover have "allowlist_resolve demo_allowlist ''pty'' = Inr (PtyTarget demo_pty)" "sl_create demo_server_lib b = Inr ''pty''" for b
    by (simp_all add: allowlist_resolve_def demo_allowlist_def hm_get_def demo_server_lib_def)
  ultimately have "resolve_piece demo_server_lib demo_http_env ?rq alice None st
      = (Inr (alice, PtyTarget demo_pty, 15, Reservation (Some 0)), st\<lparr>as_sessions := demo_busy_manager\<rparr>)"
    by (simp add: resolve_piece_def parts)
  moreover have "authenticate_limited demo_server_lib demo_http_env (auth_context_of ?rq)
      (single_cookie_header demo_server_lib (rq_headers ?rq)) demo_upgraded
      = (Inr alice, demo_upgraded\<lparr>as_authentication_failures := demo_limiter 3\<rparr>)"
    using demo_authenticates [of demo_upgraded 2 ?rq] parts by simp
  then have "session_request_piece demo_server_lib demo_http_env ?rq demo_upgraded = (Inr alice, st)"
    using l demo_origin parts demo_app_parts \<open>ac_peer_addr (auth_context_of ?rq) = None\<close>
    by (simp add: session_request_piece_def authority_check_def admit_piece_def Let_def env st_def
      demo_headers demo_session_request_def is_ok_def)
  ultimately show ?thesis using parts by (intro exI [of _ st] exI [of _ "st\<lparr>as_sessions := demo_busy_manager\<rparr>"]) simp
qed

definition demo_ticket :: ticket_entry where
  "demo_ticket = \<lparr>tk_identity = alice, tk_target = PtyTarget demo_pty, tk_expires_at = 15,
     tk_reservation = Reservation (Some 0)\<rparr>"

lemma demo_ticket_stored:
  assumes "as_tickets st = ticket_store_new 10 2" "as_sessions st = demo_busy_manager"
  shows "issue_ticket demo_server_lib demo_http_env alice (PtyTarget demo_pty) None 15 (Reservation (Some 0)) st
    = (response_of 201 (TicketBody demo_token (presentation_of (PtyTarget demo_pty))),
       st\<lparr>as_tickets := (ticket_store_new 10 2)\<lparr>ts_entries := [(demo_token, demo_ticket)]\<rparr>\<rparr>)"
proof -
  have env: "he_issue_now demo_http_env = 7" "he_ticket_fill demo_http_env i = Inr []" "he_ticket_clk demo_http_env i = 8"
    "sl_token demo_server_lib b = demo_token" for i b
    by (simp_all add: demo_http_env_def demo_server_lib_def)
  have attempts: "issue_attempts enc (\<lambda>i. os_generate (he_ticket_fill demo_http_env i)) (he_ticket_clk demo_http_env)
      e 0 (Suc k) [] = (Inr (enc []), [(enc [], e)])" if "tk_expires_at e = 15" for e enc k
    using that by (simp add: env os_generate_def hm_get_def hm_insert_def Let_def)
  have "mg_audit demo_busy_manager = Some demo_audit_log" by (simp add: demo_busy_manager_def)
  with assms attempts [of demo_ticket "sl_token demo_server_lib" 3] show ?thesis
    by (simp add: issue_ticket_def authority_guard_def from_writer_def issue_at_def env ticket_store_new_def
      hm_retain_def held_def hm_values_def hm_len_def Let_def demo_ticket_def drop_reservations_def)
qed

lemma demo_ticket_redeemed:
  "redeem_piece demo_envelope demo_libs demo_accept_env alice None
     ((ticket_store_new 10 2)\<lparr>ts_entries := [(demo_token, demo_ticket)]\<rparr>) demo_busy_manager
   = (Inr (PtyTarget demo_pty, Reservation (Some 0)), ticket_store_new 10 2, demo_busy_manager)"
proof -
  have "redeem demo_token alice 5 ((ticket_store_new 10 2)\<lparr>ts_entries := [(demo_token, demo_ticket)]\<rparr>)
      = (Inr (PtyTarget demo_pty, Reservation (Some 0)), [], ticket_store_new 10 2)"
    by (simp add: redeem_def demo_ticket_def TOKEN_LENGTH_def hm_get_def hm_remove_def ticket_store_new_def)
      (simp add: demo_token_def token_byte_def ascii_defs list_all_iff)
  moreover have "ae_now demo_accept_env = 5" by (simp add: demo_accept_env_def)
  ultimately show ?thesis by (simp add: redeem_piece_def demo_handshake Let_def)
qed

lemma demo_attached:
  "\<exists>cn. accept_redeemed demo_libs demo_accept_env alice None (PtyTarget demo_pty, Reservation (Some 0)) demo_busy_manager
      = (AcceptStarting (PtyTarget demo_pty) 0 cn, demo_busy_manager\<lparr>mg_capacity := demo_place Live,
          mg_registry := snd (register_supervisor registry_new)\<rparr>)
    \<and> cn_classifier cn = None \<and> cn_identity cn = alice"
proof -
  have name: "pt_name demo_pty = ''pty''" by (simp add: demo_pty_def)
  have now: "ae_start demo_accept_env = demo_start_env" "be_now demo_start_env = 5"
    by (simp_all add: demo_accept_env_def demo_start_env_def)
  have manager: "mg_registry demo_busy_manager = registry_new" "mg_capacity demo_busy_manager = demo_place (Pending 15)"
    by (simp_all add: demo_busy_manager_def demo_manager_simps)
  have res: "resolve_backend_target demo_start_env demo_busy_manager who ''pty''
      = Inr \<lparr>bs_target_name = ''pty'', bs_read_only = True, bs_spawn = SpawnPty demo_pty\<rparr>" for who
  proof -
    have "mg_targets demo_busy_manager = mg_targets demo_manager" "mg_prepared demo_busy_manager = mg_prepared demo_manager"
      by (simp_all add: demo_busy_manager_def)
    then show ?thesis using demo_resolved [of who] by (simp only: resolve_backend_target_def)
  qed
  have admits: "\<not> rg_shutting_down registry_new" "rg_next_id registry_new = 0" by (simp_all add: registry_new_def)
  have act: "activate 5 (Reservation (Some 0)) alice (demo_place (Pending 15))
      = (Inr (Reservation (Some 0)), demo_place Live)"
    by (simp add: activate_def demo_place_def purge_expired_leases_def hm_retain_def hm_get_def hm_insert_def Let_def)
  show ?thesis
    by (simp add: accept_redeemed_def supports_redeemed_target_def name start_reserved_with_remote_def manager admits
      INITIAL_SIZE_def demo_validated_dims act now start_resolved_def res start_admitted_def demo_spawned
      register_supervisor_def)
qed

lemma demo_running:
  assumes "cn_classifier cn = None"
  shows "\<exists>su sn. run_connecting demo_libs demo_env_late cn (Some demo_audit_log) cap
    = ConnectingHandedOver su sn (Some demo_logged) cap \<and> su_identity su = cn_identity cn \<and> su_persistent su \<noteq> None"
proof -
  have "connecting_select (cn_classifier cn) (ce_polls demo_env_late) (cn_child cn) = (ConnAuthenticated, cn_child cn)"
    by (simp add: demo_env_late_def demo_connect_env_def demo_connect_poll_def admission_of_def assms)
  moreover obtain pa where "persistent_audit_start demo_libs demo_env_late cn (Some demo_audit_log)
      = (Inr (Some pa), Some demo_logged)"
    using demo_record [of "session_started (SessionId ''s'') (cn_identity cn)
      (ResolvedAuditTarget (cn_target_name cn)) (cn_remote cn) (AuditTimestamp ''t'')"]
    by (simp add: persistent_audit_start_def session_id_generate_def session_id_from_bytes_def
      from_system_time_def demo_libs_def demo_env_late_def demo_connect_env_def demo_answers_def)
  moreover have "ce_handoff_panic demo_env_late = None" by (simp add: demo_env_late_def demo_connect_env_def)
  ultimately show ?thesis by (simp add: run_connecting_def new_supervisor_def)
qed

abbreviation demo_limits :: limits where
  "demo_limits \<equiv> cn_limits demo_connecting"

lemma demo_fresh: "fresh_application demo_limits (at_rest demo_app)" "names_ok (as_sessions demo_app)"
  by (simp_all add: fresh_application_def names_ok_def demo_app_def ticket_store_new_def demo_manager_def
    manager_build_def allowlist_resolve_def demo_allowlist_def hm_get_def ok_or_def demo_pty_def demo_ssh_def
    split: option.splits if_splits)

abbreviation demo_steps :: "application \<Rightarrow> application \<Rightarrow> bool" where
  "demo_steps \<equiv> (app_step demo_server_lib demo_envelope)\<^sup>*\<^sup>*"

abbreviation demo_snapshot :: "app_state \<Rightarrow> app_task list \<Rightarrow> (identity \<times> target) list \<Rightarrow> application" where
  "demo_snapshot st tasks requests \<equiv> \<lparr>ap_state = st, ap_tasks = tasks, ap_requests = requests, ap_missed = []\<rparr>"

abbreviation demo_log_entry :: "(identity \<times> target) list" where
  "demo_log_entry \<equiv> [(alice, PtyTarget demo_pty)]"

abbreviation demo_step :: "application \<Rightarrow> application \<Rightarrow> bool" where
  "demo_step \<equiv> app_step demo_server_lib demo_envelope"

lemma demo_run_admitted:
  "demo_step (at_rest demo_app) (demo_snapshot demo_upgraded [Handshaking alice None] [])"
  "session_request_piece demo_server_lib demo_http_env demo_session_request demo_upgraded = (Inr alice, st) \<Longrightarrow>
   demo_step (demo_snapshot demo_upgraded [Handshaking alice None] [])
     (demo_snapshot st [Admitted demo_session_request alice, Handshaking alice None] [])"
proof -
  obtain resp where resp: "serve_request demo_server_lib demo_http_env EpWebSocket demo_upgrade_request demo_app = (resp, demo_upgraded)"
    "upgraded resp = [Handshaking alice None]" using demo_upgrade_answer by blast
  from by_request [OF other_request [of EpWebSocket demo_server_lib demo_http_env demo_upgrade_request "at_rest demo_app" resp]] resp
  show "demo_step (at_rest demo_app) (demo_snapshot demo_upgraded [Handshaking alice None] [])" by simp
  assume "session_request_piece demo_server_lib demo_http_env demo_session_request demo_upgraded = (Inr alice, st)"
  with by_request [OF request_admitted [of demo_server_lib demo_http_env demo_session_request
    "demo_snapshot demo_upgraded [Handshaking alice None] []"]]
  show "demo_step (demo_snapshot demo_upgraded [Handshaking alice None] [])
     (demo_snapshot st [Admitted demo_session_request alice, Handshaking alice None] [])" by simp
qed

lemma demo_run_requests:
  "\<exists>st. demo_steps (at_rest demo_app) (demo_snapshot (st\<lparr>as_tickets := (ticket_store_new 10 2)\<lparr>ts_entries := [(demo_token, demo_ticket)]\<rparr>\<rparr>)
      [Handshaking alice None] demo_log_entry) \<and> as_sessions st = demo_busy_manager"
proof -
  let ?h = "Handshaking alice None" and ?t = "PtyTarget demo_pty"
  let ?r = "Requesting None alice ?t 15 (Reservation (Some 0))"
  have peer: "rq_peer demo_session_request = None" by (simp add: demo_session_request_def demo_request_def)
  obtain st1 st where st1: "session_request_piece demo_server_lib demo_http_env demo_session_request demo_upgraded = (Inr alice, st1)"
    and st: "resolve_piece demo_server_lib demo_http_env demo_session_request alice None st1
      = (Inr (alice, ?t, 15, Reservation (Some 0)), st)" "as_tickets st = ticket_store_new 10 2" "as_sessions st = demo_busy_manager"
    using demo_place_taken by blast
  have 1: "demo_step (demo_snapshot st1 [Admitted demo_session_request alice, ?h] []) (demo_snapshot st [?r, ?h] demo_log_entry)"
    using by_request [OF request_reserved [of "demo_snapshot st1 [Admitted demo_session_request alice, ?h] []"
      "[]" demo_session_request alice "[?h]" demo_server_lib demo_http_env]] st(1) by (simp add: peer)
  let ?st3 = "st\<lparr>as_tickets := (ticket_store_new 10 2)\<lparr>ts_entries := [(demo_token, demo_ticket)]\<rparr>\<rparr>"
  have 2: "demo_step (demo_snapshot st [?r, ?h] demo_log_entry) (demo_snapshot ?st3 [?h] demo_log_entry)"
    using by_request [OF request_finished [of "demo_snapshot st [?r, ?h] demo_log_entry" "[]" None alice ?t 15
      "Reservation (Some 0)" "[?h]" demo_server_lib demo_http_env]] demo_ticket_stored [OF st(2,3)] by simp
  from demo_run_admitted(1) demo_run_admitted(2) [OF st1] 1 2
  have "demo_steps (at_rest demo_app) (demo_snapshot ?st3 [?h] demo_log_entry)"
    by (meson r_into_rtranclp rtranclp.rtrancl_into_rtrancl)
  with st(3) show ?thesis by blast
qed

lemma demo_run:
  "\<exists>a su. app_reachable demo_server_lib demo_envelope demo_limits a \<and> demo_steps (at_rest demo_app) a
     \<and> ap_tasks a = [Running 0 (PtyTarget demo_pty) su] \<and> su_identity su = alice \<and> su_persistent su \<noteq> None
     \<and> ap_requests a = demo_log_entry \<and> mg_capacity (as_sessions (ap_state a)) = demo_place Live
     \<and> mg_audit (as_sessions (ap_state a)) = Some demo_logged \<and> ap_missed a = []"
proof -
  let ?t = "PtyTarget demo_pty" and ?r = "Reservation (Some 0)"
  obtain st where st: "as_sessions st = demo_busy_manager"
    "demo_steps (at_rest demo_app) (demo_snapshot (st\<lparr>as_tickets := (ticket_store_new 10 2)\<lparr>ts_entries := [(demo_token, demo_ticket)]\<rparr>\<rparr>)
      [Handshaking alice None] demo_log_entry)" (is "demo_steps _ (demo_snapshot ?st3 _ _)")
    using demo_run_requests by blast
  let ?st4 = "st\<lparr>as_tickets := ticket_store_new 10 2, as_sessions := demo_busy_manager\<rparr>"
  have 4: "demo_step (demo_snapshot ?st3 [Handshaking alice None] demo_log_entry)
      (demo_snapshot ?st4 [Attaching alice None ?t ?r] demo_log_entry)"
    using by_upgrade [OF upgrade_redeemed [of "demo_snapshot ?st3 [Handshaking alice None] demo_log_entry" "[]" alice None "[]"
      demo_envelope demo_server_lib demo_accept_env]] demo_ticket_redeemed st(1) by (simp add: demo_app_parts(5))
  let ?m = "demo_busy_manager\<lparr>mg_capacity := demo_place Live, mg_registry := snd (register_supervisor registry_new)\<rparr>"
  obtain cn where cn: "accept_redeemed demo_libs demo_accept_env alice None (?t, ?r) demo_busy_manager
      = (AcceptStarting ?t 0 cn, ?m)" "cn_classifier cn = None" "cn_identity cn = alice" using demo_attached by blast
  let ?st5 = "st\<lparr>as_tickets := ticket_store_new 10 2, as_sessions := ?m\<rparr>"
  have 5: "demo_step (demo_snapshot ?st4 [Attaching alice None ?t ?r] demo_log_entry)
      (demo_snapshot ?st5 [Connecting 0 ?t cn] demo_log_entry)"
    using by_upgrade [OF attach_started [of "demo_snapshot ?st4 [Attaching alice None ?t ?r] demo_log_entry" "[]" alice None ?t ?r "[]"
      demo_server_lib demo_accept_env]] cn(1) by (simp add: demo_app_parts(5))
  have m: "mg_audit ?m = Some demo_audit_log" by (simp add: demo_busy_manager_def)
  obtain su sn where su: "run_connecting demo_libs demo_env_late cn (Some demo_audit_log) (demo_place Live)
      = ConnectingHandedOver su sn (Some demo_logged) (demo_place Live)" "su_identity su = alice" "su_persistent su \<noteq> None"
    using demo_running [OF cn(2)] cn(3) by metis
  let ?a = "demo_snapshot (store_places (Some demo_logged) (demo_place Live) ?st5) [Running 0 ?t su] demo_log_entry"
  have 6: "demo_step (demo_snapshot ?st5 [Connecting 0 ?t cn] demo_log_entry) ?a"
    using by_session [OF connection_admitted [of "demo_snapshot ?st5 [Connecting 0 ?t cn] demo_log_entry" "[]" 0 ?t cn "[]"
      demo_server_lib demo_env_late]] su(1) m by (simp add: demo_app_parts(5))
  from st(2) 4 5 6 have run: "demo_steps (at_rest demo_app) ?a"
    by (meson rtranclp.rtrancl_into_rtrancl)
  then have "app_reachable demo_server_lib demo_envelope demo_limits ?a"
    using demo_fresh by (auto simp: app_reachable_def)
  then show ?thesis using su(2,3) run by (intro exI [of _ ?a] exI [of _ su]) (simp add: store_places_def)
qed

end
