(* ===== verification/Tls.thy ===== *)
theory Tls
  imports Audit_Log
begin

text \<open>
  \<open>tls.rs\<close>: loading the certificate and the private key of a direct-TLS listener. The operating
  system's answers for each file are arguments, the PEM decoder and the TLS server configuration
  of the library are parameters. Lemmas: the scanner of PEM sections accepts exactly the documents
  of the grammar, and what a loaded configuration was built from.
\<close>

definition MAX_CERTIFICATE_BYTES :: u64 where "MAX_CERTIFICATE_BYTES = 1024 * 1024"
definition MAX_PRIVATE_KEY_BYTES :: u64 where "MAX_PRIVATE_KEY_BYTES = 256 * 1024"

datatype tls_error =
    CertificatePathUnsafe | PrivateKeyPathUnsafe | CertificateUnreadable | PrivateKeyUnreadable
  | CertificateMalformed | PrivateKeyMalformed | KeyMismatch

datatype material_kind = CertificateMaterial | PrivateKeyMaterial

fun path_error :: "material_kind \<Rightarrow> tls_error" where
  "path_error CertificateMaterial = CertificatePathUnsafe"
| "path_error PrivateKeyMaterial = PrivateKeyPathUnsafe"

fun unreadable_error :: "material_kind \<Rightarrow> tls_error" where
  "unreadable_error CertificateMaterial = CertificateUnreadable"
| "unreadable_error PrivateKeyMaterial = PrivateKeyUnreadable"

definition validate_metadata :: "file_metadata \<Rightarrow> material_kind \<Rightarrow> u64 \<Rightarrow> tls_error + unit" where
  "validate_metadata md kind maximum =
     and_then (fail_if (\<not> md_is_file md \<or> md_len md = 0 \<or> md_len md > maximum) (path_error kind)) (\<lambda>_.
     fail_if (kind = PrivateKeyMaterial \<and> md_mode md AND 63 \<noteq> 0) PrivateKeyPathUnsafe)"

text \<open>Opening without following links fails with ELOOP on a link; the opened file then gives its
  metadata and, when read to the end, its bytes.\<close>

datatype open_result = OpenLoop | OpenFailed | OpenedFile "file_metadata option" "bytes option"

definition read_material ::
  "(path \<Rightarrow> open_result) \<Rightarrow> path \<Rightarrow> material_kind \<Rightarrow> u64 \<Rightarrow> tls_error + bytes" where
  "read_material os p kind maximum =
     and_then (fail_if (\<not> is_absolute p) (path_error kind)) (\<lambda>_.
     (case os p of
        OpenLoop \<Rightarrow> Inl (path_error kind)
      | OpenFailed \<Rightarrow> Inl (unreadable_error kind)
      | OpenedFile md contents \<Rightarrow>
          and_then (ok_or (unreadable_error kind) md) (\<lambda>md.
          and_then (validate_metadata md kind maximum) (\<lambda>_.
          and_then (ok_or (unreadable_error kind) contents) (\<lambda>all_bytes.
          let raw = take (unat maximum + 1) all_bytes in
          and_then (fail_if (raw = [] \<or> length raw > unat maximum) (path_error kind)) (\<lambda>_. Inr raw))))))"

definition pem_begin :: "bytes \<Rightarrow> bytes" where "pem_begin label = ''-----BEGIN '' @ label @ ''-----''"
definition pem_end :: "bytes \<Rightarrow> bytes" where "pem_end label = ''-----END '' @ label @ ''-----''"

fun pem_scan :: "bytes list \<Rightarrow> bytes option \<Rightarrow> nat \<Rightarrow> bytes list \<Rightarrow> bool" where
  "pem_scan allowed active sections [] = (active = None \<and> sections > 0)"
| "pem_scan allowed active sections (raw_line # rest) =
     (let line = trim_ascii raw_line in
      if line = [] then pem_scan allowed active sections rest
      else (case active of
          None \<Rightarrow>
            (case Option.bind (strip_prefix ''-----BEGIN '' line) (strip_suffix ''-----'') of
               None \<Rightarrow> False
             | Some label \<Rightarrow>
                 label \<in> set allowed \<and> pem_scan allowed (Some label) sections rest)
        | Some label \<Rightarrow>
            if line = pem_end label then pem_scan allowed None (Suc sections) rest
            else \<not> starts_with line ''-----'' \<and> pem_scan allowed active sections rest))"

definition has_only_pem_sections :: "bytes \<Rightarrow> bytes list \<Rightarrow> bool" where
  "has_only_pem_sections raw allowed = pem_scan allowed None 0 (split_on newline raw)"

datatype rustls_error = InconsistentKeys | InvalidCertificate | NoCertificatesPresented | OtherRustlsError

fun classify_rustls_error :: "rustls_error \<Rightarrow> tls_error" where
  "classify_rustls_error InconsistentKeys = KeyMismatch"
| "classify_rustls_error InvalidCertificate = CertificateMalformed"
| "classify_rustls_error NoCertificatesPresented = CertificateMalformed"
| "classify_rustls_error OtherRustlsError = PrivateKeyMalformed"

text \<open>The TLS library: decoded PEM items, and the server configuration of a chain and a key.\<close>

record tls_lib =
  pem_certificates :: "bytes \<Rightarrow> (unit + bytes) list"
  pem_private_keys :: "bytes \<Rightarrow> (unit + bytes) list"
  with_single_cert :: "bytes list \<Rightarrow> bytes \<Rightarrow> rustls_error + nat"

record rustls_config =
  rc_server :: nat
  rc_alpn :: "string list"

definition tls_load :: "tls_lib \<Rightarrow> (path \<Rightarrow> open_result) \<Rightarrow> tls_config \<Rightarrow> tls_error + rustls_config" where
  "tls_load lib os c =
     and_then (read_material os (certificate c) CertificateMaterial MAX_CERTIFICATE_BYTES) (\<lambda>cert.
     and_then (read_material os (private_key c) PrivateKeyMaterial MAX_PRIVATE_KEY_BYTES) (\<lambda>key.
     and_then (fail_if (\<not> has_only_pem_sections cert [''CERTIFICATE'']) CertificateMalformed) (\<lambda>_.
     and_then (map_err (\<lambda>_. CertificateMalformed) (collect_results id (pem_certificates lib cert))) (\<lambda>certificates.
     and_then (fail_if (certificates = []) CertificateMalformed) (\<lambda>_.
     and_then (fail_if (\<not> has_only_pem_sections key [''PRIVATE KEY'', ''RSA PRIVATE KEY'', ''EC PRIVATE KEY''])
       PrivateKeyMalformed) (\<lambda>_.
     (case pem_private_keys lib key of
        [] \<Rightarrow> Inl PrivateKeyMalformed
      | first # others \<Rightarrow>
          and_then (map_err (\<lambda>_. PrivateKeyMalformed) first) (\<lambda>k.
          and_then (fail_if (others \<noteq> []) PrivateKeyMalformed) (\<lambda>_.
          and_then (map_err classify_rustls_error (with_single_cert lib certificates k)) (\<lambda>server.
          Inr \<lparr>rc_server = server, rc_alpn = [''h2'', ''http/1.1'']\<rparr>))))))))))"

subsection \<open>The grammar of PEM documents\<close>

inductive pem_document :: "bytes list \<Rightarrow> bytes list \<Rightarrow> nat \<Rightarrow> bool" for allowed where
  pem_nil: "pem_document allowed [] 0"
| pem_section: "label \<in> set allowed \<Longrightarrow> list_all (\<lambda>l. \<not> starts_with l ''-----'') body \<Longrightarrow>
    pem_document allowed rest n \<Longrightarrow>
    pem_document allowed (pem_begin label # body @ pem_end label # rest) (Suc n)"

definition significant_lines :: "bytes \<Rightarrow> bytes list" where
  "significant_lines raw = filter (\<lambda>l. l \<noteq> []) (map trim_ascii (split_on newline raw))"

text \<open>The scanner on trimmed lines without the blank ones.\<close>

fun line_scan :: "bytes list \<Rightarrow> bytes option \<Rightarrow> nat \<Rightarrow> bytes list \<Rightarrow> bool" where
  "line_scan allowed active sections [] = (active = None \<and> sections > 0)"
| "line_scan allowed None sections (line # rest) =
     (\<exists>label \<in> set allowed. line = pem_begin label \<and> line_scan allowed (Some label) sections rest)"
| "line_scan allowed (Some label) sections (line # rest) =
     (if line = pem_end label then line_scan allowed None (Suc sections) rest
      else \<not> starts_with line ''-----'' \<and> line_scan allowed (Some label) sections rest)"

lemma pem_begin_label:
  "Option.bind (strip_prefix ''-----BEGIN '' line) (strip_suffix ''-----'') = Some label \<longleftrightarrow> line = pem_begin label"
  by (auto simp: bind_eq_Some_conv strip_prefix_Some strip_suffix_Some pem_begin_def)

lemma pem_begin_inject: "pem_begin a = pem_begin b \<longleftrightarrow> a = b"
  by (simp add: pem_begin_def)

lemma pem_scan_blank: "trim_ascii l = [] \<Longrightarrow> pem_scan allowed active n (l # ls) = pem_scan allowed active n ls"
  by (simp add: Let_def)

lemma pem_scan_outside:
  assumes "trim_ascii l \<noteq> []"
  shows "pem_scan allowed None n (l # ls) =
    (\<exists>label \<in> set allowed. trim_ascii l = pem_begin label \<and> pem_scan allowed (Some label) n ls)"
proof (cases "Option.bind (strip_prefix ''-----BEGIN '' (trim_ascii l)) (strip_suffix ''-----'')")
  case None
  then have "trim_ascii l \<noteq> pem_begin label" for label
    using pem_begin_label [of "trim_ascii l" label] by simp
  with None assms show ?thesis by (simp only: pem_scan.simps Let_def if_False option.case) blast
next
  case (Some label)
  then have "trim_ascii l = pem_begin label" by (simp only: pem_begin_label)
  with Some assms show ?thesis
    by (simp only: pem_scan.simps Let_def if_False option.case pem_begin_inject) blast
qed

lemma pem_scan_inside:
  "trim_ascii l \<noteq> [] \<Longrightarrow> pem_scan allowed (Some label) n (l # ls) =
    (if trim_ascii l = pem_end label then pem_scan allowed None (Suc n) ls
     else \<not> starts_with (trim_ascii l) ''-----'' \<and> pem_scan allowed (Some label) n ls)"
  by (simp only: pem_scan.simps Let_def if_False option.case)

lemma pem_scan_lines:
  "pem_scan allowed active n ls = line_scan allowed active n (filter (\<lambda>l. l \<noteq> []) (map trim_ascii ls))"
proof (induction ls arbitrary: active n)
  case (Cons l ls)
  show ?case
  proof (cases "trim_ascii l = []")
    case True
    with Cons.IH show ?thesis by (simp only: pem_scan_blank list.map filter.simps) simp
  next
    case False
    then have f: "filter (\<lambda>l. l \<noteq> []) (map trim_ascii (l # ls)) =
        trim_ascii l # filter (\<lambda>l. l \<noteq> []) (map trim_ascii ls)" by simp
    show ?thesis
      unfolding f
      by (cases active) (simp_all only: pem_scan_outside [OF False] pem_scan_inside [OF False]
        line_scan.simps Cons.IH)
  qed
qed simp

lemma pem_end_dashes: "starts_with (pem_end label) ''-----''"
  by (simp add: starts_with_def pem_end_def)

lemma line_scan_body:
  "list_all (\<lambda>l. \<not> starts_with l ''-----'') body \<Longrightarrow>
     line_scan allowed (Some label) n (body @ pem_end label # rest) = line_scan allowed None (Suc n) rest"
  by (induction body) (auto simp: pem_end_dashes)

lemma document_scan: "pem_document allowed ls k \<Longrightarrow> line_scan allowed None n ls \<longleftrightarrow> n + k > 0"
proof (induction arbitrary: n rule: pem_document.induct)
  case (pem_section label body rest k)
  then show ?case by (auto simp: line_scan_body pem_begin_inject)
qed simp

lemma scan_document:
  "line_scan allowed active n ls \<Longrightarrow>
     (case active of
        None \<Rightarrow> \<exists>k. pem_document allowed ls k \<and> n + k > 0
      | Some label \<Rightarrow> \<exists>body rest k. ls = body @ pem_end label # rest
          \<and> list_all (\<lambda>l. \<not> starts_with l ''-----'') body \<and> pem_document allowed rest k)"
proof (induction allowed active n ls rule: line_scan.induct)
  case (1 allowed active n)
  then show ?case by (auto intro: pem_nil)
next
  case (2 allowed n line rest)
  then obtain label where "label \<in> set allowed" "line = pem_begin label"
    "line_scan allowed (Some label) n rest" by auto
  with 2 show ?case by (fastforce intro: pem_section)
next
  case (3 allowed label n line rest)
  show ?case
  proof (cases "line = pem_end label")
    case True
    with 3 obtain k where "pem_document allowed rest k" by auto
    with True have "line # rest = [] @ pem_end label # rest
        \<and> list_all (\<lambda>l. \<not> starts_with l ''-----'') [] \<and> pem_document allowed rest k"
      by simp
    then show ?thesis unfolding option.case by blast
  next
    case False
    with 3 obtain body tl' k where "rest = body @ pem_end label # tl'"
      "list_all (\<lambda>l. \<not> starts_with l ''-----'') (line # body)" "pem_document allowed tl' k"
      by auto
    then have "line # rest = (line # body) @ pem_end label # tl'
        \<and> list_all (\<lambda>l. \<not> starts_with l ''-----'') (line # body) \<and> pem_document allowed tl' k"
      by simp
    then show ?thesis unfolding option.case by blast
  qed
qed

lemma pem_sections_exact:
  "has_only_pem_sections raw allowed \<longleftrightarrow> (\<exists>k > 0. pem_document allowed (significant_lines raw) k)"
  unfolding has_only_pem_sections_def pem_scan_lines significant_lines_def
  using document_scan scan_document [of allowed None 0] by fastforce

lemma read_material_ok:
  assumes "read_material os p kind maximum = Inr raw"
  shows "is_absolute p \<and> raw \<noteq> [] \<and> length raw \<le> unat maximum
    \<and> (\<exists>md contents. os p = OpenedFile (Some md) (Some contents) \<and> md_is_file md \<and> md_len md \<le> maximum
        \<and> (kind = PrivateKeyMaterial \<longrightarrow> md_mode md AND 63 = 0) \<and> raw = contents)"
proof -
  from assms obtain md contents where os: "os p = OpenedFile (Some md) (Some contents)"
    and raw: "raw = take (unat maximum + 1) contents" "raw \<noteq> []" "length raw \<le> unat maximum"
    and "is_absolute p" "md_is_file md" "md_len md \<le> maximum"
      "kind = PrivateKeyMaterial \<longrightarrow> md_mode md AND 63 = 0"
    by (auto simp: read_material_def validate_metadata_def Let_def not_less split: open_result.splits)
  moreover from raw have "raw = contents" by auto
  ultimately show ?thesis by blast
qed

text \<open>C39: A loaded TLS configuration comes from two absolute, non-symlink regular files within their
  size bounds, the key file without group or other permissions; each is a sequence of one or more
  PEM sections of the allowed labels and nothing else, there is at least one certificate and
  exactly one private key, and the listener offers h2 and http/1.1.\<close>

theorem tls_load_safe:
  assumes "tls_load lib os c = Inr r"
  shows "\<exists>cert key certs k md_cert md_key m n.
      is_absolute (certificate c) \<and> os (certificate c) = OpenedFile (Some md_cert) (Some cert)
    \<and> is_absolute (private_key c) \<and> os (private_key c) = OpenedFile (Some md_key) (Some key)
    \<and> md_is_file md_cert \<and> md_is_file md_key \<and> md_mode md_key AND 63 = 0
    \<and> length cert \<le> 1048576 \<and> length key \<le> 262144
    \<and> pem_document [''CERTIFICATE''] (significant_lines cert) (Suc m)
    \<and> pem_document [''PRIVATE KEY'', ''RSA PRIVATE KEY'', ''EC PRIVATE KEY''] (significant_lines key) (Suc n)
    \<and> pem_certificates lib cert = map Inr certs \<and> certs \<noteq> []
    \<and> pem_private_keys lib key = [Inr k]
    \<and> with_single_cert lib certs k = Inr (rc_server r) \<and> rc_alpn r = [''h2'', ''http/1.1'']"
proof -
  from assms obtain cert key certs k where
    cert: "read_material os (certificate c) CertificateMaterial MAX_CERTIFICATE_BYTES = Inr cert"
    and key: "read_material os (private_key c) PrivateKeyMaterial MAX_PRIVATE_KEY_BYTES = Inr key"
    and pem: "has_only_pem_sections cert [''CERTIFICATE'']"
      "has_only_pem_sections key [''PRIVATE KEY'', ''RSA PRIVATE KEY'', ''EC PRIVATE KEY'']"
    and certs: "collect_results id (pem_certificates lib cert) = Inr certs" "certs \<noteq> []"
    and k: "pem_private_keys lib key = [Inr k]"
    and r: "with_single_cert lib certs k = Inr (rc_server r)" "rc_alpn r = [''h2'', ''http/1.1'']"
    unfolding tls_load_def by (cases "pem_private_keys lib (projr (read_material os (private_key c)
      PrivateKeyMaterial MAX_PRIVATE_KEY_BYTES))") auto
  have "pem_certificates lib cert = map Inr certs"
    using certs(1) by (auto simp: collect_results_ok intro: nth_equalityI)
  moreover obtain m n where "pem_document [''CERTIFICATE''] (significant_lines cert) (Suc m)"
    "pem_document [''PRIVATE KEY'', ''RSA PRIVATE KEY'', ''EC PRIVATE KEY''] (significant_lines key) (Suc n)"
    using pem unfolding pem_sections_exact by (metis gr0_implies_Suc)
  moreover have "unat MAX_CERTIFICATE_BYTES = 1048576" "unat MAX_PRIVATE_KEY_BYTES = 262144"
    by (simp_all add: MAX_CERTIFICATE_BYTES_def MAX_PRIVATE_KEY_BYTES_def)
  ultimately show ?thesis
    using read_material_ok [OF cert] read_material_ok [OF key] certs(2) k r by (metis material_kind.distinct(1))
qed

definition demo_cert :: bytes where
  "demo_cert = pem_begin ''CERTIFICATE'' @ [newline] @ ''MII'' @ [newline] @ pem_end ''CERTIFICATE'' @ [newline]"

definition demo_key :: bytes where
  "demo_key = pem_begin ''PRIVATE KEY'' @ [newline] @ pem_end ''PRIVATE KEY''"

lemma demo_pem:
  "significant_lines demo_cert = [pem_begin ''CERTIFICATE'', ''MII'', pem_end ''CERTIFICATE'']"
  "significant_lines demo_key = [pem_begin ''PRIVATE KEY'', pem_end ''PRIVATE KEY'']"
  by (simp_all add: significant_lines_def demo_cert_def demo_key_def pem_begin_def pem_end_def
    newline_def trim_ascii_def is_ascii_whitespace_def)

lemma demo_pem_sections:
  "has_only_pem_sections demo_cert [''CERTIFICATE'']"
  "has_only_pem_sections demo_key [''PRIVATE KEY'', ''RSA PRIVATE KEY'', ''EC PRIVATE KEY'']"
proof -
  have "pem_document [''CERTIFICATE''] (pem_begin ''CERTIFICATE'' # [''MII''] @ pem_end ''CERTIFICATE'' # []) (Suc 0)"
    by (intro pem_section pem_nil) (simp_all add: starts_with_def)
  then show "has_only_pem_sections demo_cert [''CERTIFICATE'']"
    unfolding pem_sections_exact demo_pem by auto
  have "pem_document [''PRIVATE KEY'', ''RSA PRIVATE KEY'', ''EC PRIVATE KEY'']
      (pem_begin ''PRIVATE KEY'' # [] @ pem_end ''PRIVATE KEY'' # []) (Suc 0)"
    by (intro pem_section pem_nil) simp_all
  then show "has_only_pem_sections demo_key [''PRIVATE KEY'', ''RSA PRIVATE KEY'', ''EC PRIVATE KEY'']"
    unfolding pem_sections_exact demo_pem by auto
qed

definition demo_tls_lib :: tls_lib where
  "demo_tls_lib = \<lparr>pem_certificates = (\<lambda>_. [Inr ''c'']), pem_private_keys = (\<lambda>_. [Inr ''k'']),
     with_single_cert = (\<lambda>_ _. Inr 0)\<rparr>"

definition demo_md :: file_metadata where
  "demo_md = \<lparr>md_is_file = True, md_mode = 384, md_uid = 7, md_len = 60\<rparr>"

definition demo_tls_os :: "path \<Rightarrow> open_result" where
  "demo_tls_os p = (if p = ''/c'' then OpenedFile (Some demo_md) (Some demo_cert)
     else OpenedFile (Some demo_md) (Some demo_key))"

lemma demo_lengths: "demo_cert \<noteq> []" "demo_key \<noteq> []" "length demo_cert \<le> 100" "length demo_key \<le> 100"
  by (simp_all add: demo_cert_def demo_key_def pem_begin_def pem_end_def)

lemma demo_read:
  "read_material demo_tls_os ''/c'' CertificateMaterial MAX_CERTIFICATE_BYTES = Inr demo_cert"
  "read_material demo_tls_os ''/k'' PrivateKeyMaterial MAX_PRIVATE_KEY_BYTES = Inr demo_key"
  using demo_lengths by (simp_all add: read_material_def demo_tls_os_def is_absolute_def starts_with_def
    validate_metadata_def demo_md_def MAX_CERTIFICATE_BYTES_def MAX_PRIVATE_KEY_BYTES_def)

theorem tls_load_safe_witness:
  "\<exists>m. pem_document [''CERTIFICATE''] (significant_lines demo_cert) (Suc m)
    \<and> tls_load demo_tls_lib demo_tls_os \<lparr>certificate = ''/c'', private_key = ''/k''\<rparr> =
        Inr \<lparr>rc_server = 0, rc_alpn = [''h2'', ''http/1.1'']\<rparr>"
proof -
  have l: "tls_load demo_tls_lib demo_tls_os \<lparr>certificate = ''/c'', private_key = ''/k''\<rparr> =
      Inr \<lparr>rc_server = 0, rc_alpn = [''h2'', ''http/1.1'']\<rparr>"
    by (simp add: tls_load_def demo_read demo_pem_sections demo_tls_lib_def)
  from tls_load_safe [OF l] obtain cert md m where
    "demo_tls_os ''/c'' = OpenedFile (Some md) (Some cert)"
    "pem_document [''CERTIFICATE''] (significant_lines cert) (Suc m)"
    unfolding tls_config.select_convs by blast
  with l show ?thesis by (auto simp: demo_tls_os_def)
qed

end
