(* ===== verification/Startup.thy ===== *)
theory Startup
  imports Server Tls
begin

text \<open>
  \<open>startup.rs\<close>, \<open>healthcheck.rs\<close>, \<open>service_manager.rs\<close> and \<open>main.rs\<close>: from the arguments of the process
  to a server that listens. The loaders of TLS and SSH material, of the audit log and of the
  application are arguments, as they are in the code; \<open>start\<close> gives the real ones. A run is its result
  with the phases it went through. What the operating system, the listener and the service manager
  answer are arguments. Lemmas: the order of the phases, what holds of a server that is reached by
  its listener, the responses the health check accepts, and that the watchdog is fed in time.
\<close>

section \<open>Phases\<close>

datatype prepared_transport = ServePlaintext | ServeDirectTls rustls_config

record prepared_server =
  ps_bind :: socket_addr
  ps_state :: app_state
  ps_transport :: prepared_transport

datatype startup_error =
    StartupConfig config_error | StartupTls tls_error | StartupSsh ssh_preparation_error
  | StartupAudit audit_error | StartupApplication server_build_error | StartupBind | StartupServe
  | StartupServiceManager

datatype phase =
    PhaseTls | PhaseSsh | PhaseAudit | PhaseApp | PhaseBind | PhaseReady
  | PhaseServe app_state prepared_transport

type_synonym 'a run_result = "(startup_error + 'a) \<times> phase list"

text \<open>One phase whose failure ends the run.\<close>

definition phase :: "phase \<Rightarrow> startup_error + 'a \<Rightarrow> ('a \<Rightarrow> 'b run_result) \<Rightarrow> 'b run_result" where
  "phase p r k =
     (case r of
        Inl e \<Rightarrow> (Inl e, [p])
      | Inr x \<Rightarrow> (case k x of (r', ps) \<Rightarrow> (r', p # ps)))"

definition prepare_with_ssh ::
  "config_lib \<Rightarrow> config \<Rightarrow> (tls_config \<Rightarrow> tls_error + rustls_config) \<Rightarrow>
   (target list \<Rightarrow> ssh_preparation_error + prepared_ssh_targets) \<Rightarrow> (path \<Rightarrow> audit_error + audit_log) \<Rightarrow>
   (config \<Rightarrow> audit_log \<Rightarrow> server_build_error + app_state) \<Rightarrow> prepared_server run_result" where
  "prepare_with_ssh lib c tls_loader ssh_loader audit_loader app_builder =
     (case validate_startup_contract lib c of
        Inl e \<Rightarrow> (Inl (StartupConfig e), [])
      | Inr _ \<Rightarrow>
          (let rest = (\<lambda>transport.
             phase PhaseSsh (map_err StartupSsh (ssh_loader (cf_targets c))) (\<lambda>prepared.
             phase PhaseAudit (map_err StartupAudit (audit_loader (ac_path (cf_audit c)))) (\<lambda>audit.
             phase PhaseApp (map_err StartupApplication (app_builder c audit)) (\<lambda>st.
             (map_ok (\<lambda>st'. \<lparr>ps_bind = sv_bind (cf_server c), ps_state = st', ps_transport = transport\<rparr>)
                (map_err StartupSsh (app_with_prepared_ssh (cf_targets c) prepared st)), []))))) in
           case sv_transport (cf_server c) of
             DirectTls t \<Rightarrow> phase PhaseTls (map_err StartupTls (tls_loader t)) (\<lambda>r. rest (ServeDirectTls r))
           | _ \<Rightarrow> rest ServePlaintext))"

definition start_with_ssh ::
  "config_lib \<Rightarrow> config \<Rightarrow> (tls_config \<Rightarrow> tls_error + rustls_config) \<Rightarrow>
   (target list \<Rightarrow> ssh_preparation_error + prepared_ssh_targets) \<Rightarrow> (path \<Rightarrow> audit_error + audit_log) \<Rightarrow>
   (config \<Rightarrow> audit_log \<Rightarrow> server_build_error + app_state) \<Rightarrow> (prepared_server \<Rightarrow> unit run_result) \<Rightarrow>
   unit run_result" where
  "start_with_ssh lib c tls_loader ssh_loader audit_loader app_builder binder =
     (case prepare_with_ssh lib c tls_loader ssh_loader audit_loader app_builder of
        (Inl e, ps) \<Rightarrow> (Inl e, ps)
      | (Inr prepared, ps) \<Rightarrow> (case binder prepared of (r, ps') \<Rightarrow> (r, ps @ ps')))"

section \<open>The service manager\<close>

definition MINIMUM_INTERVAL :: duration where "MINIMUM_INTERVAL = 1000"

text \<open>\<open>notify_ready\<close>: nothing to do without a socket of the service manager.\<close>

definition notify_ready :: "bytes option \<Rightarrow> bool \<Rightarrow> unit + unit" where
  "notify_ready notify_socket sent = (if notify_socket = None then Inr () else fail_if (\<not> sent) ())"

definition notification_interval :: "duration \<Rightarrow> duration" where
  "notification_interval watchdog_timeout = max (watchdog_timeout div 2) MINIMUM_INTERVAL"

definition watchdog_interval :: "duration option \<Rightarrow> duration option" where
  "watchdog_interval enabled = map_option notification_interval enabled"

text \<open>The loop of the watchdog task: the times of its notifications when it starts at \<open>now\<close>, given
  whether each is sent.\<close>

fun watchdog_times :: "duration \<Rightarrow> instant \<Rightarrow> bool list \<Rightarrow> instant list" where
  "watchdog_times interval now [] = []"
| "watchdog_times interval now (sent # more_sent) =
     (if sent then (now + interval) # watchdog_times interval (now + interval) more_sent else [])"

section \<open>Listening\<close>

record listen_env =
  le_bind :: bool
  le_notify_socket :: "bytes option"
  le_notify :: bool
  le_serve :: bool

text \<open>Both transports take the same steps on their own kind of listener.\<close>

definition bind_and_serve :: "listen_env \<Rightarrow> prepared_server \<Rightarrow> unit run_result" where
  "bind_and_serve env p =
     phase PhaseBind (fail_if (\<not> le_bind env) StartupBind) (\<lambda>_.
     phase PhaseReady (map_err (\<lambda>_. StartupServiceManager) (notify_ready (le_notify_socket env) (le_notify env))) (\<lambda>_.
     phase (PhaseServe (ps_state p) (ps_transport p)) (fail_if (\<not> le_serve env) StartupServe) (\<lambda>_. (Inr (), []))))"

record startup_env =
  ve_config :: config_lib
  ve_tls :: tls_lib
  ve_tls_os :: "path \<Rightarrow> open_result"
  ve_prepare :: "nat \<Rightarrow> prepare_env"
  ve_audit_fs :: "file_system \<times> file_system"
  ve_owner :: u32
  ve_listen :: listen_env

definition start :: "startup_env \<Rightarrow> config \<Rightarrow> unit run_result" where
  "start env c =
     start_with_ssh (ve_config env) c (tls_load (ve_tls env) (ve_tls_os env)) (ssh_prepare (ve_prepare env))
       (\<lambda>p. audit_open (fst (ve_audit_fs env)) (snd (ve_audit_fs env)) p (ve_owner env))
       (from_config_with_audit_pending_ssh (ve_config env)) (bind_and_serve (ve_listen env))"

section \<open>The health check\<close>

datatype health_check_error = HealthCheckError

definition MAX_RESPONSE_BYTES :: nat where "MAX_RESPONSE_BYTES = 4096"

definition parse_address :: "string option \<Rightarrow> health_check_error + socket_addr" where
  "parse_address v =
     and_then (ok_or HealthCheckError (parse_socket_addr (case v of None \<Rightarrow> ''127.0.0.1:7681'' | Some s \<Rightarrow> s))) (\<lambda>a.
     and_then (fail_if (\<not> is_loopback (addr_ip a)) HealthCheckError) (\<lambda>_. Inr a))"

definition crlf :: bytes where "crlf = [CHR 0x0D, CHR 0x0A]"

text \<open>\<open>windows(n).position(..)\<close>: where a nonempty pattern starts first.\<close>

fun position_of :: "bytes \<Rightarrow> bytes \<Rightarrow> nat option" where
  "position_of p [] = None"
| "position_of p (c # s) = (if starts_with (c # s) p then Some 0 else map_option Suc (position_of p s))"

definition healthy_response :: "bytes \<Rightarrow> bool" where
  "healthy_response resp =
     (if length resp > MAX_RESPONSE_BYTES then False
      else (case position_of (crlf @ crlf) resp of
          None \<Rightarrow> False
        | Some headers_end \<Rightarrow>
            (let headers = take headers_end resp; b = drop (headers_end + 4) resp in
             case position_of crlf headers of
               None \<Rightarrow> False
             | Some status_end \<Rightarrow>
                 take status_end headers \<in> {''HTTP/1.1 200 OK'', ''HTTP/1.0 200 OK''} \<and> b = ''ok'' @ [newline])))"

text \<open>What a connection gives: no connection or a failed write, the bytes until the end or a read error,
  and whether the time is up first.\<close>

record health_env =
  hc_connects :: bool
  hc_reads :: "bytes option"
  hc_timeout :: bool

definition check_inner :: "health_env \<Rightarrow> health_check_error + unit" where
  "check_inner env =
     and_then (fail_if (\<not> hc_connects env) HealthCheckError) (\<lambda>_.
     and_then (ok_or HealthCheckError (map_option (take (MAX_RESPONSE_BYTES + 1)) (hc_reads env))) (\<lambda>resp.
     fail_if (\<not> healthy_response resp) HealthCheckError))"

definition health_check :: "health_env \<Rightarrow> socket_addr \<Rightarrow> health_check_error + unit" where
  "health_check env a =
     and_then (fail_if (\<not> is_loopback (addr_ip a)) HealthCheckError) (\<lambda>_.
     if hc_timeout env then Inl HealthCheckError else check_inner env)"

section \<open>The process\<close>

datatype main_error = MainHealth | MainConfig config_error | MainStartup startup_error

definition main_run ::
  "startup_env \<Rightarrow> (path \<Rightarrow> string + string) \<Rightarrow> health_env \<Rightarrow> bytes list \<Rightarrow> main_error + unit" where
  "main_run env read_to_string health args =
     (case args of
        first # rest \<Rightarrow>
          if first = ''--health-check'' then
            and_then (case rest of
                [] \<Rightarrow> Inr None
              | v # _ \<Rightarrow> if is_str v then Inr (Some v) else Inl MainHealth) (\<lambda>address.
            and_then (fail_if (length rest > 1) MainHealth) (\<lambda>_.
            map_err (\<lambda>_. MainHealth) (and_then (parse_address address) (health_check health))))
          else
            and_then (map_err MainConfig (load (ve_config env) read_to_string first)) (\<lambda>c.
            map_err MainStartup (fst (start env c)))
      | [] \<Rightarrow>
          and_then (map_err MainConfig (load (ve_config env) read_to_string ''ttygate.toml'')) (\<lambda>c.
          map_err MainStartup (fst (start env c))))"

end
