(* ===== verification/Startup_Safety.thy ===== *)
theory Startup_Safety
  imports Startup Server_Safety
begin

text \<open>
  What \<open>Startup\<close> guarantees: the phases come in one order and a failure ends them, a server that
  listens was built from validated material only, the health check accepts exactly a healthy
  response from this machine, and a watchdog is notified in time.
\<close>

section \<open>Phases in order\<close>

fun phase_rank :: "phase \<Rightarrow> nat" where
  "phase_rank PhaseTls = 0"
| "phase_rank PhaseSsh = 1"
| "phase_rank PhaseAudit = 2"
| "phase_rank PhaseApp = 3"
| "phase_rank PhaseBind = 4"
| "phase_rank PhaseReady = 5"
| "phase_rank (PhaseServe _ _) = 6"

text \<open>The phases that a run for this transport goes through when nothing fails.\<close>

definition all_phases :: "server_transport \<Rightarrow> nat list" where
  "all_phases transport = (case transport of DirectTls _ \<Rightarrow> [0, 1, 2, 3, 4, 5, 6] | _ \<Rightarrow> [1, 2, 3, 4, 5, 6])"

lemma phase_eq:
  "phase p r k = (case r of Inl e \<Rightarrow> (Inl e, [p]) | Inr x \<Rightarrow> (fst (k x), p # snd (k x)))"
  by (simp add: phase_def split: sum.split prod.split)

lemma bind_and_serve_phases:
  "prefix (map phase_rank (snd (bind_and_serve env p))) [4, 5, 6]
   \<and> (fst (bind_and_serve env p) = Inr () \<longrightarrow> map phase_rank (snd (bind_and_serve env p)) = [4, 5, 6])"
  by (auto simp: bind_and_serve_def phase_eq split: sum.split)

lemma prepare_phases:
  assumes "prepare_with_ssh lib c tls_loader ssh_loader audit_loader app_builder = (r, ps)"
  shows "\<exists>rest. all_phases (sv_transport (cf_server c)) = map phase_rank ps @ rest
    \<and> (is_ok r \<longrightarrow> rest = [4, 5, 6])"
  using assms
  by (auto simp: prepare_with_ssh_def phase_eq all_phases_def Let_def is_ok_def
    split: sum.splits server_transport.splits)

text \<open>Whatever loads, builds, binds or serves, the phases of a start are the first of the fixed order
  TLS material if the transport needs it, SSH material, audit log, application, listener, readiness,
  serving; none is left out and none follows one that failed, and a start that ends without an error
  went through all of them.\<close>

theorem startup_phases_ordered:
  "prefix (map phase_rank (snd (start env c))) (all_phases (sv_transport (cf_server c)))
   \<and> (fst (start env c) = Inr () \<longrightarrow> map phase_rank (snd (start env c)) = all_phases (sv_transport (cf_server c)))"
proof -
  obtain r ps where p: "prepare_with_ssh (ve_config env) c (tls_load (ve_tls env) (ve_tls_os env))
      (ssh_prepare (ve_prepare env))
      (\<lambda>p. audit_open (fst (ve_audit_fs env)) (snd (ve_audit_fs env)) p (ve_owner env))
      (from_config_with_audit_pending_ssh (ve_config env)) = (r, ps)" by fastforce
  from prepare_phases [OF p] obtain rest where rest: "all_phases (sv_transport (cf_server c)) = map phase_rank ps @ rest"
    "is_ok r \<longrightarrow> rest = [4, 5, 6]" by blast
  show ?thesis
  proof (cases r)
    case (Inl e)
    with p rest show ?thesis by (simp add: start_def start_with_ssh_def)
  next
    case (Inr prepared)
    with p rest bind_and_serve_phases [of "ve_listen env" prepared] show ?thesis
      by (auto simp: start_def start_with_ssh_def is_ok_def split: prod.splits)
  qed
qed

section \<open>What serves\<close>

lemma prepare_ok:
  assumes "prepare_with_ssh lib c tls_loader ssh_loader audit_loader app_builder = (Inr p, ps)"
  shows "validate_startup_contract lib c = Inr () \<and> ps_bind p = sv_bind (cf_server c)
    \<and> (case sv_transport (cf_server c) of
         DirectTls t \<Rightarrow> \<exists>r. tls_loader t = Inr r \<and> ps_transport p = ServeDirectTls r
       | _ \<Rightarrow> ps_transport p = ServePlaintext)
    \<and> (\<exists>prepared audit st. ssh_loader (cf_targets c) = Inr prepared \<and> audit_loader (ac_path (cf_audit c)) = Inr audit
        \<and> app_builder c audit = Inr st \<and> app_with_prepared_ssh (cf_targets c) prepared st = Inr (ps_state p))"
  using assms
  by (auto simp: prepare_with_ssh_def phase_eq Let_def split: sum.splits server_transport.splits)

lemma bind_and_serve_serves:
  "PhaseServe st tr \<in> set (snd (bind_and_serve env p)) \<Longrightarrow> st = ps_state p \<and> tr = ps_transport p \<and> le_bind env"
  by (auto simp: bind_and_serve_def phase_eq split: sum.splits if_splits)

lemma prepare_no_serve:
  "prepare_with_ssh lib c tls_loader ssh_loader audit_loader app_builder = (r, ps) \<Longrightarrow> PhaseServe st tr \<notin> set ps"
  by (auto simp: prepare_with_ssh_def phase_eq Let_def split: sum.splits server_transport.splits)

text \<open>How the state of a served application was built.\<close>

lemma served_state:
  assumes "PhaseServe st tr \<in> set (snd (start env c))"
  obtains origin auth targets audit ssh where
    "validate_startup_contract (ve_config env) c = Inr ()"
    "origin_policy_new (ve_config env) (sv_public_url (cf_server c)) = Inr origin"
    "target_allowlist_new (cf_targets c) = Inr targets"
    "ssh_prepare (ve_prepare env) (cf_targets c) = Inr ssh"
    "validate_for_targets ssh (cf_targets c) = Inr ()"
    "audit_open (fst (ve_audit_fs env)) (snd (ve_audit_fs env)) (ac_path (cf_audit c)) (ve_owner env) = Inr audit"
    "st = (let st0 = new_unprepared origin auth targets (ticket_store_new TICKET_TTL TICKET_CAPACITY) (cf_limits c) audit
      in st0\<lparr>as_prepared := ssh, as_sessions := with_prepared_ssh ssh (as_sessions st0)\<rparr>)"
    "case sv_transport (cf_server c) of
      DirectTls t \<Rightarrow> \<exists>r. tls_load (ve_tls env) (ve_tls_os env) t = Inr r \<and> tr = ServeDirectTls r
    | _ \<Rightarrow> tr = ServePlaintext"
proof -
  obtain r ps where p: "prepare_with_ssh (ve_config env) c (tls_load (ve_tls env) (ve_tls_os env))
      (ssh_prepare (ve_prepare env))
      (\<lambda>p. audit_open (fst (ve_audit_fs env)) (snd (ve_audit_fs env)) p (ve_owner env))
      (from_config_with_audit_pending_ssh (ve_config env)) = (r, ps)" by fastforce
  with assms prepare_no_serve [OF p] obtain prepared where r: "r = Inr prepared"
    and serve: "PhaseServe st tr \<in> set (snd (bind_and_serve (ve_listen env) prepared))"
    by (auto simp: start_def start_with_ssh_def split: sum.splits prod.splits)
  from bind_and_serve_serves [OF serve] have st: "st = ps_state prepared" "tr = ps_transport prepared" by simp_all
  from prepare_ok [OF p [unfolded r]] obtain ssh audit st0 where
    ok: "validate_startup_contract (ve_config env) c = Inr ()"
      "ssh_prepare (ve_prepare env) (cf_targets c) = Inr ssh"
      "audit_open (fst (ve_audit_fs env)) (snd (ve_audit_fs env)) (ac_path (cf_audit c)) (ve_owner env) = Inr audit"
      "from_config_with_audit_pending_ssh (ve_config env) c audit = Inr st0"
      "app_with_prepared_ssh (cf_targets c) ssh st0 = Inr st" using st by auto
  have tls: "case sv_transport (cf_server c) of
      DirectTls t \<Rightarrow> \<exists>r. tls_load (ve_tls env) (ve_tls_os env) t = Inr r \<and> tr = ServeDirectTls r
    | _ \<Rightarrow> tr = ServePlaintext" unfolding st(2) using prepare_ok [OF p [unfolded r]] by blast
  from ok(4) obtain origin auth targets where st0: "origin_policy_new (ve_config env) (sv_public_url (cf_server c)) = Inr origin"
      "target_allowlist_new (cf_targets c) = Inr targets"
      "st0 = new_unprepared origin auth targets (ticket_store_new TICKET_TTL TICKET_CAPACITY) (cf_limits c) audit"
    by (auto simp: from_config_with_audit_pending_ssh_def)
  from ok(5) have st': "st = st0\<lparr>as_prepared := ssh, as_sessions := with_prepared_ssh ssh (as_sessions st0)\<rparr>"
    "validate_for_targets ssh (cf_targets c) = Inr ()"
    by (auto simp: app_with_prepared_ssh_def)
  show ?thesis
    by (rule that [OF ok(1) st0(1,2) ok(2) st'(2) ok(3) _ tls]) (simp add: st'(1) st0(3) Let_def)
qed

text \<open>C23: A server is served only for a configuration that passes the startup contract, with TLS exactly
  when the contract's transport is direct TLS and then with the loaded material; its application checks
  the origin of the public URL, holds exactly the prepared SSH targets, which match the configured
  ones, records to the audit log that was opened, which works, and starts without sessions, leases,
  tickets or counted requests, within the configured limits.\<close>

theorem served_application:
  assumes "PhaseServe st tr \<in> set (snd (start env c))"
  shows "validate_startup_contract (ve_config env) c = Inr ()
    \<and> (case sv_transport (cf_server c) of
         DirectTls t \<Rightarrow> \<exists>r. tls_load (ve_tls env) (ve_tls_os env) t = Inr r \<and> tr = ServeDirectTls r
       | _ \<Rightarrow> tr = ServePlaintext)
    \<and> origin_policy_new (ve_config env) (sv_public_url (cf_server c)) = Inr (as_origin st)
    \<and> target_allowlist_new (cf_targets c) = Inr (as_targets st)
    \<and> ssh_prepare (ve_prepare env) (cf_targets c) = Inr (mg_prepared (as_sessions st))
    \<and> validate_for_targets (mg_prepared (as_sessions st)) (cf_targets c) = Inr ()
    \<and> (\<exists>log. audit_open (fst (ve_audit_fs env)) (snd (ve_audit_fs env)) (ac_path (cf_audit c)) (ve_owner env) = Inr log
        \<and> mg_audit (as_sessions st) = Some log \<and> app_audit_available st)
    \<and> mg_limits (as_sessions st) = cf_limits c \<and> mg_registry (as_sessions st) = registry_new
    \<and> mg_capacity (as_sessions st) = capacity_new (cf_limits c) \<and> ts_entries (as_tickets st) = []
    \<and> buckets (as_session_requests st) = [] \<and> buckets (as_authentication_failures st) = []"
proof -
  from served_state [OF assms] obtain origin auth targets audit ssh where ok:
    "validate_startup_contract (ve_config env) c = Inr ()"
    "origin_policy_new (ve_config env) (sv_public_url (cf_server c)) = Inr origin"
    "target_allowlist_new (cf_targets c) = Inr targets"
    "ssh_prepare (ve_prepare env) (cf_targets c) = Inr ssh"
    "validate_for_targets ssh (cf_targets c) = Inr ()"
    "audit_open (fst (ve_audit_fs env)) (snd (ve_audit_fs env)) (ac_path (cf_audit c)) (ve_owner env) = Inr audit"
    and st: "st = (let st0 = new_unprepared origin auth targets (ticket_store_new TICKET_TTL TICKET_CAPACITY) (cf_limits c) audit
      in st0\<lparr>as_prepared := ssh, as_sessions := with_prepared_ssh ssh (as_sessions st0)\<rparr>)"
    and tls: "case sv_transport (cf_server c) of
      DirectTls t \<Rightarrow> \<exists>r. tls_load (ve_tls env) (ve_tls_os env) t = Inr r \<and> tr = ServeDirectTls r
    | _ \<Rightarrow> tr = ServePlaintext" .
  from ok(6) have log: "\<not> al_failed audit"
    by (auto simp: audit_open_def from_writer_def)
  show ?thesis
    using tls ok log
    by (simp add: st Let_def new_unprepared_def manager_build_def with_prepared_ssh_def
      ticket_store_new_def new_limiter_def app_audit_available_def is_available_def)
qed

section \<open>The health check\<close>

lemma position_of_Some:
  "position_of p s = Some i \<longleftrightarrow>
     i < length s \<and> starts_with (drop i s) p \<and> (\<forall>j < i. \<not> starts_with (drop j s) p)"
proof (induction s arbitrary: i)
  case (Cons c s)
  show ?case
  proof (cases i)
    case (Suc k)
    have "(\<forall>j < Suc k. \<not> starts_with (drop j (c # s)) p) \<longleftrightarrow>
        \<not> starts_with (c # s) p \<and> (\<forall>j < k. \<not> starts_with (drop j s) p)"
      by (auto simp: less_Suc_eq_0_disj)
    with Suc Cons.IH [of k] show ?thesis by auto
  qed auto
qed simp

text \<open>The first occurrence, told by what comes before it.\<close>

lemma position_of_first:
  assumes "p \<noteq> []"
  shows "position_of p s = Some (length a) \<and> take (length a) s = a \<longleftrightarrow>
    (\<exists>b. s = a @ p @ b) \<and> \<not> sublist p (a @ butlast p)"
proof (cases "\<exists>b. s = a @ p @ b")
  case False
  then have "\<not> (starts_with (drop (length a) s) p \<and> take (length a) s = a)"
    by (metis append_take_drop_id starts_with_def)
  with False show ?thesis by (auto simp: position_of_Some)
next
  case True
  then obtain b where s: "s = a @ p @ b" by blast
  have short: "length (butlast p) < length p" using assms by simp
  have "(\<exists>j < length a. starts_with (drop j s) p) \<longleftrightarrow> sublist p (a @ butlast p)"
  proof
    assume "\<exists>j < length a. starts_with (drop j s) p"
    then obtain j where j: "j < length a" "take (length p) (drop j s) = p" by (auto simp: starts_with_def)
    have "take (j + length p) s = take j s @ p" using j(2) by (simp add: take_add)
    moreover have "take (j + length p) s = take (j + length p) (a @ butlast p)"
      using j(1) by (simp add: s butlast_conv_take)
    ultimately have "sublist p (take (j + length p) (a @ butlast p))" by simp
    then show "sublist p (a @ butlast p)" unfolding sublist_def by (metis append_take_drop_id append.assoc)
  next
    assume "sublist p (a @ butlast p)"
    then obtain x y where xy: "a @ butlast p = x @ p @ y" by (auto simp: sublist_def)
    from arg_cong [OF xy, of length] short have len: "length x < length a" by simp
    have "take (length p) (drop (length x) (a @ butlast p)) = p" by (simp add: xy)
    then have "take (length p) (drop (length x) s) = p"
      using len by (simp add: s butlast_conv_take)
    with len show "\<exists>j < length a. starts_with (drop j s) p" by (auto simp: starts_with_def)
  qed
  with s assms show ?thesis
    by (auto simp: position_of_Some starts_with_def)
qed

lemma crlf_split: "line = ''HTTP/1.1 200 OK'' \<or> line = ''HTTP/1.0 200 OK'' \<Longrightarrow>
   \<not> sublist crlf (line @ butlast crlf)"
  by (auto simp: crlf_def sublist_def append_eq_append_conv2 Cons_eq_append_conv append_eq_Cons_conv)

lemma healthy_response_parts:
  "healthy_response s \<longleftrightarrow> length s \<le> 4096 \<and> (\<exists>n k. position_of (crlf @ crlf) s = Some n
     \<and> position_of crlf (take n s) = Some k \<and> take k (take n s) \<in> {''HTTP/1.1 200 OK'', ''HTTP/1.0 200 OK''}
     \<and> drop (n + 4) s = ''ok'' @ [newline])"
proof (cases "position_of (crlf @ crlf) s")
  case (Some n)
  show ?thesis
  proof (cases "position_of crlf (take n s)")
    case (Some k)
    with \<open>position_of (crlf @ crlf) s = Some n\<close> show ?thesis
      by (simp only: healthy_response_def MAX_RESPONSE_BYTES_def Let_def option.case option.inject not_less) auto
  qed (simp add: healthy_response_def Let_def \<open>position_of (crlf @ crlf) s = Some n\<close>)
qed (simp add: healthy_response_def)

lemma crlf_shape:
  "crlf @ crlf \<noteq> []" "crlf \<noteq> []" "butlast (crlf @ crlf) = crlf @ [hd crlf]" "length (crlf @ crlf) = 4"
  by (simp_all add: crlf_def)

lemma header_split:
  "(\<exists>n. position_of (crlf @ crlf) s = Some n \<and> take n s = a \<and> drop (n + 4) s = b) \<longleftrightarrow>
     s = a @ crlf @ crlf @ b \<and> \<not> sublist (crlf @ crlf) (a @ crlf @ [hd crlf])"
proof -
  have "(\<exists>n. position_of (crlf @ crlf) s = Some n \<and> take n s = a \<and> drop (n + 4) s = b) \<longleftrightarrow>
      position_of (crlf @ crlf) s = Some (length a) \<and> take (length a) s = a \<and> drop (length a + 4) s = b"
    by (auto simp: position_of_Some)
  also have "\<dots> \<longleftrightarrow> s = a @ crlf @ crlf @ b \<and> \<not> sublist (crlf @ crlf) (a @ crlf @ [hd crlf])"
    using position_of_first [OF crlf_shape(1), of s a] crlf_shape(3,4) by auto
  finally show ?thesis .
qed

lemma status_split:
  assumes "line \<in> {''HTTP/1.1 200 OK'', ''HTTP/1.0 200 OK''}"
  shows "(\<exists>n. position_of crlf a = Some n \<and> take n a = line) \<longleftrightarrow> (\<exists>rest. a = line @ crlf @ rest)"
proof -
  have "(\<exists>n. position_of crlf a = Some n \<and> take n a = line) \<longleftrightarrow>
      position_of crlf a = Some (length line) \<and> take (length line) a = line"
    by (auto simp: position_of_Some)
  then show ?thesis
    using position_of_first [OF crlf_shape(2), of a line] crlf_split [of line] assms by blast
qed

text \<open>A response is healthy iff it is at most 4096 bytes: a status line of HTTP 1.0 or 1.1 that says
  200 OK, a line break, headers without an empty line, an empty line, and the body ok with a newline,
  byte for byte.\<close>

theorem healthy_response_exact:
  "healthy_response s \<longleftrightarrow> length s \<le> 4096 \<and>
     (\<exists>line headers. line \<in> {''HTTP/1.1 200 OK'', ''HTTP/1.0 200 OK''}
        \<and> s = line @ crlf @ headers @ crlf @ crlf @ ''ok'' @ [newline]
        \<and> \<not> sublist (crlf @ crlf) (line @ crlf @ headers @ crlf @ [hd crlf]))"
proof -
  let ?lines = "{''HTTP/1.1 200 OK'', ''HTTP/1.0 200 OK''}"
  have "healthy_response s \<longleftrightarrow> length s \<le> 4096 \<and> (\<exists>a line. line \<in> ?lines
      \<and> (\<exists>n. position_of (crlf @ crlf) s = Some n \<and> take n s = a \<and> drop (n + 4) s = ''ok'' @ [newline])
      \<and> (\<exists>n. position_of crlf a = Some n \<and> take n a = line))"
    unfolding healthy_response_parts by blast
  also have "\<dots> \<longleftrightarrow> length s \<le> 4096 \<and> (\<exists>a line. line \<in> ?lines
      \<and> s = a @ crlf @ crlf @ ''ok'' @ [newline] \<and> \<not> sublist (crlf @ crlf) (a @ crlf @ [hd crlf])
      \<and> (\<exists>rest. a = line @ crlf @ rest))"
    unfolding header_split conj_assoc by (intro conj_cong refl iff_exI status_split)
  also have "\<dots> \<longleftrightarrow> length s \<le> 4096 \<and> (\<exists>line headers. line \<in> ?lines
        \<and> s = line @ crlf @ headers @ crlf @ crlf @ ''ok'' @ [newline]
        \<and> \<not> sublist (crlf @ crlf) (line @ crlf @ headers @ crlf @ [hd crlf]))"
  proof -
    have "(\<exists>a line. line \<in> L \<and> s = a @ T \<and> \<not> P (a @ U) \<and> (\<exists>rest. a = line @ crlf @ rest)) \<longleftrightarrow>
        (\<exists>line headers. line \<in> L \<and> s = (line @ crlf @ headers) @ T \<and> \<not> P ((line @ crlf @ headers) @ U))"
      for L :: "bytes set" and T U P by blast
    from this [of ?lines "crlf @ crlf @ ''ok'' @ [newline]" "sublist (crlf @ crlf)" "crlf @ [hd crlf]"]
    show ?thesis by (simp only: append.assoc)
  qed
  finally show ?thesis .
qed

section \<open>The watchdog\<close>

text \<open>Notifications come at multiples of an interval that is positive and at most half of any timeout of
  two microseconds or more.\<close>

lemma notification_interval_bounds:
  "0 < notification_interval t" "2000 \<le> t \<Longrightarrow> 2 * notification_interval t \<le> t"
  by (auto simp: notification_interval_def MINIMUM_INTERVAL_def max_def)

lemma watchdog_times_nth:
  "k < length (watchdog_times i now sent) \<Longrightarrow> watchdog_times i now sent ! k = now + Suc k * i"
proof (induction sent arbitrary: now k)
  case (Cons s sent)
  then show ?case by (cases k) (auto split: if_splits)
qed simp

section \<open>Witness\<close>

definition demo_startup_env :: startup_env where
  "demo_startup_env = \<lparr>ve_config = demo_config_lib, ve_tls = demo_tls_lib, ve_tls_os = demo_tls_os,
     ve_prepare = (\<lambda>_. demo_env), ve_audit_fs = (demo_fs, demo_fs), ve_owner = 7,
     ve_listen = \<lparr>le_bind = True, le_notify_socket = None, le_notify = False, le_serve = True\<rparr>\<rparr>"

definition demo_startup_config :: config where
  "demo_startup_config = demo_config\<lparr>cf_audit := (cf_audit demo_config)\<lparr>ac_path := ''/v/a''\<rparr>\<rparr>"

lemma demo_audit_opened: "audit_open demo_fs demo_fs ''/v/a'' 7 = Inr (from_writer [newline])"
  by (simp add: audit_open_def validate_audit_path_def validate_parent_components_def file_name_def
    parent_components_def path_components_def is_absolute_def starts_with_def component_of_def
    demo_fs_def path_push_def ends_with_def open_anchored_audit_file_def demo_file_def
    validate_complete_tail_def)

lemma demo_started_server:
  "\<exists>st. PhaseServe st ServePlaintext \<in> set (snd (start demo_startup_env demo_startup_config))"
proof -
  have config: "sv_transport (cf_server demo_startup_config) = Plaintext" "cf_targets demo_startup_config = [PtyTarget demo_pty]"
    "ac_path (cf_audit demo_startup_config) = ''/v/a''" "cf_auth demo_startup_config = AuthDev ''dev''"
    "sv_public_url (cf_server demo_startup_config) = ''http://localhost/''"
    by (simp_all add: demo_startup_config_def demo_config_def build_config_def demo_raw_def)
  have contract: "validate_startup_contract demo_config_lib demo_startup_config = Inr ()"
    using demo_contract by (simp add: validate_startup_contract_def demo_startup_config_def)
  have ssh: "ssh_prepare (\<lambda>_. demo_env) [PtyTarget demo_pty] = Inr []" by (simp add: ssh_prepare_def)
  have origin: "origin_policy_new demo_config_lib ''http://localhost/'' = Inr (TupleOrigin ''http'' ''localhost'' 80)"
    by (simp add: origin_policy_new_def parse_origin_def demo_config_lib_def demo_url_def)
  have auth: "dev_auth_provider_new ''dev'' = Inr (DevAuthProvider (Identity ''dev'') [])"
    by (simp add: dev_auth_provider_new_def identity_new_def chars_ascii is_ascii_def is_control_def)
  obtain al where al: "target_allowlist_new [PtyTarget demo_pty] = Inr al"
    by (simp add: target_allowlist_new_def demo_pty_valid hm_get_def)
  have app: "\<exists>st. from_config_with_audit_pending_ssh demo_config_lib demo_startup_config log = Inr st" for log
    by (simp add: from_config_with_audit_pending_ssh_def config origin auth al)
  have prepared: "\<exists>st'. app_with_prepared_ssh [PtyTarget demo_pty] [] st = Inr st'" for st
    by (simp add: app_with_prepared_ssh_def validate_for_targets_def hm_len_def)
  from app obtain st where st: "from_config_with_audit_pending_ssh demo_config_lib demo_startup_config
      (from_writer [newline]) = Inr st" by blast
  from prepared obtain st' where st': "app_with_prepared_ssh [PtyTarget demo_pty] [] st = Inr st'" by blast
  have "\<exists>p ps. prepare_with_ssh demo_config_lib demo_startup_config (tls_load demo_tls_lib demo_tls_os)
      (ssh_prepare (\<lambda>_. demo_env)) (\<lambda>p. audit_open demo_fs demo_fs p 7)
      (from_config_with_audit_pending_ssh demo_config_lib) = (Inr p, ps) \<and> ps_transport p = ServePlaintext"
    by (simp add: prepare_with_ssh_def contract config ssh demo_audit_opened st st' phase_def)
  then show ?thesis
    by (auto simp: start_def start_with_ssh_def demo_startup_env_def bind_and_serve_def notify_ready_def phase_def)
qed

theorem served_application_witness:
  "\<exists>st. validate_startup_contract demo_config_lib demo_startup_config = Inr () \<and> app_audit_available st
     \<and> ts_entries (as_tickets st) = []"
proof -
  from demo_started_server obtain st where
    "PhaseServe st ServePlaintext \<in> set (snd (start demo_startup_env demo_startup_config))" by blast
  from served_application [OF this] show ?thesis
    by (auto simp: demo_startup_env_def)
qed

end
