(* ===== verification/Application_Limits.thy ===== *)
theory Application_Limits
  imports Application_Demo Startup_Safety
begin

text \<open>
  What the running application promises, for every interleaving of its tasks: from a served
  configuration on, its sessions are within the limits, each answers one session request of its own
  identity and target, every place of the lease table has one holder, and a session that ends was
  cleaned up.
\<close>

section \<open>From the configuration\<close>

lemma prepared_name:
  assumes "ssh_prepare env ts = Inr ps" "distinct (map st_name (ssh_targets ts))" "hm_get ps n = Some p"
  shows "pr_name p = n"
proof -
  from prepare_with_probe_ok [of env 0 ts "[]" ps] assms(1,2)
  have none: "\<forall>n. n \<notin> st_name ` set (ssh_targets ts) \<longrightarrow> hm_get ps n = None"
    and each: "\<forall>t \<in> set (ssh_targets ts). \<exists>j p. hm_get ps (st_name t) = Some p \<and> prepared_from (env j) t p"
    by (simp_all add: ssh_prepare_def bt_wf_def)
  from none assms(3) obtain t where t: "t \<in> set (ssh_targets ts)" "n = st_name t" by fastforce
  with each assms(3) obtain j where "prepared_from (env j) t p" by fastforce
  then show ?thesis by (simp add: t(2) prepared_from_def matches_target_def)
qed

lemma ssh_names_distinct: "distinct (map target_name ts) \<Longrightarrow> distinct (map st_name (ssh_targets ts))"
proof (induction ts)
  case (Cons t ts)
  have "st_name s \<in> target_name ` set ts" if "s \<in> set (ssh_targets ts)" for s
    using that by (induction ts rule: ssh_targets.induct) auto
  with Cons show ?case by (cases t) auto
qed simp

lemma served_fresh:
  assumes "PhaseServe st tr \<in> set (snd (start env c))"
  shows "fresh_application (cf_limits c) (at_rest st)" "names_ok (as_sessions st)"
proof -
  from served_state [OF assms] obtain origin auth targets audit ssh where
    targets: "target_allowlist_new (cf_targets c) = Inr targets" and ssh: "ssh_prepare (ve_prepare env) (cf_targets c) = Inr ssh"
    and st: "st = (let st0 = new_unprepared origin auth targets (ticket_store_new TICKET_TTL TICKET_CAPACITY) (cf_limits c) audit
      in st0\<lparr>as_prepared := ssh, as_sessions := with_prepared_ssh ssh (as_sessions st0)\<rparr>)" .
  show "fresh_application (cf_limits c) (at_rest st)"
    by (simp add: fresh_application_def st Let_def new_unprepared_def manager_build_def with_prepared_ssh_def
      ticket_store_new_def)
  note new = target_allowlist_new_ok [OF targets]
  have "\<forall>n t. allowlist_resolve targets n = Inr t \<longrightarrow> target_name t = n"
    by (simp add: allowlist_resolve_def new)
  with prepared_name [OF ssh ssh_names_distinct] new show "names_ok (as_sessions st)"
    by (simp add: names_ok_def st Let_def new_unprepared_def manager_build_def with_prepared_ssh_def)
qed

lemma served_reachable:
  assumes "PhaseServe st tr \<in> set (snd (start env c))" "(app_step lib envelope)\<^sup>*\<^sup>* (at_rest st) a"
  shows "app_reachable lib envelope (cf_limits c) a"
  using served_fresh [OF assms(1)] assms(2) by (auto simp: app_reachable_def intro!: exI [of _ "at_rest st"])

section \<open>The sessions of an application\<close>

text \<open>The tasks that hold a session are the live stakes of the ledger.\<close>

lemma pending_entries: "filter_mset (\<lambda>sk. sk_live sk \<and> P sk) (mset (concat (map entry_stakes es))) = {#}"
proof -
  have "filter_mset (\<lambda>sk. sk_live sk \<and> P sk) (mset (entry_stakes e)) = {#}" for e
    by (cases "(tk_reservation e, tk_identity e, tk_target e, False)" rule: reserved.cases) (simp_all add: entry_stakes_def)
  then show ?thesis by (induction es) simp_all
qed

lemma live_task:
  assumes "task_ok task"
  shows "filter_mset (\<lambda>sk. sk_live sk \<and> P (sk_identity sk)) (mset (task_stakes task))
    = (case session_holder task of Some who \<Rightarrow> if P who then mset (task_stakes task) else {#} | None \<Rightarrow> {#})"
    and "session_holder task \<noteq> None \<Longrightarrow> length (task_stakes task) = 1"
proof -
  have r: "filter_mset (\<lambda>sk. sk_live sk \<and> P (sk_identity sk)) (mset (reserved r who t live))
      = (if live \<and> P who then mset (reserved r who t live) else {#})" for r who t live
    by (cases "(r, who, t, live)" rule: reserved.cases) simp_all
  show "filter_mset (\<lambda>sk. sk_live sk \<and> P (sk_identity sk)) (mset (task_stakes task))
      = (case session_holder task of Some who \<Rightarrow> if P who then mset (task_stakes task) else {#} | None \<Rightarrow> {#})"
    by (cases task) (simp_all add: r)
  have l: "length (reserved r who t live) = 1" if "r \<noteq> Reservation None" for r who t live
    using that by (cases "(r, who, t, live)" rule: reserved.cases) simp_all
  show "length (task_stakes task) = 1" if "session_holder task \<noteq> None"
    using assms that l by (cases task) simp_all
qed

lemma live_sessions:
  assumes "list_all task_ok tasks"
  shows "size (filter_mset (\<lambda>sk. sk_live sk \<and> P (sk_identity sk)) (mset (concat (map task_stakes tasks))))
    = length (filter (\<lambda>task. \<exists>who. session_holder task = Some who \<and> P who) tasks)"
  using assms
proof (induction tasks)
  case (Cons task tasks)
  with live_task(1) [of task P] live_task(2) [of task] show ?case by (auto split: option.splits)
qed simp

lemma sessions_are_stakes:
  assumes "tasks_inv a"
  shows "length (filter (\<lambda>task. \<exists>who. session_holder task = Some who \<and> P who) (ap_tasks a))
    = size (filter_mset (\<lambda>sk. sk_live sk \<and> P (sk_identity sk)) (lg_stakes (ledger_of a)))"
  using live_sessions [of "ap_tasks a" P] assms
  by (simp add: ledger_of_def stakes_of_def pending_entries tasks_inv_def)

text \<open>C1: Whatever requests, upgrades and sessions of an application interleave, its connecting and running
  sessions are never more than the configured limit, nor those of one identity more than the limit per
  identity, as long as the counter of the places has not wrapped.\<close>

theorem sessions_within_limits:
  assumes reach: "app_reachable lib envelope l a" and few: "length (ap_requests a) \<le> 2 ^ 64"
  shows "length (filter (\<lambda>task. session_holder task \<noteq> None) (ap_tasks a)) \<le> unat (max_sessions l)
    \<and> length (filter (\<lambda>task. session_holder task = Some who) (ap_tasks a)) \<le> unat (max_sessions_per_user l)"
proof -
  note inv = reachable_inv [OF reach]
  note bound = live_stakes_bounded(1) [OF inv(2) [OF few]] live_stakes_bounded(2) [OF inv(2) [OF few], of who]
  from sessions_are_stakes [OF inv(1), of "\<lambda>_. True"] sessions_are_stakes [OF inv(1), of "\<lambda>w. w = who"] bound
  show ?thesis by simp
qed

text \<open>The place a session task has, and the name of its target.\<close>

fun session_place :: "app_task \<Rightarrow> reservation" where
  "session_place (Connecting i t cn) = cn_reservation cn"
| "session_place (Running i t su) = su_reservation su"
| "session_place _ = Reservation None"

fun session_target :: "app_task \<Rightarrow> string" where
  "session_target (Connecting i t cn) = cn_target_name cn"
| "session_target (Running i t su) = su_target_name su"
| "session_target _ = []"

lemma session_stake:
  assumes "task_ok task" "session_holder task = Some who"
  obtains k t where "task_stakes task = [\<lparr>sk_place = k, sk_identity = who, sk_target = t, sk_live = True\<rparr>]"
    "session_place task = Reservation (Some k)" "session_target task = target_name t"
proof -
  have r: "\<exists>k. r = Reservation (Some k)" if "r \<noteq> Reservation None" for r
    using that by (metis not_None_eq reservation.exhaust)
  show ?thesis
  proof (cases task)
    case (Connecting i t cn)
    with assms r [of "cn_reservation cn"] that show ?thesis by auto
  next
    case (Running i t su)
    with assms r [of "su_reservation su"] that show ?thesis by auto
  qed (use assms in simp_all)
qed

lemma session_places:
  assumes "list_all task_ok tasks"
  shows "mset (map session_place (filter (\<lambda>task. session_holder task \<noteq> None) tasks))
    = image_mset (\<lambda>sk. Reservation (Some (sk_place sk))) (filter_mset sk_live (mset (concat (map task_stakes tasks))))"
  using assms
proof (induction tasks)
  case (Cons task tasks)
  show ?case
  proof (cases "session_holder task")
    case None
    with live_task(1) [of task "\<lambda>_. True"] Cons show ?thesis by simp
  next
    case (Some who)
    from Cons.prems have "task_ok task" by simp
    then obtain k t where "task_stakes task = [\<lparr>sk_place = k, sk_identity = who, sk_target = t, sk_live = True\<rparr>]"
      "session_place task = Reservation (Some k)" using Some by (rule session_stake)
    with Cons Some show ?thesis by simp
  qed
qed simp

lemma count_places:
  "(\<And>k. Multiset.count (image_mset sk_place M) k \<le> 1) \<Longrightarrow>
   Multiset.count (image_mset (\<lambda>sk. Reservation (Some (sk_place sk))) M) r \<le> 1"
proof (induction M)
  case (add sk M)
  have "Multiset.count (image_mset sk_place M) k \<le> 1" for k
    using add.prems [of k] by (auto split: if_splits)
  note IH = add.IH [OF this]
  show ?case
  proof (cases "r = Reservation (Some (sk_place sk))")
    case True
    have "sk_place sk \<noteq> sk_place sk'" if "sk' \<in># M" for sk'
      using other_place [of sk M sk'] add.prems that by fastforce
    then have "r \<notin># image_mset (\<lambda>sk. Reservation (Some (sk_place sk))) M" by (auto simp: True)
    then have "Multiset.count (image_mset (\<lambda>sk. Reservation (Some (sk_place sk))) M) r = 0" by (simp only: not_in_iff)
    then show ?thesis by (simp add: True)
  qed (use IH in simp)
qed simp

lemma distinct_by_count: "(\<And>x. Multiset.count (mset xs) x \<le> 1) \<Longrightarrow> distinct xs"
proof (induction xs)
  case (Cons y ys)
  have "Multiset.count (mset ys) x \<le> Multiset.count (mset (y # ys)) x" for x by simp
  then have "Multiset.count (mset ys) x \<le> 1" for x using Cons.prems [of x] by (rule le_trans)
  moreover have "y \<notin># mset ys" using Cons.prems [of y] by (simp add: not_in_iff)
  ultimately show ?case using Cons.IH by simp
qed simp

text \<open>C2: Every connecting or running session answers one session request of its own: the request that
  took its place was made for the identity the session belongs to and for the target it runs, and no
  two sessions have the same place.\<close>

theorem sessions_answer_requests:
  assumes reach: "app_reachable lib envelope l a" and few: "length (ap_requests a) \<le> 2 ^ 64"
  shows "distinct (map session_place (filter (\<lambda>task. session_holder task \<noteq> None) (ap_tasks a)))
    \<and> (\<forall>task \<in> set (ap_tasks a). \<forall>who. session_holder task = Some who \<longrightarrow>
        (\<exists>k t. session_place task = Reservation (Some k) \<and> unat k < length (ap_requests a)
          \<and> ap_requests a ! unat k = (who, t) \<and> session_target task = target_name t))"
proof (intro conjI ballI allI impI)
  from reachable_inv(1) [OF reach] have ok: "list_all task_ok (ap_tasks a)" by (simp add: tasks_inv_def)
  note inv = reachable_inv(2) [OF reach few]
  let ?S = "filter_mset sk_live (mset (concat (map task_stakes (ap_tasks a))))"
  have "image_mset sk_place ?S \<subseteq># image_mset sk_place (lg_stakes (ledger_of a))"
    by (intro image_mset_subseteq_mono) (simp add: ledger_of_def stakes_of_def subset_mset.add_increasing)
  then have "Multiset.count (image_mset sk_place ?S) k \<le> 1" for k
    using mset_subset_eq_count [of "image_mset sk_place ?S" _ k] inv
    by (fastforce simp: ledger_inv_def Let_def intro: le_trans)
  then have "Multiset.count (image_mset (\<lambda>sk. Reservation (Some (sk_place sk))) ?S) r \<le> 1" for r
    by (rule count_places)
  then show "distinct (map session_place (filter (\<lambda>task. session_holder task \<noteq> None) (ap_tasks a)))"
    unfolding session_places [OF ok, symmetric] by (rule distinct_by_count)
  fix task who assume task: "task \<in> set (ap_tasks a)" "session_holder task = Some who"
  with ok have "task_ok task" by (simp add: list_all_iff)
  then obtain k t where st: "task_stakes task = [\<lparr>sk_place = k, sk_identity = who, sk_target = t, sk_live = True\<rparr>]"
    and names: "session_place task = Reservation (Some k)" "session_target task = target_name t"
    using task(2) by (rule session_stake)
  from st task(1) have "\<lparr>sk_place = k, sk_identity = who, sk_target = t, sk_live = True\<rparr> \<in># lg_stakes (ledger_of a)"
    by (auto simp: ledger_of_def stakes_of_def intro!: bexI [of _ task])
  with inv have "stake_ok (ap_requests a) (cp_leases (lg_capacity (ledger_of a)))
      \<lparr>sk_place = k, sk_identity = who, sk_target = t, sk_live = True\<rparr>"
    by (simp add: ledger_inv_def Let_def) (simp add: ledger_of_def)
  with names show "\<exists>k t. session_place task = Reservation (Some k) \<and> unat k < length (ap_requests a)
          \<and> ap_requests a ! unat k = (who, t) \<and> session_target task = target_name t"
    by (auto simp: stake_ok_def)
qed

text \<open>C5: No place is lost or given twice: every lease of the table is held by exactly one ticket, request,
  upgrade or session, of its own identity, and is live exactly when that is a session; so an application
  in which nothing is left has an empty table.\<close>

theorem places_accounted:
  assumes reach: "app_reachable lib envelope l a" and few: "length (ap_requests a) \<le> 2 ^ 64"
  shows "(\<forall>k x. hm_get (cp_leases (mg_capacity (as_sessions (ap_state a)))) k = Some x \<longrightarrow>
      (\<exists>sk. filter_mset (\<lambda>sk. sk_place sk = k) (stakes_of (ap_state a) (ap_tasks a)) = {#sk#}
        \<and> sk_identity sk = ls_identity x \<and> (sk_live sk \<longleftrightarrow> ls_state x = Live)))
    \<and> (ap_tasks a = [] \<and> ts_entries (as_tickets (ap_state a)) = []
        \<longrightarrow> cp_leases (mg_capacity (as_sessions (ap_state a))) = [])"
proof (intro conjI allI impI)
  let ?M = "stakes_of (ap_state a) (ap_tasks a)" and ?leases = "cp_leases (mg_capacity (as_sessions (ap_state a)))"
  from reachable_inv(2) [OF reach few]
  have uniq: "\<forall>k. Multiset.count (image_mset sk_place ?M) k \<le> 1"
    and ok: "\<And>sk. sk \<in># ?M \<Longrightarrow> stake_ok (ap_requests a) ?leases sk"
    and owned: "\<And>k x. hm_get ?leases k = Some x \<Longrightarrow> \<exists>sk \<in># ?M. sk_place sk = k" and wf: "hm_wf ?leases"
    by (simp_all add: ledger_inv_def ledger_of_def Let_def capacity_inv_wf)
  fix k x assume x: "hm_get ?leases k = Some x"
  from owned [OF x] obtain sk where sk: "sk \<in># ?M" "sk_place sk = k" by blast
  then obtain rest where rest: "?M = add_mset sk rest" by (meson multi_member_split)
  have "\<forall>sk' \<in># rest. sk_place sk' \<noteq> k" using other_place [of sk rest] uniq sk(2) by (simp add: rest)
  then have "filter_mset (\<lambda>sk. sk_place sk = k) rest = {#}" by (induction rest) auto
  then have "filter_mset (\<lambda>sk. sk_place sk = k) ?M = {#sk#}" by (simp add: rest sk(2))
  with ok [OF sk(1)] x sk(2) show "\<exists>sk. filter_mset (\<lambda>sk. sk_place sk = k) ?M = {#sk#}
        \<and> sk_identity sk = ls_identity x \<and> (sk_live sk \<longleftrightarrow> ls_state x = Live)"
    by (auto simp: stake_ok_def)
next
  assume "ap_tasks a = [] \<and> ts_entries (as_tickets (ap_state a)) = []"
  then have "lg_stakes (ledger_of a) = {#}" by (simp add: ledger_of_def stakes_of_def hm_values_def)
  with reachable_inv(2) [OF reach few] have "hm_get (cp_leases (mg_capacity (as_sessions (ap_state a)))) k = None" for k
    by (simp add: ledger_inv_def Let_def) (simp add: ledger_of_def)
  then show "cp_leases (mg_capacity (as_sessions (ap_state a))) = []"
    by (metis hm_get_None list.set_intros(1) neq_Nil_conv image_eqI)
qed

text \<open>C10: The application implements the ledger of places: it starts as the empty ledger of its limits, and
  every step of every task is a run of the ledger's own operations.\<close>

theorem application_refines_ledger:
  assumes "app_reachable lib envelope l a"
  shows "ledger_step\<^sup>*\<^sup>* (ledger_new l) (ledger_of a)
    \<and> (\<forall>a'. app_step lib envelope a a' \<longrightarrow> ledger_step\<^sup>*\<^sup>* (ledger_of a) (ledger_of a'))"
  using reachable_run [OF assms] app_step_ledger [OF _ reachable_inv(1) [OF assms]] by blast

text \<open>A running session of an application never unwinds when it completes, and its place is given back
  only when its process group was killed, reaped and seen gone.\<close>

theorem running_sessions_end_clean:
  assumes "app_reachable lib envelope l a" "Running i t su \<in> set (ap_tasks a)"
    and "supervise libs env su audit cap = result"
  shows "result \<noteq> SupervisePanicked
    \<and> (\<forall>su' audit' cap'. result = SuperviseEnded su' audit' cap' \<longrightarrow>
        cap' = reservation_drop (su_reservation su) cap \<and> su_final su' \<noteq> None
        \<and> (\<exists>status. cleanup_proven (se_cleanup env) status (su_child su')))"
proof -
  from reachable_inv(1) [OF assms(1)] assms(2) have ok: "child_inv (su_child su)" "su_state su = started_machine"
    by (auto simp: tasks_inv_def list_all_iff)
  obtain r c where s: "supervise_child (su_limits su) (su_created_at su) (se_polls env) (se_cleanup env) (su_child su)
      = (r, c)" by fastforce
  show ?thesis
  proof (cases r)
    case (Some ro)
    obtain reason outcome where ro: "ro = (reason, outcome)" by fastforce
    from supervise_child_result [OF ok(1)] s Some ro obtain status where "cleanup_proven (se_cleanup env) status c"
      by blast
    with assms(3) s Some ro ok(2) show ?thesis
      by (auto simp: supervise_def complete_supervisor_def started_machine_close Let_def)
  qed (use assms(3) s in \<open>auto simp: supervise_def\<close>)
qed

text \<open>Served one after the other, the pieces of a session request are the handler, and those of an
  upgrade are the upgrade.\<close>

theorem handlers_in_pieces:
  "serve_request lib env EpSessions rq st =
     (case session_request_piece lib env rq st of
        (Inl resp, st') \<Rightarrow> (resp, st')
      | (Inr who, st') \<Rightarrow>
          (case resolve_piece lib env rq who (rq_peer rq) st' of
             (Inl resp, st'') \<Rightarrow> (resp, st'')
           | (Inr (who', t, expiry, r), st'') \<Rightarrow> issue_ticket lib env who' t (rq_peer rq) expiry r st''))
   \<and> accept_upgrade envelope libs aenv who remote tickets m =
     (case redeem_piece envelope libs aenv who remote tickets m of
        (Inl res, tickets', m') \<Rightarrow> (res, tickets', m')
      | (Inr grant, tickets', m') \<Rightarrow>
          (case accept_redeemed libs aenv who remote grant m' of (res, m'') \<Rightarrow> (res, tickets', m'')))"
  using session_request_in_pieces [of lib env rq st] accept_in_pieces [of envelope libs aenv who remote tickets m]
  by (auto simp: resolved_after_def issued_after_def split: prod.split sum.split)

section \<open>Witnesses\<close>

theorem sessions_within_limits_witness:
  "\<exists>a :: application. length (filter (\<lambda>task. session_holder task = Some alice) (ap_tasks a)) = 1
     \<and> 1 \<le> unat (max_sessions_per_user demo_limits)"
proof -
  obtain a su where a: "app_reachable demo_server_lib demo_envelope demo_limits a"
    "ap_tasks a = [Running 0 (PtyTarget demo_pty) su]" "su_identity su = alice" "ap_requests a = [(alice, PtyTarget demo_pty)]"
    using demo_run by blast
  from sessions_within_limits [OF a(1), of alice] a(2-4) show ?thesis by (intro exI [of _ a]) simp
qed

theorem sessions_answer_requests_witness:
  "\<exists>su :: supervisor. su_identity su = alice \<and> su_target_name su = ''pty'' \<and> su_reservation su = Reservation (Some 0)"
proof -
  obtain a su where a: "app_reachable demo_server_lib demo_envelope demo_limits a"
    "ap_tasks a = [Running 0 (PtyTarget demo_pty) su]" "su_identity su = alice" "ap_requests a = [(alice, PtyTarget demo_pty)]"
    using demo_run by blast
  from sessions_answer_requests [OF a(1)] a(2-4) have "su_target_name su = ''pty''" "su_reservation su = Reservation (Some 0)"
    by (auto simp: demo_pty_def unat_eq_0)
  with a(3) show ?thesis by blast
qed

theorem places_accounted_witness:
  "\<exists>(a :: application) sk. filter_mset (\<lambda>sk. sk_place sk = 0) (stakes_of (ap_state a) (ap_tasks a)) = {#sk#}
     \<and> sk_identity sk = alice \<and> sk_live sk"
proof -
  obtain a where a: "app_reachable demo_server_lib demo_envelope demo_limits a"
    "ap_requests a = [(alice, PtyTarget demo_pty)]" "mg_capacity (as_sessions (ap_state a)) = demo_place Live"
    using demo_run by blast
  then have "hm_get (cp_leases (mg_capacity (as_sessions (ap_state a)))) 0 = Some \<lparr>ls_identity = alice, ls_state = Live\<rparr>"
    by (simp add: demo_place_def hm_get_def)
  with places_accounted [OF a(1)] a(2) obtain sk where
    "filter_mset (\<lambda>sk. sk_place sk = 0) (stakes_of (ap_state a) (ap_tasks a)) = {#sk#}" "sk_identity sk = alice" "sk_live sk"
    by fastforce
  then show ?thesis by blast
qed

theorem application_refines_ledger_witness:
  "\<exists>lg :: ledger. ledger_step\<^sup>*\<^sup>* (ledger_new demo_limits) lg \<and> lg_capacity lg = demo_place Live"
proof -
  obtain a where a: "app_reachable demo_server_lib demo_envelope demo_limits a"
    "mg_capacity (as_sessions (ap_state a)) = demo_place Live"
    using demo_run by blast
  from application_refines_ledger [OF a(1)] a(2) show ?thesis
    by (intro exI [of _ "ledger_of a"]) (simp add: ledger_of_def)
qed

theorem running_sessions_end_clean_witness:
  "\<exists>su :: supervisor. su_identity su = alice \<and> supervise demo_libs (demo_supervise_env []) su None (demo_place Live) \<noteq> SupervisePanicked"
proof -
  obtain a su where a: "app_reachable demo_server_lib demo_envelope demo_limits a"
    "ap_tasks a = [Running 0 (PtyTarget demo_pty) su]" "su_identity su = alice"
    using demo_run by blast
  from running_sessions_end_clean [OF a(1), of 0 "PtyTarget demo_pty" su demo_libs "demo_supervise_env []" None "demo_place Live"]
    a(2,3) show ?thesis by auto
qed

end
