(* ===== verification/Application_Registry.thy ===== *)
theory Application_Registry
  imports Application_Demo
begin

text \<open>
  The registry of supervisors in the running application (\<open>SupervisorRegistry\<close> in \<open>session.rs\<close>): its
  numbers are exactly those of the connecting and running sessions, each once. So a shutdown that has
  marked the manager and then sees an empty registry leaves an application without sessions, for good.
\<close>

section \<open>The registry and the tasks\<close>

fun session_number :: "app_task \<Rightarrow> u64 list" where
  "session_number (Connecting i t cn) = [i]"
| "session_number (Running i t su) = [i]"
| "session_number _ = []"

fun waiting_task :: "app_task \<Rightarrow> bool" where
  "waiting_task (Requesting remote who t expiry r) = True"
| "waiting_task (Attaching who remote t r) = True"
| "waiting_task _ = False"

text \<open>The tickets and tasks that may still start a session.\<close>

definition waiting :: "application \<Rightarrow> nat" where
  "waiting a = hm_len (ts_entries (as_tickets (ap_state a))) + length (filter waiting_task (ap_tasks a))"

abbreviation registry_of :: "application \<Rightarrow> registry" where
  "registry_of a \<equiv> mg_registry (as_sessions (ap_state a))"

text \<open>Every session that was ever registered used up a request, so the numbers cannot have wrapped while
  the requests are fewer than \<open>2 ^ 64\<close>.\<close>

definition registry_inv :: "application \<Rightarrow> bool" where
  "registry_inv a \<longleftrightarrow> hm_wf (rg_active (registry_of a))
     \<and> mset (map fst (rg_active (registry_of a))) = mset (concat (map session_number (ap_tasks a)))
     \<and> (\<exists>n. rg_next_id (registry_of a) = of_nat n \<and> (\<forall>i \<in> fst ` set (rg_active (registry_of a)). unat i < n)
          \<and> n + waiting a \<le> length (ap_requests a))"

lemma insert_keys: "hm_get m k = None \<Longrightarrow> map fst (hm_insert k v m) = map fst m @ [k]"
  by (induction m) (auto simp: hm_insert_def hm_get_def split: if_splits)

lemma insert_keys_old: "hm_get m k = Some w \<Longrightarrow> map fst (hm_insert k v m) = map fst m"
  by (induction m) (auto simp: hm_insert_def hm_get_def split: if_splits)

lemma remove_keys: "hm_wf m \<Longrightarrow> k \<in> fst ` set m \<Longrightarrow> mset (map fst m) = add_mset k (mset (map fst (hm_remove k m)))"
  by (induction m) (auto simp: hm_remove_def hm_wf_def delete_id)

text \<open>A step that leaves the registry alone.\<close>

lemma registry_inv_same:
  assumes "registry_inv a" "registry_of a' = registry_of a"
    and "mset (concat (map session_number (ap_tasks a'))) = mset (concat (map session_number (ap_tasks a)))"
    and "waiting a' + length (ap_requests a) \<le> waiting a + length (ap_requests a')"
  shows "registry_inv a'"
proof -
  from assms(1) obtain n where n: "rg_next_id (registry_of a) = of_nat n"
    "\<forall>i \<in> fst ` set (rg_active (registry_of a)). unat i < n" "n + waiting a \<le> length (ap_requests a)"
    unfolding registry_inv_def by blast
  from n(3) assms(4) have "n + waiting a' \<le> length (ap_requests a')" by linarith
  with assms(1-3) n(1,2) show ?thesis unfolding registry_inv_def by auto
qed

text \<open>The end of a session's task.\<close>

lemma registry_inv_end:
  assumes inv: "registry_inv a" and tasks: "ap_tasks a = xs @ task # ys" "session_number task = [i]"
    and new: "concat (map session_number zs) = []" "filter waiting_task zs = []"
  shows "registry_inv (a\<lparr>ap_state := task_ended i audit cap (ap_state a), ap_tasks := xs @ zs @ ys, ap_missed := missed\<rparr>)"
proof -
  from inv obtain n where n: "rg_next_id (registry_of a) = of_nat n"
    "\<forall>i \<in> fst ` set (rg_active (registry_of a)). unat i < n" "n + waiting a \<le> length (ap_requests a)"
    and wf: "hm_wf (rg_active (registry_of a))"
    and keys: "mset (map fst (rg_active (registry_of a))) = mset (concat (map session_number (ap_tasks a)))"
    unfolding registry_inv_def by blast
  let ?m = "rg_active (registry_of a)"
  from keys tasks have "i \<in># mset (map fst ?m)" by simp
  then have i: "i \<in> fst ` set ?m" by simp
  from remove_keys [OF wf i] keys tasks
  have "mset (map fst (hm_remove i ?m)) = mset (concat (map session_number (xs @ zs @ ys)))" using new(1) by simp
  moreover have "fst ` set (hm_remove i ?m) \<subseteq> fst ` set ?m"
    using arg_cong [OF remove_keys [OF wf i], of set_mset] by auto
  with n(2) have "\<forall>j \<in> fst ` set (hm_remove i ?m). unat j < n" by blast
  moreover have "\<not> waiting_task task" using tasks(2) by (cases task) simp_all
  ultimately show ?thesis using n hm.wf_del [OF wf] tasks(1) new(2)
    by (auto simp: registry_inv_def waiting_def task_ended_def on_registry_def store_places_def
      supervisor_completion_def intro!: exI [of _ n])
qed

text \<open>The registration of a new one.\<close>

lemma registry_inv_register:
  assumes inv: "registry_inv a" and tasks: "ap_tasks a = xs @ Attaching who remote t r # ys"
    and reg: "register_supervisor (registry_of a) = (i, mg_registry m)" and few: "length (ap_requests a) \<le> 2 ^ 64"
  shows "registry_inv (a\<lparr>ap_state := (ap_state a)\<lparr>as_sessions := m\<rparr>, ap_tasks := xs @ Connecting i t' cn # ys\<rparr>)"
proof -
  let ?m = "rg_active (registry_of a)"
  from inv obtain n where n: "rg_next_id (registry_of a) = of_nat n" "\<forall>i \<in> fst ` set ?m. unat i < n"
      "n + waiting a \<le> length (ap_requests a)"
    and wf: "hm_wf ?m" and keys: "mset (map fst ?m) = mset (concat (map session_number (ap_tasks a)))"
    unfolding registry_inv_def by blast
  have w: "waiting a = Suc (hm_len (ts_entries (as_tickets (ap_state a))) + length (filter waiting_task (xs @ ys)))"
    by (simp add: waiting_def tasks)
  with n(3) few have "n < 2 ^ 64" by linarith
  then have "unat (of_nat n :: u64) = n" by (simp add: unat_of_nat take_bit_nat_eq_self)
  with reg n(1) have i: "i = of_nat n" "unat i = n" by (auto simp: register_supervisor_def)
  then have new: "hm_get ?m i = None" using n(2) by (auto simp: hm_get_None)
  have "mg_registry m = snd (register_supervisor (registry_of a))" by (simp add: reg)
  then have m: "rg_active (mg_registry m) = hm_insert i None ?m" "rg_next_id (mg_registry m) = of_nat (Suc n)"
    using n(1) i(1) by (simp_all add: register_supervisor_def)
  have "fst ` set (hm_insert i None ?m) = insert i (fst ` set ?m)"
    using arg_cong [OF insert_keys [OF new, of None], of set] by auto
  with n(2) i have "\<forall>j \<in> fst ` set (hm_insert i None ?m). unat j < Suc n" by auto
  moreover have "mset (map fst (hm_insert i None ?m)) = mset (concat (map session_number (xs @ Connecting i t' cn # ys)))"
    using keys by (simp add: insert_keys [OF new] tasks)
  ultimately show ?thesis
    using w n(3) hm.wf_put [OF wf] m
    by (auto simp: registry_inv_def waiting_def intro!: exI [of _ "Suc n"])
qed

lemma accept_redeemed_registry:
  assumes "accept_redeemed libs env who remote (t, r) m = (res, m')"
  shows "case res of
      AcceptStarting t' i cn \<Rightarrow> \<not> rg_shutting_down (mg_registry m) \<and> register_supervisor (mg_registry m) = (i, mg_registry m')
    | _ \<Rightarrow> mg_registry m' = mg_registry m"
proof -
  have resolved: "case x of Some (Inr (i, cn)) \<Rightarrow> register_supervisor (mg_registry m1) = (i, mg_registry m2)
      | _ \<Rightarrow> mg_registry m2 = mg_registry m1"
    if "start_resolved libs senv who tn dims r' remote m1 = (x, m2)" for senv tn dims r' m1 x m2
    using that by (auto simp: start_resolved_def start_admitted_def record_backend_resolution_denial_def
      record_denial_def drop_reservation_def split: sum.splits option.splits prod.splits if_splits)
  obtain x m1 where start: "start_reserved_with_remote libs (ae_start env) r who (target_name t) INITIAL_SIZE remote m = (x, m1)"
    by fastforce
  then have started: "case x of Some (Inr (i, cn)) \<Rightarrow> \<not> rg_shutting_down (mg_registry m)
      \<and> register_supervisor (mg_registry m) = (i, mg_registry m1) | _ \<Rightarrow> mg_registry m1 = mg_registry m"
    by (fastforce simp: start_reserved_with_remote_def drop_reservation_def dest: resolved
      split: if_splits sum.splits prod.splits option.splits)
  have "supports_redeemed_target t" by (simp add: supports_redeemed_target_def split: target.split)
  with assms start started show ?thesis
    by (auto simp: accept_redeemed_def accept_failed_def on_log_def told_if_def
      split: option.splits sum.splits prod.splits if_splits)
qed

lemma request_close_keys: "map fst (rg_active (request_close_of i reason r)) = map fst (rg_active r)"
  by (auto simp: request_close_of_def insert_keys_old split: option.split)

lemma registry_inv_keys:
  assumes "registry_inv a" "map fst (rg_active (f (registry_of a))) = map fst (rg_active (registry_of a))"
    "rg_next_id (f (registry_of a)) = rg_next_id (registry_of a)"
  shows "registry_inv (a\<lparr>ap_state := on_registry f (ap_state a)\<rparr>)"
proof -
  have "fst ` set (rg_active (f (registry_of a))) = fst ` set (rg_active (registry_of a))"
    using arg_cong [OF assms(2), of set] by simp
  with assms show ?thesis
    by (simp add: registry_inv_def waiting_def on_registry_def hm_wf_def)
qed

lemma upgraded_numbers [simp]: "concat (map session_number (upgraded resp)) = []" "filter waiting_task (upgraded resp) = []"
  by (cases "rs_body resp"; simp add: upgraded_def)+

lemma answering_numbers [simp]:
  "concat (map session_number (answering reply cn t)) = []" "filter waiting_task (answering reply cn t) = []"
  by (cases reply; simp add: answering_def)+

lemma app_step_requests: "app_step lib envelope a a' \<Longrightarrow> prefix (ap_requests a) (ap_requests a')"
  by (auto elim!: app_step.cases request_step.cases upgrade_step.cases session_step.cases)

lemma request_step_registry:
  assumes "request_step lib a a'" "tasks_inv a" "registry_inv a"
  shows "registry_inv a'"
  using assms(1)
proof (cases rule: request_step.cases)
  case (other_request ep env rq resp st)
  from places.kept_other [OF other_request(2,3)] show ?thesis
    by (intro registry_inv_same [OF assms(3)]) (simp_all add: other_request(1) same_places_def waiting_def)
next
  case (request_answered env rq resp st)
  from places.kept_session_request [OF request_answered(2)] show ?thesis
    by (intro registry_inv_same [OF assms(3)]) (simp_all add: request_answered(1) same_places_def waiting_def)
next
  case (request_admitted env rq who st)
  from places.kept_session_request [OF request_admitted(2)] show ?thesis
    by (intro registry_inv_same [OF assms(3)]) (simp_all add: request_admitted(1) same_places_def waiting_def)
next
  case (request_gone xs rq who ys)
  then show ?thesis by (intro registry_inv_same [OF assms(3)]) (simp_all add: waiting_def)
next
  case (request_refused xs rq who ys env resp st)
  from resolve_piece_effect [OF request_refused(3)] request_refused(2) show ?thesis
    by (intro registry_inv_same [OF assms(3)]) (simp_all add: request_refused(1) request_effect_def waiting_def)
next
  case (request_reserved xs rq who ys env who' t expiry r st)
  from resolve_piece_effect [OF request_reserved(3)] request_reserved(2) show ?thesis
    by (intro registry_inv_same [OF assms(3)]) (simp_all add: request_reserved(1) request_effect_def waiting_def)
next
  case (request_finished xs remote who t expiry r ys env resp st)
  from assms(2) have wf: "hm_wf (ts_entries (as_tickets (ap_state a)))" by (simp add: tasks_inv_def)
  from issue_ticket_effect [OF request_finished(3) wf] request_finished(1,2) show ?thesis
    by (intro registry_inv_same [OF assms(3)]) (simp_all add: waiting_def)
qed

lemma upgrade_step_registry:
  assumes "upgrade_step lib envelope a a'" "tasks_inv a" "registry_inv a" "length (ap_requests a') \<le> 2 ^ 64"
  shows "registry_inv a'"
  using assms(1)
proof (cases rule: upgrade_step.cases)
  case (upgrade_refused xs who remote ys aenv res tickets m)
  from assms(2) have wf: "hm_wf (ts_entries (as_tickets (ap_state a)))" by (simp add: tasks_inv_def)
  from redeem_piece_effect [OF upgrade_refused(3) wf] upgrade_refused(1,2) show ?thesis
    by (intro registry_inv_same [OF assms(3)]) (simp_all add: waiting_def)
next
  case (upgrade_redeemed xs who remote ys aenv t r tickets m)
  from assms(2) have wf: "hm_wf (ts_entries (as_tickets (ap_state a)))" by (simp add: tasks_inv_def)
  from redeem_piece_effect [OF upgrade_redeemed(3) wf] upgrade_redeemed(1,2) show ?thesis
    by (intro registry_inv_same [OF assms(3)]) (simp_all add: waiting_def)
next
  case (attach_failed xs who remote t r ys aenv res m)
  then have "registry_of a' = registry_of a"
    using accept_redeemed_registry [OF attach_failed(3)] by (cases res) simp_all
  with attach_failed(1,2) show ?thesis
    by (intro registry_inv_same [OF assms(3)]) (simp_all add: waiting_def)
next
  case (attach_started xs who remote t r ys aenv t' i cn m)
  with accept_redeemed_registry [OF attach_started(3)] registry_inv_register [OF assms(3) attach_started(2)] assms(4)
  show ?thesis by simp
next
  case (upgrade_answered xs who remote t e ys ans res m)
  with on_log_frame [OF upgrade_answered(3)] show ?thesis
    by (intro registry_inv_same [OF assms(3)]) (simp_all add: waiting_def)
qed

lemma session_step_registry:
  assumes "session_step lib a a'" "tasks_inv a" "registry_inv a"
  shows "registry_inv a'"
  using assms(1)
proof (cases rule: session_step.cases)
  case (connection_refused xs i t cn ys cenv reply events c audit cap)
  with registry_inv_end [OF assms(3) connection_refused(2), of i "answering reply cn t"] show ?thesis by simp
next
  case (connection_admitted xs i t cn ys cenv su sn audit cap)
  then show ?thesis
    by (intro registry_inv_same [OF assms(3)]) (simp_all add: waiting_def store_places_def)
next
  case (session_ended xs i t su ys senv su' audit cap)
  with registry_inv_end [OF assms(3) session_ended(2), of i "[]"] show ?thesis by simp
next
  case (close_requested i reason)
  have "rg_next_id (request_close_of i reason (registry_of a)) = rg_next_id (registry_of a)"
    by (simp add: request_close_of_def split: option.split)
  with registry_inv_keys [where f = "request_close_of i reason", OF assms(3) request_close_keys] close_requested
  show ?thesis by simp
next
  case shutdown_marked
  let ?b = "a\<lparr>ap_state := store_places (mg_audit (as_sessions (ap_state a)))
    (close_pending (mg_capacity (as_sessions (ap_state a)))) (ap_state a)\<rparr>"
  have "registry_inv ?b"
    by (intro registry_inv_same [OF assms(3)]) (simp_all add: waiting_def store_places_def)
  then show ?thesis
    using registry_inv_keys [of ?b "\<lambda>r. snd (shutdown_mark r)"] shutdown_marked
    by (simp add: mark_shutdown_def shutdown_mark_def)
qed

lemma app_step_registry:
  "app_step lib envelope a a' \<Longrightarrow> tasks_inv a \<Longrightarrow> registry_inv a \<Longrightarrow> length (ap_requests a') \<le> 2 ^ 64 \<Longrightarrow> registry_inv a'"
  by (elim app_step.cases) (auto intro: request_step_registry upgrade_step_registry session_step_registry)

lemma fresh_registry: "fresh_application l a \<Longrightarrow> registry_inv a"
  by (simp add: registry_inv_def fresh_application_def registry_new_def waiting_def hm_wf_def)

lemma run_registry:
  assumes "(app_step lib envelope)\<^sup>*\<^sup>* a a'" "tasks_inv a" "registry_inv a" "length (ap_requests a') \<le> 2 ^ 64"
  shows "registry_inv a'"
  using assms
proof (induction rule: rtranclp_induct)
  case (step b c)
  from prefix_length_le [OF app_step_requests [OF step(2)]] step(6) have few: "length (ap_requests b) \<le> 2 ^ 64" by linarith
  have "tasks_inv b" using app.run_simulates [OF step(1,4)] by blast
  from app_step_registry [OF step(2) this step(3) [OF step(4,5) few] step(6)] show ?case .
qed

lemma reachable_registry:
  assumes "app_reachable lib envelope l a" "length (ap_requests a) \<le> 2 ^ 64"
  shows "registry_inv a"
proof -
  from assms obtain a0 where a0: "fresh_application l a0" "names_ok (as_sessions (ap_state a0))"
    "(app_step lib envelope)\<^sup>*\<^sup>* a0 a" by (auto simp: app_reachable_def)
  from run_registry [OF a0(3) fresh_inv(1) [OF a0(1,2)] fresh_registry [OF a0(1)] assms(2)] show ?thesis .
qed

section \<open>Shutdown\<close>

text \<open>A marked manager stays marked, and registers nothing any more.\<close>

lemma shutting_request_step:
  assumes "request_step lib a a'" "tasks_inv a" "rg_shutting_down (registry_of a)" "rg_active (registry_of a) = []"
  shows "rg_shutting_down (registry_of a') \<and> rg_active (registry_of a') = []"
  using assms(1)
proof (cases rule: request_step.cases)
  case (other_request ep env rq resp st)
  from places.kept_other [OF other_request(2,3)] assms(3,4) show ?thesis by (simp add: other_request(1) same_places_def)
next
  case (request_answered env rq resp st)
  from places.kept_session_request [OF request_answered(2)] assms(3,4) show ?thesis
    by (simp add: request_answered(1) same_places_def)
next
  case (request_admitted env rq who st)
  from places.kept_session_request [OF request_admitted(2)] assms(3,4) show ?thesis
    by (simp add: request_admitted(1) same_places_def)
next
  case (request_gone xs rq who ys)
  with assms(3,4) show ?thesis by simp
next
  case (request_refused xs rq who ys env resp st)
  from resolve_piece_effect [OF request_refused(3)] assms(3,4) show ?thesis
    by (simp add: request_refused(1) request_effect_def)
next
  case (request_reserved xs rq who ys env who' t expiry r st)
  from resolve_piece_effect [OF request_reserved(3)] assms(3,4) show ?thesis
    by (simp add: request_reserved(1) request_effect_def)
next
  case (request_finished xs remote who t expiry r ys env resp st)
  from assms(2) have wf: "hm_wf (ts_entries (as_tickets (ap_state a)))" by (simp add: tasks_inv_def)
  from issue_ticket_effect [OF request_finished(3) wf] assms(3,4) request_finished(1) show ?thesis by simp
qed

lemma shutting_upgrade_step:
  assumes "upgrade_step lib envelope a a'" "tasks_inv a" "rg_shutting_down (registry_of a)" "rg_active (registry_of a) = []"
  shows "rg_shutting_down (registry_of a') \<and> rg_active (registry_of a') = []"
  using assms(1)
proof (cases rule: upgrade_step.cases)
  case (upgrade_refused xs who remote ys aenv res tickets m)
  from assms(2) have wf: "hm_wf (ts_entries (as_tickets (ap_state a)))" by (simp add: tasks_inv_def)
  from redeem_piece_effect [OF upgrade_refused(3) wf] assms(3,4) upgrade_refused(1) show ?thesis by simp
next
  case (upgrade_redeemed xs who remote ys aenv t r tickets m)
  from assms(2) have wf: "hm_wf (ts_entries (as_tickets (ap_state a)))" by (simp add: tasks_inv_def)
  from redeem_piece_effect [OF upgrade_redeemed(3) wf] assms(3,4) upgrade_redeemed(1) show ?thesis by simp
next
  case (attach_failed xs who remote t r ys aenv res m)
  then show ?thesis using accept_redeemed_registry [OF attach_failed(3)] assms(3,4) by (cases res) simp_all
next
  case (attach_started xs who remote t r ys aenv t' i cn m)
  with accept_redeemed_registry [OF attach_started(3)] assms(3) show ?thesis by simp
next
  case (upgrade_answered xs who remote t e ys ans res m)
  with on_log_frame [OF upgrade_answered(3)] assms(3,4) show ?thesis by simp
qed

lemma shutting_session_step:
  "session_step lib a a' \<Longrightarrow> rg_shutting_down (registry_of a) \<Longrightarrow> rg_active (registry_of a) = [] \<Longrightarrow>
   rg_shutting_down (registry_of a') \<and> rg_active (registry_of a') = []"
  by (elim session_step.cases) (simp_all add: task_ended_def on_registry_def store_places_def supervisor_completion_def
    mark_shutdown_def shutdown_mark_def request_close_of_def hm_remove_def hm_get_def)

lemma shutting_step:
  assumes "app_step lib envelope a a'" "tasks_inv a" "rg_shutting_down (registry_of a)" "rg_active (registry_of a) = []"
  shows "rg_shutting_down (registry_of a') \<and> rg_active (registry_of a') = []"
  using assms(1)
  by (cases rule: app_step.cases)
    (use shutting_request_step shutting_upgrade_step shutting_session_step assms(2-4) in blast)+

lemma no_sessions:
  assumes "registry_inv a" "rg_active (registry_of a) = []" "task \<in> set (ap_tasks a)"
  shows "session_holder task = None"
proof -
  from assms(1,2) have "concat (map session_number (ap_tasks a)) = []" unfolding registry_inv_def by simp
  with assms(3) have "session_number task = []" by auto
  then show ?thesis by (cases task) simp_all
qed

text \<open>C6: The registry of supervisors lists exactly the connecting and running sessions, each once, so
  once a shutdown has marked the manager and seen the registry empty, the application has no session
  and, whatever is requested and redeemed afterwards, never has one again.\<close>

theorem shutdown_leaves_no_session:
  assumes reach: "app_reachable lib envelope l a" and run: "(app_step lib envelope)\<^sup>*\<^sup>* a a'"
    and few: "length (ap_requests a') \<le> 2 ^ 64"
  shows "mset (map fst (rg_active (registry_of a'))) = mset (concat (map session_number (ap_tasks a')))
    \<and> (rg_shutting_down (registry_of a) \<and> rg_active (registry_of a) = []
        \<longrightarrow> (\<forall>task \<in> set (ap_tasks a'). session_holder task = None))"
proof (intro conjI impI)
  from reach have reach': "app_reachable lib envelope l a'"
    using run by (auto simp: app_reachable_def intro: rtranclp_trans)
  note inv = reachable_registry [OF reach' few]
  then show "mset (map fst (rg_active (registry_of a'))) = mset (concat (map session_number (ap_tasks a')))"
    by (simp add: registry_inv_def)
  assume marked: "rg_shutting_down (registry_of a) \<and> rg_active (registry_of a) = []"
  from run have "rg_shutting_down (registry_of a') \<and> rg_active (registry_of a') = []"
  proof (induction rule: rtranclp_induct)
    case (step b c)
    have "tasks_inv b" using app.run_simulates [OF step(1) reachable_inv(1) [OF reach]] by blast
    with step shutting_step [OF step(2)] show ?case by blast
  qed (rule marked)
  with no_sessions [OF inv] show "\<forall>task \<in> set (ap_tasks a'). session_holder task = None" by blast
qed

text \<open>Witness: in the run to alice's session the registry lists its number, and an application marked
  before any session has none afterwards.\<close>

theorem shutdown_leaves_no_session_witness:
  "(\<exists>a :: application. map fst (rg_active (registry_of a)) = [0] \<and> map session_holder (ap_tasks a) = [Some alice])
   \<and> (\<exists>a' :: application. rg_shutting_down (registry_of a') \<and> (\<forall>task \<in> set (ap_tasks a'). session_holder task = None))"
proof
  obtain a su where a: "app_reachable demo_server_lib demo_envelope demo_limits a"
    "ap_tasks a = [Running 0 (PtyTarget demo_pty) su]" "su_identity su = alice" "ap_requests a = [(alice, PtyTarget demo_pty)]"
    using demo_run by blast
  from shutdown_leaves_no_session [OF a(1) rtranclp.rtrancl_refl] a(2,4)
  have "mset (map fst (rg_active (registry_of a))) = {#0#}" by simp
  then have "map fst (rg_active (registry_of a)) = [0]" by (simp only: mset_single_iff flip: mset_map)
  with a(2,3) show "\<exists>a :: application. map fst (rg_active (registry_of a)) = [0] \<and> map session_holder (ap_tasks a) = [Some alice]"
    by (intro exI [of _ a]) simp
  let ?b = "(at_rest demo_app)\<lparr>ap_state := mark_shutdown demo_app\<rparr>"
  have "app_step demo_server_lib demo_envelope (at_rest demo_app) ?b"
    using by_session [OF shutdown_marked [of demo_server_lib "at_rest demo_app"]] by simp
  then have b: "app_reachable demo_server_lib demo_envelope demo_limits ?b"
    using demo_fresh by (auto simp: app_reachable_def)
  have marked: "rg_shutting_down (registry_of ?b)" "rg_active (registry_of ?b) = []"
    using demo_fresh(1) by (simp_all add: mark_shutdown_def shutdown_mark_def on_registry_def store_places_def
      fresh_application_def registry_new_def)
  obtain resp st where resp: "serve_request demo_server_lib demo_http_env EpWebSocket demo_upgrade_request (ap_state ?b) = (resp, st)"
    by fastforce
  let ?c = "?b\<lparr>ap_state := st, ap_tasks := upgraded resp @ ap_tasks ?b\<rparr>"
  have "app_step demo_server_lib demo_envelope ?b ?c"
    by (rule by_request [OF other_request [OF _ resp]]) simp
  then have run: "(app_step demo_server_lib demo_envelope)\<^sup>*\<^sup>* ?b ?c" by (rule r_into_rtranclp)
  have "\<forall>task \<in> set (ap_tasks ?c). session_holder task = None"
    using shutdown_leaves_no_session [OF b run] marked by simp
  moreover have "rg_shutting_down (registry_of ?c)"
    using shutting_step [OF \<open>app_step demo_server_lib demo_envelope ?b ?c\<close> reachable_inv(1) [OF b] marked] by simp
  ultimately show "\<exists>a' :: application. rg_shutting_down (registry_of a') \<and> (\<forall>task \<in> set (ap_tasks a'). session_holder task = None)"
    by blast
qed

end
