(* ===== verification/Application_Audit.thy ===== *)
theory Application_Audit
  imports Application_Demo
begin

text \<open>
  The audit log of the running application: whatever its tasks interleave, the file holds what it held
  before, then the accepted events, and the sessions that are on record as started and not as ended are
  the running ones and those whose end could not be recorded. An effect of an operation on the log says
  how it moves that balance; the operations of \<open>server.rs\<close> and \<open>websocket.rs\<close> leave it, a connection that
  is handed over and a session that ends (\<open>session.rs\<close>) each move it by their own session.
\<close>

section \<open>What was recorded\<close>

text \<open>A log follows another one by attempts to record events; the accepted ones are kept.\<close>

inductive trail :: "json_lib \<Rightarrow> audit_log \<Rightarrow> audit_event list \<Rightarrow> audit_log \<Rightarrow> bool" for lib log where
  nothing: "trail lib log [] log"
| refused: "trail lib log es log1 \<Longrightarrow> record_event lib e w f log1 = (Inl err, log2) \<Longrightarrow> trail lib log es log2"
| accepted: "trail lib log es log1 \<Longrightarrow> record_event lib e w f log1 = (Inr (), log2) \<Longrightarrow> trail lib log (es @ [e]) log2"

lemma trail_trans: "trail lib log1 fs log2 \<Longrightarrow> trail lib log es log1 \<Longrightarrow> trail lib log (es @ fs) log2"
  by (induction rule: trail.induct) (auto intro: trail.intros simp flip: append_assoc)

definition event_line :: "json_lib \<Rightarrow> audit_event \<Rightarrow> bytes" where
  "event_line lib e = (case audit_line lib e of Inr line \<Rightarrow> line | Inl _ \<Rightarrow> [])"

lemma record_accepted_line: "record_event lib e w f log = (Inr (), log') \<Longrightarrow> is_ok (audit_line lib e)"
  by (auto simp: record_event_def is_ok_def split: sum.splits)

lemma trail_run:
  "trail lib log es log' \<Longrightarrow> \<exists>ops. run (audit_step lib) \<lparr>at_log = log, at_accepted = []\<rparr> ops
     = \<lparr>at_log = log', at_accepted = map (event_line lib) es\<rparr>"
proof (induction rule: trail.induct)
  case nothing
  show ?case by (rule exI [of _ "[]"]) simp
next
  case (refused es log1 e w f err log2)
  then obtain ops where "run (audit_step lib) \<lparr>at_log = log, at_accepted = []\<rparr> ops
     = \<lparr>at_log = log1, at_accepted = map (event_line lib) es\<rparr>" by blast
  with refused(2) show ?case by (intro exI [of _ "ops @ [(e, w, f)]"]) simp
next
  case (accepted es log1 e w f log2)
  then obtain ops where "run (audit_step lib) \<lparr>at_log = log, at_accepted = []\<rparr> ops
     = \<lparr>at_log = log1, at_accepted = map (event_line lib) es\<rparr>" by blast
  with accepted(2) record_accepted_line [OF accepted(2)] show ?case
    by (intro exI [of _ "ops @ [(e, w, f)]"]) (auto simp: event_line_def is_ok_def split: sum.splits)
qed

text \<open>A failed log stays failed, and a printable event is refused only by a failing log.\<close>

lemma trail_failed: "trail lib log es log' \<Longrightarrow> al_failed log \<Longrightarrow> al_failed log'"
  by (induction rule: trail.induct) (metis record_failed snd_conv)+

lemma refused_fails: "record_event lib e w f log = (Inl err, log') \<Longrightarrow> is_ok (audit_line lib e) \<Longrightarrow> al_failed log'"
  by (auto simp: record_event_def append_line_def is_ok_def Let_def split: sum.splits if_splits write_result.splits)

section \<open>The balance of starts and ends\<close>

text \<open>What a session's start and end have in common on record.\<close>

type_synonym session_tag = "session_id \<times> string \<times> string \<times> string option \<times> audit_timestamp"

fun start_tag :: "audit_event_kind \<Rightarrow> session_tag list" where
  "start_tag (SessionStarted sid who t remote at) = [(sid, who, t, remote, at)]"
| "start_tag _ = []"

fun end_tag :: "audit_event_kind \<Rightarrow> session_tag list" where
  "end_tag (SessionEnded sid who t remote at ended reason outcome) = [(sid, who, t, remote, at)]"
| "end_tag _ = []"

definition starts :: "audit_event list \<Rightarrow> session_tag multiset" where
  "starts es = mset (concat (map (\<lambda>e. start_tag (ev_event e)) es))"

definition ends :: "audit_event list \<Rightarrow> session_tag multiset" where
  "ends es = mset (concat (map (\<lambda>e. end_tag (ev_event e)) es))"

lemma tags_append [simp]: "starts (es @ fs) = starts es + starts fs" "ends (es @ fs) = ends es + ends fs"
  by (simp_all add: starts_def ends_def)

lemma tags_Nil [simp]: "starts [] = {#}" "ends [] = {#}"
  by (simp_all add: starts_def ends_def)

lemma tags_events [simp]:
  "starts [access_denied cid category reason who' t' remote' at'] = {#}"
  "ends [access_denied cid category reason who' t' remote' at'] = {#}"
  "starts [authentication_succeeded who remote at] = {#}" "ends [authentication_succeeded who remote at] = {#}"
  "starts [session_started sid who t remote at]
    = {#(sid, identity_str who, audit_target_str t, format_address remote, at)#}"
  "ends [session_started sid who t remote at] = {#}"
  "starts [session_ended sid who t remote at ended close outcome] = {#}"
  "ends [session_ended sid who t remote at ended close outcome]
    = {#(sid, identity_str who, audit_target_str t, format_address remote, at)#}"
  by (simp_all add: starts_def ends_def access_denied_def authentication_succeeded_def session_started_def
    session_ended_def audit_event_new_def)

text \<open>The session of an end record that could not be made, and the reasons for that which do not lie with
  the log: the time does not format, or the event has no line of the allowed length.\<close>

definition persistent_tags :: "persistent_audit option \<Rightarrow> identity \<Rightarrow> string \<Rightarrow> session_tag multiset" where
  "persistent_tags persistent who tname = (case persistent of
       None \<Rightarrow> {#}
     | Some pa \<Rightarrow> {#(pa_session_id pa, identity_str who, tname, format_address (pa_remote pa), pa_started_at pa)#})"

fun missed_tag :: "missed_end \<Rightarrow> session_tag multiset" where
  "missed_tag (MissedTime pa who tname now) = persistent_tags (Some pa) who tname"
| "missed_tag (MissedEvent e) = ends [e]"

definition missed :: "missed_end list \<Rightarrow> session_tag multiset" where
  "missed ms = sum_list (map missed_tag ms)"

lemma missed_simps [simp]:
  "missed [] = {#}" "missed (m # ms) = missed_tag m + missed ms" "missed (ms @ ns) = missed ms + missed ns"
  by (simp_all add: missed_def)

fun unrecordable :: "audit_libs \<Rightarrow> missed_end \<Rightarrow> bool" where
  "unrecordable libs (MissedTime pa who tname now) \<longleftrightarrow> \<not> is_ok (from_system_time (lb_rfc3339 libs) now)"
| "unrecordable libs (MissedEvent e) \<longleftrightarrow> \<not> is_ok (audit_line (lb_json libs) e)"

text \<open>An operation on the log, with the sessions on record as running before and after: each session whose
  start is recorded is on record as ended, still runs, or is among those whose end could not be recorded;
  and none is, as long as the log works, but for an unrecordable end.\<close>

definition audit_effect ::
  "audit_libs \<Rightarrow> missed_end list \<Rightarrow> audit_log option \<Rightarrow> session_tag multiset \<Rightarrow> audit_log option \<Rightarrow>
   session_tag multiset \<Rightarrow> bool" where
  "audit_effect libs ms a old a' new \<longleftrightarrow> (\<forall>log. a = Some log \<longrightarrow> (\<exists>es log'. a' = Some log'
     \<and> trail (lb_json libs) log es log' \<and> ends es + new + missed ms = starts es + old
     \<and> (al_failed log' \<or> list_all (unrecordable libs) ms)))"

lemma audit_effect_refl [simp]: "audit_effect libs [] a M a M"
  unfolding audit_effect_def using trail.nothing by fastforce

lemma audit_effect_trans:
  assumes "audit_effect libs ms a A b B" "audit_effect libs ns b B c C"
  shows "audit_effect libs (ms @ ns) a A c C"
  unfolding audit_effect_def
proof (intro allI impI)
  fix log assume a: "a = Some log"
  with assms(1) obtain es log1 where 1: "b = Some log1" "trail (lb_json libs) log es log1"
    "ends es + B + missed ms = starts es + A" "al_failed log1 \<or> list_all (unrecordable libs) ms"
    by (auto simp: audit_effect_def)
  with assms(2) obtain fs log2 where 2: "c = Some log2" "trail (lb_json libs) log1 fs log2"
    "ends fs + C + missed ns = starts fs + B" "al_failed log2 \<or> list_all (unrecordable libs) ns"
    by (auto simp: audit_effect_def)
  have "ends (es @ fs) + C + missed (ms @ ns) = ends es + missed ms + (ends fs + C + missed ns)" by (simp add: ac_simps)
  also have "\<dots> = starts fs + (ends es + B + missed ms)" unfolding 2(3) by (simp add: ac_simps)
  also have "\<dots> = starts (es @ fs) + A" unfolding 1(3) by (simp add: ac_simps)
  finally have "ends (es @ fs) + C + missed (ms @ ns) = starts (es @ fs) + A" .
  moreover have "al_failed log2 \<or> list_all (unrecordable libs) (ms @ ns)"
    using 1(4) 2(4) trail_failed [OF 2(2)] by auto
  ultimately show "\<exists>es log'. c = Some log' \<and> trail (lb_json libs) log es log'
      \<and> ends es + C + missed (ms @ ns) = starts es + A \<and> (al_failed log' \<or> list_all (unrecordable libs) (ms @ ns))"
    using 2(1) trail_trans [OF 2(2) 1(2)] by blast
qed

lemma audit_effect_frame:
  assumes "audit_effect libs ms a A b B"
  shows "audit_effect libs ms a (A + M) b (B + M)"
  unfolding audit_effect_def
proof (intro allI impI)
  fix log assume "a = Some log"
  with assms obtain es log' where e: "b = Some log'" "trail (lb_json libs) log es log'"
    "ends es + B + missed ms = starts es + A" "al_failed log' \<or> list_all (unrecordable libs) ms"
    by (auto simp: audit_effect_def)
  have "ends es + (B + M) + missed ms = (ends es + B + missed ms) + M" by (simp add: ac_simps)
  also have "\<dots> = starts es + (A + M)" unfolding e(3) by (simp add: ac_simps)
  finally show "\<exists>es log'. b = Some log' \<and> trail (lb_json libs) log es log'
      \<and> ends es + (B + M) + missed ms = starts es + (A + M) \<and> (al_failed log' \<or> list_all (unrecordable libs) ms)"
    using e(1,2,4) by blast
qed

abbreviation audit_quiet :: "audit_libs \<Rightarrow> audit_log option \<Rightarrow> audit_log option \<Rightarrow> bool" where
  "audit_quiet libs a b \<equiv> audit_effect libs [] a {#} b {#}"

lemma audit_quiet_trans: "audit_quiet libs a b \<Longrightarrow> audit_quiet libs b c \<Longrightarrow> audit_quiet libs a c"
  using audit_effect_trans [of libs "[]" a "{#}" b "{#}" "[]"] by simp

lemma effect_of_record:
  assumes "record_event (lb_json libs) e w f log = (res, log')"
  shows "starts [e] = {#} \<Longrightarrow> ends [e] = {#} \<Longrightarrow> audit_quiet libs (Some log) (Some log')"
    and "starts [e] = {#tag#} \<Longrightarrow> ends [e] = {#} \<Longrightarrow>
      audit_effect libs [] (Some log) {#} (Some log') (if is_ok res then {#tag#} else {#})"
    and "starts [e] = {#} \<Longrightarrow> ends [e] = {#tag#} \<Longrightarrow>
      audit_effect libs (if is_ok res then [] else [MissedEvent e]) (Some log) {#tag#} (Some log') {#}"
proof -
  have t: "trail (lb_json libs) log (if is_ok res then [e] else []) log'"
    using assms trail.intros(1) [of "lb_json libs" log] trail.intros(2,3) [OF trail.intros(1)]
    by (cases res) (auto simp: is_ok_def)
  have f: "\<not> is_ok res \<Longrightarrow> al_failed log' \<or> unrecordable libs (MissedEvent e)"
    using assms refused_fails [of "lb_json libs" e w f log] by (cases res) (auto simp: is_ok_def)
  show "starts [e] = {#} \<Longrightarrow> ends [e] = {#} \<Longrightarrow> audit_quiet libs (Some log) (Some log')"
    using t by (auto simp: audit_effect_def split: if_splits intro!: exI)
  show "starts [e] = {#tag#} \<Longrightarrow> ends [e] = {#} \<Longrightarrow>
      audit_effect libs [] (Some log) {#} (Some log') (if is_ok res then {#tag#} else {#})"
    using t by (auto simp: audit_effect_def split: if_splits intro!: exI)
  show "starts [e] = {#} \<Longrightarrow> ends [e] = {#tag#} \<Longrightarrow>
      audit_effect libs (if is_ok res then [] else [MissedEvent e]) (Some log) {#tag#} (Some log') {#}"
    using t f by (auto simp: audit_effect_def split: if_splits intro!: exI)
qed

section \<open>The effects of the operations\<close>

subsection \<open>Denials and requests\<close>

lemma deny_access_quiet:
  "deny_access libs ans category reason who tname remote log = (r, log') \<Longrightarrow> audit_quiet libs (Some log) (Some log')"
  by (auto simp: deny_access_def split: sum.splits prod.splits dest!: effect_of_record(1))

lemma audit_denial_quiet:
  "audit_denial lib env category reason who t remote st = (r, st') \<Longrightarrow>
   audit_quiet (sl_audit lib) (mg_audit (as_sessions st)) (mg_audit (as_sessions st'))"
  by (auto simp: audit_denial_def set_app_audit_def split: option.splits prod.splits dest!: deny_access_quiet)

lemma deny_with_quiet:
  "deny_with lib env category reason who t remote resp st = (r, st') \<Longrightarrow>
   audit_quiet (sl_audit lib) (mg_audit (as_sessions st)) (mg_audit (as_sessions st'))"
  by (auto simp: deny_with_def split: sum.splits prod.splits dest!: audit_denial_quiet)

lemma success_quiet:
  "record_authentication_success lib env ctx who st = (r, st') \<Longrightarrow>
   audit_quiet (sl_audit lib) (mg_audit (as_sessions st)) (mg_audit (as_sessions st'))"
  by (auto simp: record_authentication_success_def set_app_audit_def split: option.splits sum.splits prod.splits
    dest!: effect_of_record(1))

interpretation records: state_relation
  "\<lambda>lib st st'. audit_quiet (sl_audit lib) (mg_audit (as_sessions st)) (mg_audit (as_sessions st'))"
  by unfold_locales (auto dest: deny_with_quiet success_quiet intro: audit_quiet_trans)

lemma resolve_piece_quiet:
  assumes "resolve_piece lib env rq who remote st = (res, st')"
  shows "audit_quiet (sl_audit lib) (mg_audit (as_sessions st)) (mg_audit (as_sessions st'))"
proof -
  have "audit_quiet (sl_audit lib) (mg_audit (as_sessions st)) (mg_audit (as_sessions st'))"
    if "reserve_piece lib env who t remote st = (res, st')" for t
    using that by (auto simp: reserve_piece_def Let_def split: prod.splits sum.splits session_error.splits
      dest!: records.kept_answer [where st = st] manager_reserve_audit)
  with assms show ?thesis
    by (auto simp: resolve_piece_def split: if_splits sum.splits dest!: records.kept_answer [where st = st])
qed

lemma issue_ticket_quiet:
  "issue_ticket lib env who t remote expiry r st = (resp, st') \<Longrightarrow>
   audit_quiet (sl_audit lib) (mg_audit (as_sessions st)) (mg_audit (as_sessions st'))"
  by (auto simp: issue_ticket_def drop_reservation_def Let_def split: option.splits sum.splits prod.splits ticket_error.splits
    dest!: deny_with_quiet)

subsection \<open>Upgrades\<close>

lemma on_log_quiet:
  assumes "on_log f m = (res, m')" "\<And>log r log'. f log = (r, log') \<Longrightarrow> audit_quiet libs (Some log) (Some log')"
  shows "audit_quiet libs (mg_audit m) (mg_audit m')"
  using assms by (auto simp: on_log_def split: option.splits prod.splits)

lemma session_denial_quiet:
  "record_session_denial libs ans who t remote e log = (r, log') \<Longrightarrow> audit_quiet libs (Some log) (Some log')"
  by (auto simp: record_session_denial_def split: if_splits option.splits dest: deny_access_quiet)

lemma redeem_piece_quiet:
  assumes "redeem_piece envelope libs env who remote tickets m = (res, tickets', m')"
  shows "audit_quiet libs (mg_audit m) (mg_audit m')"
proof -
  have "audit_quiet libs (mg_audit m1) (mg_audit m2)"
    if "on_log (deny_ticket libs (ae_audit env) who remote e failure) m1 = (r, m2)" for e failure m1 m2 r
    by (rule on_log_quiet [OF that])
      (auto simp: deny_ticket_def record_ticket_denial_def split: prod.splits dest: deny_access_quiet)
  with assms show ?thesis
    by (fastforce simp: redeem_piece_def Let_def split: handshake.splits sum.splits handshake_error.splits prod.splits)
qed

lemma access_denial_quiet:
  "record_access_denial libs ans audit who tname remote category reason = (r, audit') \<Longrightarrow> audit_quiet libs audit audit'"
  by (auto simp: record_access_denial_def split: option.splits sum.splits prod.splits dest!: effect_of_record(1))

lemma record_denial_quiet:
  "record_denial libs ans who tname remote category reason m = (r, m') \<Longrightarrow> audit_quiet libs (mg_audit m) (mg_audit m')"
  by (auto simp: record_denial_def split: prod.splits dest!: access_denial_quiet)

lemma start_reserved_quiet:
  assumes "start_reserved_with_remote libs env r who tname dims remote m = (x, m')"
  shows "audit_quiet libs (mg_audit m) (mg_audit m')"
proof -
  have admitted: "audit_quiet libs (mg_audit m1) (mg_audit m2)"
    if "start_admitted libs env who b dims r' remote m1 = (x, m2)" for b r' m1 m2 x
    using that by (auto simp: start_admitted_def drop_reservation_def split: option.splits sum.splits prod.splits
      dest!: record_denial_quiet)
  have "audit_quiet libs (mg_audit m1) (mg_audit m2)"
    if "start_resolved libs env who tname dims r' remote m1 = (x, m2)" for r' m1 m2 x
    using that by (auto simp: start_resolved_def record_backend_resolution_denial_def drop_reservation_def
      split: option.splits sum.splits prod.splits if_splits dest!: record_denial_quiet admitted)
  with assms show ?thesis
    by (fastforce simp: start_reserved_with_remote_def drop_reservation_def split: if_splits sum.splits prod.splits)
qed

lemma accept_failed_quiet:
  "on_log (accept_failed libs ans who t remote e) m = (res, m') \<Longrightarrow> audit_quiet libs (mg_audit m) (mg_audit m')"
  by (rule on_log_quiet) (auto simp: accept_failed_def split: if_splits prod.splits dest: session_denial_quiet)

lemma accept_redeemed_quiet:
  assumes "accept_redeemed libs env who remote grant m = (res, m')"
  shows "audit_quiet libs (mg_audit m) (mg_audit m')"
proof -
  obtain t r where g: "grant = (t, r)" by fastforce
  obtain x m1 where start: "start_reserved_with_remote libs (ae_start env) r who (target_name t) INITIAL_SIZE remote m = (x, m1)"
    by fastforce
  note quiet = start_reserved_quiet [OF start]
  have "supports_redeemed_target t" by (simp add: supports_redeemed_target_def split: target.split)
  with assms g start quiet show ?thesis
    by (auto simp: accept_redeemed_def split: option.splits sum.splits prod.splits
      intro: audit_quiet_trans dest: accept_failed_quiet)
qed

subsection \<open>Connections and sessions\<close>

text \<open>The start of a session moves the balance by it, the end moves it back.\<close>

lemma session_start_effect:
  assumes "persistent_audit_start libs env cn audit = (res, audit')"
  shows "audit_effect libs [] audit {#} audit'
    (case res of Inr persistent \<Rightarrow> persistent_tags persistent (cn_identity cn) (cn_target_name cn) | Inl _ \<Rightarrow> {#})"
  using assms
  by (auto simp: persistent_audit_start_def persistent_tags_def is_ok_def split: option.splits sum.splits prod.splits
    dest!: effect_of_record(2) [OF _ tags_events(5,6)])

lemma session_end_effect:
  "audit_effect libs (missed_of libs ans persistent who tname reason outcome audit) audit
     (persistent_tags persistent who tname)
     (record_session_end libs ans persistent who tname reason outcome audit) {#}"
proof (cases persistent)
  case (Some pa)
  show ?thesis
  proof (cases audit)
    case (Some log)
    show ?thesis
    proof (cases "from_system_time (lb_rfc3339 libs) (aa_now ans)")
      case (Inl e)
      with Some \<open>persistent = Some pa\<close> show ?thesis
        by (auto simp: record_session_end_def missed_of_def audit_effect_def is_ok_def intro!: exI [of _ "[]"] trail.nothing)
    next
      case (Inr at)
      obtain res log' where r: "record_event (lb_json libs) (session_ended (pa_session_id pa) who (ResolvedAuditTarget tname)
          (pa_remote pa) (pa_started_at pa) at (audit_close_reason_of reason) (map_option audit_outcome_of outcome))
          (aa_write ans) (aa_flush ans) log = (res, log')" by fastforce
      from effect_of_record(3) [OF r tags_events(7,8)] r Inr Some \<open>persistent = Some pa\<close> show ?thesis
        by (simp add: record_session_end_def missed_of_def persistent_tags_def)
    qed
  qed (simp add: audit_effect_def)
qed (simp add: record_session_end_def missed_of_def persistent_tags_def)

lemma handed_over_effect:
  assumes "run_connecting libs env cn audit cap = ConnectingHandedOver su sn audit' cap'"
  shows "audit_effect libs [] audit {#} audit' (persistent_tags (su_persistent su) (su_identity su) (su_target_name su))"
proof -
  from handed_over [OF assms] obtain c persistent where
    "persistent_audit_start libs env cn audit = (Inr persistent, audit')" "su = new_supervisor env cn c persistent" by blast
  with session_start_effect [of libs env cn audit "Inr persistent" audit'] show ?thesis by (simp add: new_supervisor_def)
qed

lemma refused_effect:
  "refuse_after_cleanup env cn c told cap = ConnectingRefused reply events c' audit' cap' \<Longrightarrow>
   (\<And>outcome. audit_quiet libs audit (snd (snd (told outcome)))) \<Longrightarrow> audit_quiet libs audit audit'"
  by (auto simp: refuse_after_cleanup_def split: prod.splits option.splits) (metis snd_conv)

lemma refusal_quiet: "audit_quiet libs audit (snd (refusal libs ans cn outcome audit))"
proof -
  have "audit_quiet libs audit (snd (record_access_denial libs ans audit who tname remote category reason))"
    for who tname remote category reason
    by (cases "record_access_denial libs ans audit who tname remote category reason") (simp add: access_denial_quiet)
  then show ?thesis
    by (auto simp: refusal_def Let_def split: connecting_outcome.splits prod.splits sum.splits dest: access_denial_quiet)
qed

lemma connection_refused_effect:
  assumes refused: "run_connecting libs env cn audit cap = ConnectingRefused reply events c audit' cap'"
  shows "audit_effect libs (connecting_missed libs env cn audit) audit {#} audit' {#}"
proof -
  obtain outcome c1 where sel: "connecting_select (cn_classifier cn) (ce_polls env) (cn_child cn) = (outcome, c1)" by fastforce
  show ?thesis
  proof (cases "outcome = ConnAuthenticated")
    case True
    obtain res audit1 where start: "persistent_audit_start libs env cn audit = (res, audit1)" by fastforce
    note effect = session_start_effect [OF start]
    show ?thesis
    proof (cases res)
      case (Inl error)
      with refused sel True start effect show ?thesis
        by (auto simp: run_connecting_def connecting_missed_def dest!: refused_effect [where libs = libs and audit = audit])
    next
      case (Inr persistent)
      with effect have s: "audit_effect libs [] audit {#} audit1 (persistent_tags persistent (cn_identity cn) (cn_target_name cn))"
        by simp
      from refused sel True start Inr obtain status r where
        fin: "terminate_until_proven (ce_cleanup env) False c1 = (Some (status, r), c)"
          "audit' = record_session_end libs (ce_end_audit env) persistent (cn_identity cn) (cn_target_name cn)
            CloseSupervisorUnwind (Some (from_status status)) audit1"
        by (auto simp: run_connecting_def recover_unwind_def refuse_after_cleanup_def split: option.splits prod.splits)
      from sel True start Inr fin(1) have "connecting_missed libs env cn audit = [] @ missed_of libs (ce_end_audit env)
          persistent (cn_identity cn) (cn_target_name cn) CloseSupervisorUnwind (Some (from_status status)) audit1"
        by (simp add: connecting_missed_def)
      then show ?thesis unfolding fin(2) using audit_effect_trans [OF s session_end_effect] by simp
    qed
  next
    case False
    have "audit_quiet libs audit (snd (snd (case refusal libs (ce_audit env) cn outcome audit of (reply, audit') \<Rightarrow>
        (reply, [] :: lifecycle_event list, audit'))))"
      using refusal_quiet [of libs audit "ce_audit env" cn outcome] by (auto split: prod.split)
    with refused sel False show ?thesis
      by (auto simp: run_connecting_def connecting_missed_def split: connecting_outcome.splits
        dest!: refused_effect [where libs = libs and audit = audit])
  qed
qed

lemma supervise_effect:
  "supervise libs env su audit cap = SuperviseEnded su' audit' cap' \<Longrightarrow>
   audit_effect libs (supervise_missed libs env su audit) audit
     (persistent_tags (su_persistent su) (su_identity su) (su_target_name su)) audit' {#}"
  by (auto simp: supervise_def supervise_missed_def complete_supervisor_def Let_def session_end_effect
    split: prod.splits option.splits sum.splits)

section \<open>The log of an application\<close>

fun task_tags :: "app_task \<Rightarrow> session_tag multiset" where
  "task_tags (Running i t su) = persistent_tags (su_persistent su) (su_identity su) (su_target_name su)"
| "task_tags _ = {#}"

text \<open>The running sessions that are on record.\<close>

definition on_record :: "app_task list \<Rightarrow> session_tag multiset" where
  "on_record tasks = sum_list (map task_tags tasks)"

lemma on_record_simps [simp]:
  "on_record [] = {#}" "on_record (task # tasks) = task_tags task + on_record tasks"
  "on_record (xs @ ys) = on_record xs + on_record ys" "on_record (upgraded resp) = {#}"
  "on_record (answering reply cn t) = {#}"
  by (simp_all add: on_record_def upgraded_def answering_def split: http_body.split option.split)

text \<open>One piece of one task, next to what the other tasks run.\<close>

lemma effect_beside:
  assumes "audit_effect libs ms a (task_tags task) b new"
  shows "audit_effect libs ms a (on_record (xs @ task # ys)) b (on_record xs + (new + on_record ys))"
  using audit_effect_frame [OF assms, of "on_record (xs @ ys)"] by (simp add: ac_simps)

lemma quiet_frame: "audit_quiet libs a b \<Longrightarrow> audit_effect libs [] a M b M"
  using audit_effect_frame [of libs "[]" a "{#}" b "{#}" M] by simp

abbreviation app_log :: "application \<Rightarrow> audit_log option" where
  "app_log a \<equiv> mg_audit (as_sessions (ap_state a))"

definition app_effect :: "server_lib \<Rightarrow> application \<Rightarrow> application \<Rightarrow> bool" where
  "app_effect lib a a' \<longleftrightarrow> (\<exists>ms. ap_missed a' = ap_missed a @ ms
     \<and> audit_effect (sl_audit lib) ms (app_log a) (on_record (ap_tasks a)) (app_log a') (on_record (ap_tasks a')))"

lemma app_effect_quiet:
  "ap_missed a' = ap_missed a \<Longrightarrow> on_record (ap_tasks a') = on_record (ap_tasks a) \<Longrightarrow>
   audit_quiet (sl_audit lib) (app_log a) (app_log a') \<Longrightarrow> app_effect lib a a'"
  unfolding app_effect_def by (rule exI [of _ "[]"]) (simp add: quiet_frame)

lemma request_step_effect: "request_step lib a a' \<Longrightarrow> app_effect lib a a'"
  by (elim request_step.cases; intro app_effect_quiet)
    (auto dest: records.kept_other records.kept_session_request resolve_piece_quiet issue_ticket_quiet)

lemma upgrade_step_effect: "upgrade_step lib envelope a a' \<Longrightarrow> app_effect lib a a'"
  by (elim upgrade_step.cases; intro app_effect_quiet)
    (auto dest: redeem_piece_quiet accept_redeemed_quiet accept_failed_quiet)

lemma session_step_effect:
  assumes "session_step lib a a'"
  shows "app_effect lib a a'"
  using assms
proof (cases rule: session_step.cases)
  case (connection_refused xs i t cn ys cenv reply events c audit cap)
  with effect_beside [of "sl_audit lib" _ "app_log a" "Connecting i t cn" audit "{#}" xs ys]
    connection_refused_effect [OF connection_refused(3)]
  show ?thesis by (simp add: app_effect_def task_ended_def on_registry_def store_places_def)
next
  case (connection_admitted xs i t cn ys cenv su sn audit cap)
  with effect_beside [of "sl_audit lib" "[]" "app_log a" "Connecting i t cn" audit "task_tags (Running i t su)" xs ys]
    handed_over_effect [OF connection_admitted(3)]
  show ?thesis by (simp add: app_effect_def store_places_def)
next
  case (session_ended xs i t su ys senv su' audit cap)
  with effect_beside [of "sl_audit lib" _ "app_log a" "Running i t su" audit "{#}" xs ys] supervise_effect [OF session_ended(3)]
  show ?thesis by (simp add: app_effect_def task_ended_def on_registry_def store_places_def)
qed (simp_all add: app_effect_quiet on_registry_def mark_shutdown_def store_places_def)

lemma run_effect: "(app_step lib envelope)\<^sup>*\<^sup>* a a' \<Longrightarrow> app_effect lib a a'"
proof (induction rule: rtranclp_induct)
  case (step b c)
  then have "app_effect lib b c"
    by (auto elim!: app_step.cases intro: request_step_effect upgrade_step_effect session_step_effect)
  with step(3) show ?case unfolding app_effect_def by (auto intro: audit_effect_trans)
qed (simp add: app_effect_quiet)

text \<open>C7: The audit file of an application holds what it held before, then the accepted events as whole
  lines, then at most one torn line, after which the log has failed. Each session that is on record as
  started is on record as ended, or it still runs, or it is one of those whose end record was due and
  could not be made, each counted once; nothing else is on record as ended. While the log works, no end
  record is missing but for a session whose time of end does not format or whose end event has no line
  within the size limit.\<close>

theorem audit_trail:
  assumes fresh: "ap_tasks a0 = []" "ap_missed a0 = []" "app_log a0 = Some (from_writer existing)"
    and run: "(app_step lib envelope)\<^sup>*\<^sup>* a0 a" and one_line: "prints_one_line (lb_json (sl_audit lib))"
  shows "\<exists>events torn log. app_log a = Some log
    \<and> al_written log = existing @ concat (map (event_line (lb_json (sl_audit lib))) events) @ torn
    \<and> (torn = [] \<or> al_failed log) \<and> list_all (\<lambda>e. is_line (event_line (lb_json (sl_audit lib)) e)) events
    \<and> ends events + on_record (ap_tasks a) + missed (ap_missed a) = starts events
    \<and> (al_failed log \<or> list_all (unrecordable (sl_audit lib)) (ap_missed a))"
proof -
  let ?lib = "lb_json (sl_audit lib)" and ?start = "\<lparr>at_log = from_writer existing, at_accepted = []\<rparr>"
  from run_effect [OF run] fresh obtain es log where log: "app_log a = Some log" "trail ?lib (from_writer existing) es log"
    and balance: "ends es + on_record (ap_tasks a) + missed (ap_missed a) = starts es"
      "al_failed log \<or> list_all (unrecordable (sl_audit lib)) (ap_missed a)"
    by (auto simp: app_effect_def audit_effect_def)
  from trail_run [OF log(2)] obtain ops where ops: "run (audit_step ?lib) ?start ops
      = \<lparr>at_log = log, at_accepted = map (event_line ?lib) es\<rparr>" by blast
  have "audit_inv existing ?start"
    by (auto simp: audit_inv_def from_writer_def is_line_def MAX_AUDIT_RECORD_BYTES_def intro: exI [of _ "[newline]"])
  from audit_run_inv [OF one_line this, of ops] obtain torn where
    "al_written log = existing @ concat (map (event_line ?lib) es) @ torn" "torn = [] \<or> al_failed log"
    "list_all (\<lambda>e. is_line (event_line ?lib e)) es"
    by (auto simp: ops audit_inv_def list_all_iff)
  with log(1) balance show ?thesis by blast
qed

text \<open>Witness: alice's running session is on record.\<close>

theorem audit_trail_witness:
  "\<exists>(a :: application) tag events. on_record (ap_tasks a) = {#tag#} \<and> ends events + {#tag#} = starts events
     \<and> app_log a = Some demo_logged \<and> al_written demo_logged = concat (map (event_line plain_json_lib) events)"
proof -
  obtain a su where a: "demo_steps (at_rest demo_app) a" "ap_tasks a = [Running 0 (PtyTarget demo_pty) su]"
    "su_persistent su \<noteq> None" "app_log a = Some demo_logged" "ap_missed a = []" using demo_run by blast
  then obtain tag where tag: "on_record (ap_tasks a) = {#tag#}" by (auto simp: persistent_tags_def)
  have libs: "sl_audit demo_server_lib = demo_libs" "lb_json demo_libs = plain_json_lib"
    by (simp_all add: demo_app_parts(5) demo_libs_def)
  have ok: "\<not> al_failed demo_logged" by (simp add: demo_logged_def)
  have log: "ap_tasks (at_rest demo_app) = []" "ap_missed (at_rest demo_app) = []"
    "app_log (at_rest demo_app) = Some (from_writer [])"
    by (simp_all add: demo_app_def)
  from audit_trail [OF log a(1)] plain_json_lib_one_line libs a(5) obtain events torn log where
    e: "app_log a = Some log" "al_written log = concat (map (event_line plain_json_lib) events) @ torn"
    "torn = [] \<or> al_failed log" "ends events + on_record (ap_tasks a) = starts events"
    by auto
  from e(1) a(4) have "log = demo_logged" by simp
  with e(2-4) ok tag a(4) show ?thesis by (intro exI [of _ a] exI [of _ tag] exI [of _ events]) simp
qed

end
