(* ===== verification/Terminal_Path.thy ===== *)
theory Terminal_Path
  imports Websocket_Safety
begin

text \<open>
  The way of a terminal's bytes: the five tasks between a client's socket and its terminal, interleaved
  over the bounded channels they share. \<open>bridge\<close> in \<open>websocket.rs\<close> spawns a reader and a writer of the
  socket and runs in between; \<open>read_output\<close> and \<open>write_input\<close> in \<open>session.rs\<close> serve the terminal. One step
  is one turn of one task, which waits while its channel is full. \<open>read_output\<close> reads a chunk and hands it over in
  two turns; when the supervisor stops its workers, which it does before it terminates the child, the
  reader may be in either, and drops the chunk it holds. The other tasks may end at any time, and none has
  to see a cancellation at once. The turns iterated are the tasks of \<open>Websocket\<close> and \<open>Session\<close>. Ghost fields keep
  what was received, given to the terminal, printed by it, read, lost and sent. Lemmas: the channels stay
  within their capacities, and both directions are FIFO: nothing is repeated or reordered, and nothing is
  lost before the point where a task ends.
\<close>

section \<open>The turns of the tasks\<close>

definition OUTPUT_CHANNEL_CAPACITY :: nat where "OUTPUT_CHANNEL_CAPACITY = 8"

text \<open>One turn of \<open>read_socket\<close>: what it hands to the bridge, its pongs, whether it cancels and whether it
  goes on.\<close>

definition reader_turn :: "socket_event \<Rightarrow> inbound list \<times> ws_message list \<times> bool \<times> bool" where
  "reader_turn e =
     (case e of
        SocketStopped \<Rightarrow> ([], [], False, False)
      | SocketGone \<Rightarrow> ([], [], True, False)
      | SocketTooLarge ok \<Rightarrow> (if ok then [InboundFailure (protocol_failure BinaryTooLarge)] else [], [], False, False)
      | SocketMessage m ok \<Rightarrow>
          (case m of
             WsPing b \<Rightarrow> (if ok then ([], [WsPong b], False, True) else ([], [], False, False))
           | WsPong _ \<Rightarrow> ([], [], False, True)
           | WsClose _ \<Rightarrow> ([], [], True, False)
           | _ \<Rightarrow> (if ok then ([InboundMessage m], [], False, True) else ([], [], False, False))))"

lemma read_socket_turns:
  "read_socket (e # es) =
     (case reader_turn e of (items, pongs, cancels, on) \<Rightarrow>
        if on then (case read_socket es of (items', out, c) \<Rightarrow> (items @ items', pongs @ out, c))
        else (items, pongs, cancels))"
  by (cases e) (auto simp: reader_turn_def split: ws_message.split prod.split)

text \<open>One command of \<open>write_input\<close>: the terminal operations and whether it goes on.\<close>

definition writer_turn :: "bool \<Rightarrow> session_command \<Rightarrow> io_answer \<Rightarrow> terminal_op list \<times> bool" where
  "writer_turn read_only cmd ans =
     (case cmd of
        Input b \<Rightarrow> if read_only \<or> b = [] then ([], True) else ([TermWrite b], ans = IoDone)
      | ResizeTo z \<Rightarrow> ([TermResize z], ans = IoDone))"

lemma write_input_turns:
  "fst (write_input read_only (WriterCommand cmd ans # es)) =
     (case writer_turn read_only cmd ans of (ops, on) \<Rightarrow> ops @ (if on then fst (write_input read_only es) else []))"
  by (cases cmd; cases ans) (auto simp: writer_turn_def split: prod.split)

text \<open>The second half of a round of \<open>read_output\<close>: the chunk in its hand is handed over or lost, and the
  reader goes on or has ended. It also ends when the terminal has hung up and all is read, when the read
  fails, and when it is stopped while it reads.\<close>

datatype read_end = EndOfTerminal | ReadFailed | ReaderStopped | ReceiverGone

definition hand_turn :: "bytes \<Rightarrow> send_answer \<Rightarrow> bytes list \<times> bytes list \<times> read_end option" where
  "hand_turn b ans =
     (case ans of
        SendDone \<Rightarrow> ([b], [], None)
      | SendReceiverGone \<Rightarrow> ([], [b], Some ReceiverGone)
      | SendCancelled \<Rightarrow> ([], [b], Some ReaderStopped))"

lemma read_output_turns:
  "b \<noteq> [] \<Longrightarrow> fst (read_output (ReaderChunk b ans # es)) =
     (case hand_turn b ans of (handed, lost, ended) \<Rightarrow> handed @ (if ended = None then fst (read_output es) else []))"
  by (cases ans) (auto simp: hand_turn_def split: prod.split)

text \<open>One message of \<open>write_socket\<close>: what is sent, whether it cancels and whether it goes on.\<close>

definition sink_turn :: "ws_message \<Rightarrow> bool \<Rightarrow> ws_message list \<times> bool \<times> bool" where
  "sink_turn m ok =
     (if \<not> ok then ([], True, False) else ([m], False, case m of WsClose _ \<Rightarrow> False | _ \<Rightarrow> True))"

lemma write_socket_turns:
  "fst (write_socket (SinkMessage m ok # es)) =
     (case sink_turn m ok of (sent, cancels, on) \<Rightarrow> sent @ (if on then fst (write_socket es) else []))"
  by (cases m) (auto simp: sink_turn_def split: prod.split)

section \<open>The path\<close>

text \<open>What the bridge waits for inside a turn: it has an inbound item in hand, or the end of the session,
  or a chunk of output.\<close>

datatype bridge_phase = BridgeIdle | BridgeRetries inbound_ready | BridgeSends bytes | BridgeOver bridge_termination

text \<open>What the terminal printed is not yet read, held by \<open>read_output\<close>, handed over as a chunk, or lost; it prints
  no more once it has hung up.\<close>

record terminal_path =
  tp_inbound :: "inbound list"
  tp_bridge :: bridge
  tp_phase :: bridge_phase
  tp_reading :: bool
  tp_sinking :: bool
  tp_cancelled :: bool
  tp_received :: "ws_message list"
  tp_taken :: "session_command list"
  tp_ops :: "terminal_op list"
  tp_printed :: bytes
  tp_unread :: bytes
  tp_hung :: bool
  tp_held :: "bytes list"
  tp_chunks :: "bytes list"
  tp_lost :: "bytes list"
  tp_ended :: "read_end option"
  tp_stopping :: bool
  tp_popped :: "ws_message list"
  tp_sent :: "ws_message list"

definition path_new :: "session \<Rightarrow> terminal_path" where
  "path_new s = \<lparr>tp_inbound = [], tp_bridge = \<lparr>br_session = s, br_outbound = [], br_stop_input = False\<rparr>,
     tp_phase = BridgeIdle, tp_reading = True, tp_sinking = True, tp_cancelled = False, tp_received = [],
     tp_taken = [], tp_ops = [], tp_printed = [], tp_unread = [], tp_hung = False, tp_held = [], tp_chunks = [],
     tp_lost = [], tp_ended = None, tp_stopping = False, tp_popped = [], tp_sent = []\<rparr>"

abbreviation tp_session :: "terminal_path \<Rightarrow> session" where
  "tp_session t \<equiv> br_session (tp_bridge t)"

definition on_session :: "(session \<Rightarrow> session) \<Rightarrow> terminal_path \<Rightarrow> terminal_path" where
  "on_session f t = t\<lparr>tp_bridge := (tp_bridge t)\<lparr>br_session := f (tp_session t)\<rparr>\<rparr>"

definition on_outbound :: "(ws_message list \<Rightarrow> ws_message list) \<Rightarrow> terminal_path \<Rightarrow> terminal_path" where
  "on_outbound f t = t\<lparr>tp_bridge := (tp_bridge t)\<lparr>br_outbound := f (br_outbound (tp_bridge t))\<rparr>\<rparr>"

text \<open>A text or binary message that arrives, whether it can still be handed to the bridge or not.\<close>

definition arriving :: "socket_event \<Rightarrow> ws_message list" where
  "arriving e = (case e of
       SocketMessage m _ \<Rightarrow> (case m of WsBinary _ \<Rightarrow> [m] | WsText _ \<Rightarrow> [m] | _ \<Rightarrow> [])
     | _ \<Rightarrow> [])"

text \<open>The polls of a bridge whose channels and cells are as they are: a full channel is seen as full, the
  final state as it is.\<close>

definition polls :: "terminal_path \<Rightarrow> bridge_poll \<Rightarrow> bool" where
  "polls t p \<longleftrightarrow> (bp_cancelled p \<longrightarrow> tp_cancelled t)
     \<and> (bp_wait p = WaitPending \<or> bp_wait p = WaitCancelled \<and> tp_cancelled t)
     \<and> (bp_send p = RaceSent \<longrightarrow> tp_sinking t \<and> length (br_outbound (tp_bridge t)) < BRIDGE_CHANNEL_CAPACITY)
     \<and> (\<forall>c. bp_closed p = Some (Inr c) \<or> bp_send p = RaceOvertaken (Inr c) \<longrightarrow> sn_final (tp_session t) = Some c)"

definition next_inbound :: "terminal_path \<Rightarrow> inbound_ready" where
  "next_inbound t = (case tp_inbound t of
       i # _ \<Rightarrow> InboundItem i
     | [] \<Rightarrow> if tp_reading t then InboundEmpty else InboundEnd)"

definition phase_after :: "turn \<Rightarrow> bridge_poll \<Rightarrow> bridge \<Rightarrow> bridge_phase" where
  "phase_after tn p br = (case tn of
       TurnNext \<Rightarrow> BridgeIdle
     | TurnEnds fin \<Rightarrow> BridgeOver fin
     | TurnWaits \<Rightarrow>
         (if bp_inbound p = InboundEmpty then
            (case sn_output (br_session br) of b # _ \<Rightarrow> BridgeSends b | [] \<Rightarrow> BridgeRetries InboundEmpty)
          else BridgeRetries (bp_inbound p)))"

fun bridge_active :: "bridge_phase \<Rightarrow> bool" where
  "bridge_active (BridgeOver fin) = False"
| "bridge_active _ = True"

text \<open>The final state is set when the workers have been stopped and joined.\<close>

inductive path_step :: "json_lib \<Rightarrow> terminal_path \<Rightarrow> terminal_path \<Rightarrow> bool" for lib where
  socket_reads: "tp_reading t \<Longrightarrow> reader_turn e = (items, pongs, cancels, on) \<Longrightarrow>
    (items \<noteq> [] \<longrightarrow> bridge_active (tp_phase t) \<and> length (tp_inbound t) < BRIDGE_CHANNEL_CAPACITY) \<Longrightarrow>
    (pongs \<noteq> [] \<longrightarrow> tp_sinking t \<and> length (br_outbound (tp_bridge t)) < BRIDGE_CHANNEL_CAPACITY) \<Longrightarrow>
    path_step lib t (on_outbound (\<lambda>q. q @ pongs) (t\<lparr>tp_inbound := tp_inbound t @ items, tp_reading := on,
      tp_cancelled := tp_cancelled t \<or> cancels, tp_received := tp_received t @ arriving e\<rparr>))"
| bridge_turns: "tp_phase t = BridgeIdle \<Longrightarrow> polls t p \<Longrightarrow> bp_inbound p = next_inbound t \<Longrightarrow>
    bridge_turn lib p (tp_bridge t) = (tn, br) \<Longrightarrow>
    path_step lib t (t\<lparr>tp_inbound := (if bp_cancelled p then tp_inbound t else tl (tp_inbound t)), tp_bridge := br,
      tp_phase := phase_after tn p (tp_bridge t)\<rparr>)"
| bridge_retries: "tp_phase t = BridgeRetries i \<Longrightarrow> polls t p \<Longrightarrow> bp_inbound p = i \<Longrightarrow> \<not> bp_cancelled p \<Longrightarrow>
    bridge_turn lib p (tp_bridge t) = (tn, br) \<Longrightarrow>
    path_step lib t (t\<lparr>tp_bridge := br, tp_phase := phase_after tn p (tp_bridge t)\<rparr>)"
| bridge_sends: "tp_phase t = BridgeSends b \<Longrightarrow> polls t p \<Longrightarrow> forward_output p b (tp_bridge t) = (tn, br) \<Longrightarrow>
    path_step lib t (t\<lparr>tp_bridge := br, tp_phase :=
      (case tn of TurnNext \<Rightarrow> BridgeIdle | TurnEnds fin \<Rightarrow> BridgeOver fin | TurnWaits \<Rightarrow> BridgeSends b)\<rparr>)"
| terminal_writes: "sn_commands_open (tp_session t) \<Longrightarrow> sn_commands (tp_session t) = cmd # cmds \<Longrightarrow>
    writer_turn (sn_read_only (tp_session t)) cmd ans = (ops, on) \<Longrightarrow>
    path_step lib t (on_session (\<lambda>s. s\<lparr>sn_commands := if on then cmds else [], sn_commands_open := on\<rparr>)
      (t\<lparr>tp_taken := tp_taken t @ [cmd], tp_ops := tp_ops t @ ops\<rparr>))"
| terminal_writer_ends: "path_step lib t (on_session (\<lambda>s. s\<lparr>sn_commands := [], sn_commands_open := False\<rparr>) t)"
| terminal_prints: "\<not> tp_hung t \<Longrightarrow>
    path_step lib t (t\<lparr>tp_printed := tp_printed t @ b, tp_unread := tp_unread t @ b\<rparr>)"
| terminal_hangs_up: "path_step lib t (t\<lparr>tp_hung := True\<rparr>)"
| terminal_reads: "tp_ended t = None \<Longrightarrow> tp_held t = [] \<Longrightarrow> tp_unread t = b @ rest \<Longrightarrow> b \<noteq> [] \<Longrightarrow>
    length b \<le> MAX_BINARY_BYTES \<Longrightarrow> path_step lib t (t\<lparr>tp_held := [b], tp_unread := rest\<rparr>)"
| terminal_hands_over: "tp_ended t = None \<Longrightarrow> tp_held t = [b] \<Longrightarrow> hand_turn b ans = (handed, lost, ended) \<Longrightarrow>
    (ans = SendDone \<longrightarrow> length (sn_output (tp_session t)) < OUTPUT_CHANNEL_CAPACITY) \<Longrightarrow>
    (ans = SendReceiverGone \<longrightarrow> \<not> bridge_active (tp_phase t)) \<Longrightarrow> (ans = SendCancelled \<longrightarrow> tp_stopping t) \<Longrightarrow>
    path_step lib t (on_session (\<lambda>s. s\<lparr>sn_output := sn_output s @ handed, sn_output_open := (ended = None)\<rparr>)
      (t\<lparr>tp_held := [], tp_chunks := tp_chunks t @ handed, tp_lost := tp_lost t @ lost, tp_ended := ended\<rparr>))"
| terminal_reader_ends: "tp_ended t = None \<Longrightarrow> tp_held t = [] \<Longrightarrow>
    ended = EndOfTerminal \<and> tp_hung t \<and> tp_unread t = [] \<or> ended = ReadFailed \<or> ended = ReaderStopped \<and> tp_stopping t \<Longrightarrow>
    path_step lib t (on_session (\<lambda>s. s\<lparr>sn_output_open := False\<rparr>) (t\<lparr>tp_ended := Some ended\<rparr>))"
| supervisor_stops: "path_step lib t (t\<lparr>tp_stopping := True\<rparr>)"
| socket_writes: "tp_sinking t \<Longrightarrow> br_outbound (tp_bridge t) = m # ms \<Longrightarrow> sink_turn m ok = (sent, cancels, on) \<Longrightarrow>
    path_step lib t (on_outbound (\<lambda>_. ms) (t\<lparr>tp_popped := tp_popped t @ [m], tp_sent := tp_sent t @ sent,
      tp_sinking := on, tp_cancelled := tp_cancelled t \<or> cancels\<rparr>))"
| socket_writer_ends: "path_step lib t (t\<lparr>tp_sinking := False\<rparr>)"
| session_ends: "sn_final (tp_session t) = None \<Longrightarrow> tp_stopping t \<Longrightarrow> \<not> sn_commands_open (tp_session t) \<Longrightarrow>
    \<not> sn_output_open (tp_session t) \<Longrightarrow>
    path_step lib t (on_session (\<lambda>s. s\<lparr>sn_final := Some closed\<rparr>) t)"

section \<open>A turn of the bridge\<close>

text \<open>What a turn does to the channels: it puts at most one command into a queue with room, it takes at most
  one chunk of output, and the rest of the session it leaves but for the request to close.\<close>

definition queue_kept :: "session \<Rightarrow> session \<Rightarrow> bool" where
  "queue_kept s s' \<longleftrightarrow> sn_commands_open s' = sn_commands_open s \<and> sn_read_only s' = sn_read_only s
     \<and> sn_output_open s' = sn_output_open s
     \<and> (sn_commands s' = sn_commands s
        \<or> sn_commands_open s \<and> length (sn_commands s) < INPUT_CHANNEL_CAPACITY
          \<and> length (sn_commands s') = Suc (length (sn_commands s)))"

lemma queue_kept_refl [simp]: "queue_kept s s"
  by (simp add: queue_kept_def)

lemma send_command_kept: "queue_kept s (snd (send_command cmd s))"
  by (simp add: send_command_def queue_kept_def)

lemma await_kept:
  assumes "await_command w cmd (f s) = (r, s')" "f s = (Some (Inl e), s) \<or> f s = send_command cmd s"
    "w = WaitPending \<or> w = WaitCancelled"
  shows "queue_kept s s' \<and> (r \<noteq> Some (Inr ()) \<longrightarrow> s' = s)"
  using assms(1,3) assms(2)
  by (auto simp: await_command_def send_command_def queue_kept_def split: if_splits wait_end.splits)

lemma write_is_send: "(\<exists>e. session_write b s = (Some (Inl e), s)) \<or> session_write b s = send_command (Input b) s"
  by (simp add: session_write_def)

lemma resize_is_send: "(\<exists>e. session_resize z s = (Some (Inl e), s)) \<or> session_resize z s = send_command (ResizeTo z) s"
  by (simp add: session_resize_def split: sum.split)

lemma handle_client_message_kept:
  assumes "handle_client_message lib p m s = (r, s', stop)" "bp_wait p = WaitPending \<or> bp_wait p = WaitCancelled"
  shows "queue_kept s s' \<and> (r = None \<longrightarrow> sn_commands s' = sn_commands s)"
proof (cases m)
  case (WsBinary b)
  with assms decode_client_binary_cases [of b] write_is_send [of b s]
    await_kept [where f = "session_write b" and s = s and cmd = "Input b" and w = "bp_wait p"] show ?thesis
    by (fastforce simp: handle_client_message_def resolve_session_operation_def split: prod.splits option.splits)
next
  case (WsText w)
  show ?thesis
  proof (cases "decode_client_control lib w")
    case (Inr c)
    show ?thesis
    proof (cases c)
      case (ClientResize z)
      with assms WsText Inr resize_is_send [of z s]
        await_kept [where f = "session_resize z" and s = s and cmd = "ResizeTo z" and w = "bp_wait p"] show ?thesis
        by (fastforce simp: handle_client_message_def resolve_session_operation_def split: prod.splits option.splits)
    qed (use assms WsText Inr in \<open>auto simp: handle_client_message_def session_request_def queue_kept_def split: if_splits\<close>)
  qed (use assms WsText in \<open>auto simp: handle_client_message_def\<close>)
qed (use assms in \<open>auto simp: handle_client_message_def\<close>)

text \<open>A turn that waits has put nothing into the queue and keeps in hand what it took.\<close>

definition chunk_in_hand :: "bridge_phase \<Rightarrow> bytes list" where
  "chunk_in_hand ph = (case ph of BridgeSends b \<Rightarrow> [b] | _ \<Rightarrow> [])"

definition commands_in_hand :: "json_lib \<Rightarrow> bridge_phase \<Rightarrow> session_command list" where
  "commands_in_hand lib ph = (case ph of
       BridgeRetries (InboundItem (InboundMessage m)) \<Rightarrow> message_commands lib m
     | _ \<Rightarrow> [])"

lemma in_hand_simps [simp]:
  "chunk_in_hand BridgeIdle = []" "chunk_in_hand (BridgeSends b) = [b]" "chunk_in_hand (BridgeRetries i) = []"
  "chunk_in_hand (BridgeOver fin) = []" "commands_in_hand lib BridgeIdle = []" "commands_in_hand lib (BridgeSends b) = []"
  "commands_in_hand lib (BridgeOver fin) = []" "commands_in_hand lib (BridgeRetries InboundEmpty) = []"
  by (simp_all add: chunk_in_hand_def commands_in_hand_def)

lemma forward_output_waits: "forward_output p b br = (TurnWaits, br') \<Longrightarrow> br' = br"
  using decode_server_binary_cases [of b] by (auto simp: forward_output_def split: send_race.splits sum.splits)

lemma forward_output_room: "forward_output p b br = (tn, br') \<Longrightarrow> br_outbound br' \<noteq> br_outbound br \<Longrightarrow> bp_send p = RaceSent"
  using decode_server_binary_cases [of b] by (auto simp: forward_output_def split: send_race.splits sum.splits)

lemma bridge_turn_cases [consumes 1, case_names quiet chunk message]:
  assumes turn: "bridge_turn lib p br = (tn, br')"
  obtains "br' = br"
  | b bs where "sn_output (br_session br) = b # bs" "forward_output p b (br\<lparr>br_session := (br_session br)\<lparr>sn_output := bs\<rparr>\<rparr>) = (tn, br')"
  | m r s' stop where "handle_client_message lib p m (br_session br) = (r, s', stop)" "br_session br' = s'"
      "br_outbound br' = br_outbound br"
proof (cases "bp_inbound p")
  case InboundEmpty
  show ?thesis
  proof (cases "bp_cancelled p \<or> sn_output (br_session br) = []")
    case True
    with turn InboundEmpty that(1) show ?thesis
      by (auto simp: bridge_turn_def session_read_def Let_def split: if_splits option.splits sum.splits)
  next
    case False
    then obtain b bs where "sn_output (br_session br) = b # bs" by (meson neq_Nil_conv)
    with False InboundEmpty turn that(2) show ?thesis by (simp add: bridge_turn_def session_read_def)
  qed
next
  case (InboundItem i)
  show ?thesis
  proof (cases i)
    case (InboundMessage m)
    obtain r s' stop where "handle_client_message lib p m (br_session br) = (r, s', stop)" by (metis prod_cases3)
    with turn InboundItem InboundMessage that(1,3) show ?thesis
      by (auto simp: bridge_turn_def Let_def split: if_splits)
  qed (use turn InboundItem that(1) in \<open>auto simp: bridge_turn_def Let_def split: if_splits\<close>)
qed (use turn that(1) in \<open>auto simp: bridge_turn_def Let_def split: if_splits\<close>)

lemma bridge_turn_kept:
  assumes turn: "bridge_turn lib p br = (tn, br')" and wait: "bp_wait p = WaitPending \<or> bp_wait p = WaitCancelled"
  shows "queue_kept (br_session br) (br_session br')
    \<and> (br_outbound br' \<noteq> br_outbound br \<longrightarrow> bp_send p = RaceSent \<and> length (br_outbound br') = Suc (length (br_outbound br)))"
  using turn
proof (cases rule: bridge_turn_cases)
  case (chunk b bs)
  from forward_output_result [OF chunk(2)] forward_output_room [OF chunk(2)] show ?thesis
    by (auto simp: queue_kept_def prefix_Cons)
next
  case (message m r s' stop)
  with handle_client_message_kept [OF message(1) wait] show ?thesis by simp
qed simp

text \<open>What a turn makes of its own item, and what it still has in hand.\<close>

lemma bridge_turn_hands:
  assumes turn: "bridge_turn lib p br = (tn, br')" and wait: "bp_wait p = WaitPending \<or> bp_wait p = WaitCancelled"
  shows "prefix (sn_commands (br_session br')) (sn_commands (br_session br) @ poll_commands lib p)"
    and "bridge_active (phase_after tn p br) \<Longrightarrow>
      sn_commands (br_session br') @ commands_in_hand lib (phase_after tn p br) = sn_commands (br_session br) @ poll_commands lib p"
    and "\<exists>outs. br_outbound br' = br_outbound br @ map WsBinary outs
      \<and> prefix outs (sn_output (br_session br))
      \<and> (bridge_active (phase_after tn p br) \<longrightarrow>
          outs @ chunk_in_hand (phase_after tn p br) @ sn_output (br_session br') = sn_output (br_session br))"
proof -
  from bridge_turn_faithful [OF turn] obtain cmds outs where
    cmds: "sn_commands (br_session br') = sn_commands (br_session br) @ cmds" "prefix cmds (poll_commands lib p)"
      "tn = TurnNext \<longrightarrow> cmds = poll_commands lib p"
    and outs: "br_outbound br' = br_outbound br @ map WsBinary outs" "prefix outs (sn_output (br_session br))"
      "tn = TurnNext \<longrightarrow> sn_output (br_session br) = outs @ sn_output (br_session br')" by blast
  from cmds show "prefix (sn_commands (br_session br')) (sn_commands (br_session br) @ poll_commands lib p)" by simp
  have waits: "sn_commands (br_session br') = sn_commands (br_session br) \<and> br_outbound br' = br_outbound br
      \<and> commands_in_hand lib (phase_after tn p br) = poll_commands lib p
      \<and> chunk_in_hand (phase_after tn p br) @ sn_output (br_session br') = sn_output (br_session br)" if w: "tn = TurnWaits"
  proof (cases "bp_inbound p")
    case InboundEmpty
    show ?thesis
    proof (cases "sn_output (br_session br)")
      case Nil
      with turn w InboundEmpty show ?thesis
        by (auto simp: bridge_turn_def session_read_def phase_after_def poll_commands_def Let_def
          split: if_splits option.splits sum.splits)
    next
      case (Cons b bs)
      with turn w InboundEmpty have "forward_output p b (br\<lparr>br_session := (br_session br)\<lparr>sn_output := bs\<rparr>\<rparr>) = (TurnWaits, br')"
        by (simp add: bridge_turn_def session_read_def Let_def split: if_splits)
      from forward_output_waits [OF this] Cons w InboundEmpty show ?thesis
        by (simp add: phase_after_def poll_commands_def)
    qed
  next
    case (InboundItem i)
    show ?thesis
    proof (cases i)
      case (InboundMessage m)
      obtain r s' stop where h: "handle_client_message lib p m (br_session br) = (r, s', stop)" by (metis prod_cases3)
      with turn w InboundItem InboundMessage have "r = None" "br_session br' = s'" "br_outbound br' = br_outbound br"
        by (auto simp: bridge_turn_def Let_def split: if_splits option.splits sum.splits)
      with handle_client_message_kept [OF h wait] handle_client_message_commands [OF h] w InboundItem InboundMessage
      show ?thesis by (simp add: phase_after_def poll_commands_def commands_in_hand_def chunk_in_hand_def)
    qed (use turn w InboundItem in \<open>auto simp: bridge_turn_def Let_def split: if_splits\<close>)
  qed (use turn w in \<open>auto simp: bridge_turn_def Let_def split: if_splits\<close>)
  show "sn_commands (br_session br') @ commands_in_hand lib (phase_after tn p br) = sn_commands (br_session br) @ poll_commands lib p"
    if "bridge_active (phase_after tn p br)"
    using that waits cmds by (cases tn) (auto simp: phase_after_def)
  show "\<exists>outs. br_outbound br' = br_outbound br @ map WsBinary outs \<and> prefix outs (sn_output (br_session br))
      \<and> (bridge_active (phase_after tn p br) \<longrightarrow>
          outs @ chunk_in_hand (phase_after tn p br) @ sn_output (br_session br') = sn_output (br_session br))"
  proof (cases tn)
    case TurnWaits
    with waits show ?thesis by (intro exI [of _ "[]"]) simp
  qed (use outs in \<open>auto simp: phase_after_def intro!: exI [of _ outs]\<close>)
qed

section \<open>The channels are bounded\<close>

definition path_bounded :: "terminal_path \<Rightarrow> bool" where
  "path_bounded t \<longleftrightarrow> length (tp_inbound t) \<le> BRIDGE_CHANNEL_CAPACITY
     \<and> length (br_outbound (tp_bridge t)) \<le> BRIDGE_CHANNEL_CAPACITY
     \<and> length (sn_commands (tp_session t)) \<le> INPUT_CHANNEL_CAPACITY
     \<and> length (sn_output (tp_session t)) \<le> OUTPUT_CHANNEL_CAPACITY
     \<and> list_all (\<lambda>b. b \<noteq> [] \<and> length b \<le> MAX_BINARY_BYTES) (tp_chunks t @ tp_held t) \<and> length (tp_held t) \<le> 1"

lemma turn_output_shrinks:
  assumes "bridge_turn lib p br = (tn, br')"
  shows "length (sn_output (br_session br')) \<le> length (sn_output (br_session br))"
  using assms
proof (cases rule: bridge_turn_cases)
  case (chunk b bs)
  with forward_output_result [OF chunk(2)] show ?thesis by simp
next
  case (message m r s' stop)
  with handle_client_message_commands [OF message(1)] show ?thesis by simp
qed simp

lemma turn_bounded:
  assumes "bridge_turn lib p br = (tn, br')" "polls t p" "tp_bridge t = br" "path_bounded t"
  shows "length (br_outbound br') \<le> BRIDGE_CHANNEL_CAPACITY \<and> length (sn_commands (br_session br')) \<le> INPUT_CHANNEL_CAPACITY
    \<and> length (sn_output (br_session br')) \<le> OUTPUT_CHANNEL_CAPACITY"
proof -
  from assms(2) have wait: "bp_wait p = WaitPending \<or> bp_wait p = WaitCancelled" by (auto simp: polls_def)
  from bridge_turn_kept [OF assms(1) wait] turn_output_shrinks [OF assms(1)] assms(2-4) show ?thesis
    by (fastforce simp: queue_kept_def polls_def path_bounded_def)
qed

lemma path_step_bounded: "path_step lib t t' \<Longrightarrow> path_bounded t \<Longrightarrow> path_bounded t'"
proof (induction rule: path_step.cases)
  case (bridge_turns t p tn br)
  with turn_bounded [of lib p "tp_bridge t" tn br t] show ?case
    by (auto simp: path_bounded_def)
next
  case (bridge_retries t i p tn br)
  with turn_bounded [of lib p "tp_bridge t" tn br t] show ?case by (auto simp: path_bounded_def)
next
  case (bridge_sends t b p tn br)
  from forward_output_result [OF bridge_sends(5)] forward_output_room [OF bridge_sends(5)] bridge_sends show ?case
    by (auto simp: path_bounded_def polls_def prefix_Cons)
next
  case (socket_reads t e items pongs cancels on)
  then have "length items \<le> 1" "length pongs \<le> 1"
    by (auto simp: reader_turn_def split: socket_event.splits ws_message.splits if_splits)
  with socket_reads show ?case
    by (cases "items = []"; cases "pongs = []") (auto simp: path_bounded_def on_outbound_def)
next
  case (terminal_hands_over t b ans handed lost ended)
  then show ?case by (cases ans) (auto simp: path_bounded_def on_session_def hand_turn_def)
qed (auto simp: path_bounded_def on_outbound_def on_session_def)


section \<open>Both directions are FIFO\<close>

definition inbound_commands :: "json_lib \<Rightarrow> inbound \<Rightarrow> session_command list" where
  "inbound_commands lib i = (case i of InboundMessage m \<Rightarrow> message_commands lib m | InboundFailure _ \<Rightarrow> [])"

definition received_commands :: "json_lib \<Rightarrow> terminal_path \<Rightarrow> session_command list" where
  "received_commands lib t = concat (map (message_commands lib) (tp_received t))"

definition waiting_commands :: "json_lib \<Rightarrow> terminal_path \<Rightarrow> session_command list" where
  "waiting_commands lib t = commands_in_hand lib (tp_phase t) @ concat (map (inbound_commands lib) (tp_inbound t))"

definition binaries :: "ws_message list \<Rightarrow> bytes list" where
  "binaries ms = concat (map (\<lambda>m. case m of WsBinary b \<Rightarrow> [b] | _ \<Rightarrow> []) ms)"

lemma binaries_simps [simp]:
  "binaries [] = []" "binaries (xs @ ys) = binaries xs @ binaries ys" "binaries (map WsBinary bs) = bs"
  "binaries (WsBinary b # ms) = b # binaries ms"
  by (simp_all add: binaries_def comp_def)

text \<open>Towards the terminal: what was taken and what is queued is a beginning of what the received messages
  ask for, and while everyone works, what waits in front of the bridge is the rest of it.\<close>

definition input_kept :: "json_lib \<Rightarrow> terminal_path \<Rightarrow> bool" where
  "input_kept lib t \<longleftrightarrow>
     prefix (tp_taken t @ sn_commands (tp_session t)) (received_commands lib t)
     \<and> (bridge_active (tp_phase t) \<and> sn_commands_open (tp_session t) \<longrightarrow>
          prefix (tp_taken t @ sn_commands (tp_session t) @ waiting_commands lib t) (received_commands lib t)
          \<and> (tp_reading t \<longrightarrow> tp_taken t @ sn_commands (tp_session t) @ waiting_commands lib t = received_commands lib t))
     \<and> tp_ops t = concat (map (terminal_op_of (sn_read_only (tp_session t))) (tp_taken t))"

text \<open>Towards the client: what the socket writer took and what is queued for it is a beginning of what was
  read from the terminal, and while the bridge works, the rest is still in the session.\<close>

definition output_kept :: "terminal_path \<Rightarrow> bool" where
  "output_kept t \<longleftrightarrow>
     prefix (binaries (tp_popped t @ br_outbound (tp_bridge t))) (tp_chunks t)
     \<and> (bridge_active (tp_phase t) \<longrightarrow>
          binaries (tp_popped t @ br_outbound (tp_bridge t)) @ chunk_in_hand (tp_phase t) @ sn_output (tp_session t)
            = tp_chunks t)
     \<and> prefix (tp_sent t) (tp_popped t) \<and> (tp_sinking t \<longrightarrow> tp_sent t = tp_popped t)"

lemma writer_turn_ops: "writer_turn ro cmd ans = (ops, on) \<Longrightarrow> ops = terminal_op_of ro cmd"
  by (cases cmd) (auto simp: writer_turn_def split: if_splits)

lemma next_inbound_commands:
  "bp_inbound p = next_inbound t \<Longrightarrow>
    poll_commands lib p @ concat (map (inbound_commands lib) (tl (tp_inbound t)))
      = concat (map (inbound_commands lib) (tp_inbound t))"
  by (cases "tp_inbound t") (auto simp: next_inbound_def poll_commands_def inbound_commands_def split: inbound.splits)

lemma retried_commands: "bp_inbound p = i \<Longrightarrow> poll_commands lib p = commands_in_hand lib (BridgeRetries i)"
  by (auto simp: poll_commands_def commands_in_hand_def split: inbound_ready.splits inbound.splits)

lemma reader_turn_commands:
  assumes "reader_turn e = (items, pongs, cancels, on)"
  shows "prefix (concat (map (inbound_commands lib) items)) (concat (map (message_commands lib) (arriving e)))"
    and "on \<Longrightarrow> concat (map (inbound_commands lib) items) = concat (map (message_commands lib) (arriving e))"
    and "binaries pongs = []"
  using assms
  by (auto simp: reader_turn_def arriving_def inbound_commands_def binaries_def split: socket_event.splits ws_message.splits if_splits)


lemmas path_updates = on_session_def on_outbound_def received_commands_def waiting_commands_def

lemma prefix_append_more: "prefix xs (ys @ zs) \<Longrightarrow> prefix xs (ys @ zs @ ws)"
  by (metis append.assoc prefixI prefix_order.trans)

text \<open>A turn on an item that was waiting in front of the bridge.\<close>

lemma turn_input_kept:
  assumes turn: "bridge_turn lib p (tp_bridge t) = (tn, br)" and polls: "polls t p"
    and front: "waiting_commands lib t = poll_commands lib p @ concat (map (inbound_commands lib) rest)"
    and active: "bridge_active (tp_phase t)" and kept: "input_kept lib t" and bridge: "tp_bridge t' = br"
    and phase: "tp_phase t' = phase_after tn p (tp_bridge t)"
    and after: "bridge_active (tp_phase t') \<Longrightarrow> tp_inbound t' = rest"
    and same: "tp_taken t' = tp_taken t" "tp_ops t' = tp_ops t" "tp_received t' = tp_received t" "tp_reading t' = tp_reading t"
  shows "input_kept lib t'"
proof -
  from polls have wait: "bp_wait p = WaitPending \<or> bp_wait p = WaitCancelled" by (auto simp: polls_def)
  from bridge_turn_kept [OF turn wait] bridge
  have queue: "queue_kept (tp_session t) (tp_session t')" by simp
  have received: "received_commands lib t' = received_commands lib t" by (simp add: received_commands_def same)
  show ?thesis
  proof (cases "sn_commands_open (tp_session t)")
    case False
    with queue kept same received show ?thesis by (auto simp: input_kept_def queue_kept_def)
  next
    case True
    with kept active have all: "prefix (tp_taken t @ sn_commands (tp_session t) @ waiting_commands lib t) (received_commands lib t)"
      "tp_reading t \<Longrightarrow> tp_taken t @ sn_commands (tp_session t) @ waiting_commands lib t = received_commands lib t"
      "tp_ops t = concat (map (terminal_op_of (sn_read_only (tp_session t))) (tp_taken t))"
      by (auto simp: input_kept_def)
    from bridge_turn_hands(1) [OF turn wait] bridge
    have "prefix (sn_commands (tp_session t')) (sn_commands (tp_session t) @ poll_commands lib p)" by simp
    then have "prefix (tp_taken t @ sn_commands (tp_session t')) (tp_taken t @ sn_commands (tp_session t) @ waiting_commands lib t)"
      by (simp add: front prefix_append_more)
    with all(1) have first: "prefix (tp_taken t @ sn_commands (tp_session t')) (received_commands lib t)"
      by (rule prefix_order.trans [rotated])
    have "sn_commands (tp_session t') @ waiting_commands lib t' = sn_commands (tp_session t) @ waiting_commands lib t"
      if "bridge_active (tp_phase t')"
      using bridge_turn_hands(2) [OF turn wait] that after [OF that] bridge phase front
      by (simp add: waiting_commands_def)
    with first all same received queue show ?thesis by (auto simp: input_kept_def queue_kept_def)
  qed
qed

lemma input_keptI:
  assumes "prefix (tp_taken t @ sn_commands (tp_session t)) (received_commands lib t)"
    "bridge_active (tp_phase t) \<Longrightarrow> sn_commands_open (tp_session t) \<Longrightarrow>
      prefix (tp_taken t @ sn_commands (tp_session t) @ waiting_commands lib t) (received_commands lib t)"
    "bridge_active (tp_phase t) \<Longrightarrow> sn_commands_open (tp_session t) \<Longrightarrow> tp_reading t \<Longrightarrow>
      tp_taken t @ sn_commands (tp_session t) @ waiting_commands lib t = received_commands lib t"
    "tp_ops t = concat (map (terminal_op_of (sn_read_only (tp_session t))) (tp_taken t))"
  shows "input_kept lib t"
  using assms unfolding input_kept_def by blast

lemma input_keptD:
  assumes "input_kept lib t"
  shows "prefix (tp_taken t @ sn_commands (tp_session t)) (received_commands lib t)"
    "bridge_active (tp_phase t) \<Longrightarrow> sn_commands_open (tp_session t) \<Longrightarrow>
      prefix (tp_taken t @ sn_commands (tp_session t) @ waiting_commands lib t) (received_commands lib t)"
    "bridge_active (tp_phase t) \<Longrightarrow> sn_commands_open (tp_session t) \<Longrightarrow> tp_reading t \<Longrightarrow>
      tp_taken t @ sn_commands (tp_session t) @ waiting_commands lib t = received_commands lib t"
    "tp_ops t = concat (map (terminal_op_of (sn_read_only (tp_session t))) (tp_taken t))"
  using assms unfolding input_kept_def by blast+

lemma input_kept_frame:
  assumes kept: "input_kept lib t" and same: "sn_commands (tp_session t') = sn_commands (tp_session t)"
    "sn_commands_open (tp_session t') = sn_commands_open (tp_session t)" "sn_read_only (tp_session t') = sn_read_only (tp_session t)"
    "tp_taken t' = tp_taken t" "tp_ops t' = tp_ops t" "tp_received t' = tp_received t" "tp_reading t' = tp_reading t"
    and waiting: "bridge_active (tp_phase t') \<Longrightarrow> bridge_active (tp_phase t) \<and> waiting_commands lib t' = waiting_commands lib t"
  shows "input_kept lib t'"
proof -
  have "received_commands lib t' = received_commands lib t" by (simp add: received_commands_def same)
  with input_keptD [OF kept] waiting show ?thesis by (intro input_keptI) (simp_all only: same)
qed

lemma input_kept_closed:
  assumes kept: "input_kept lib t" and closed: "\<not> sn_commands_open (tp_session t')" "sn_commands (tp_session t') = []"
    and same: "sn_read_only (tp_session t') = sn_read_only (tp_session t)" "tp_taken t' = tp_taken t" "tp_ops t' = tp_ops t"
    "tp_received t' = tp_received t"
  shows "input_kept lib t'"
  using input_keptD(1,4) [OF kept] closed(1)
  by (intro input_keptI) (auto simp: received_commands_def same closed(2) intro: append_prefixD)

lemma input_kept_taken:
  assumes kept: "input_kept lib t"
    and queue: "sn_commands_open (tp_session t)" "sn_commands (tp_session t) = cmd # cmds"
    and after: "sn_commands (tp_session t') = (if on then cmds else [])" "sn_commands_open (tp_session t') = on"
      "tp_taken t' = tp_taken t @ [cmd]" "tp_ops t' = tp_ops t @ terminal_op_of (sn_read_only (tp_session t)) cmd"
    and same: "sn_read_only (tp_session t') = sn_read_only (tp_session t)" "tp_received t' = tp_received t"
      "tp_reading t' = tp_reading t" "tp_phase t' = tp_phase t" "tp_inbound t' = tp_inbound t"
  shows "input_kept lib t'"
proof (rule input_keptI)
  have received: "received_commands lib t' = received_commands lib t" by (simp add: received_commands_def same)
  have waiting: "waiting_commands lib t' = waiting_commands lib t" by (simp add: waiting_commands_def same)
  from input_keptD(1) [OF kept] have first: "prefix ((tp_taken t @ [cmd]) @ cmds) (received_commands lib t)"
    by (simp add: queue)
  with append_prefixD [OF first] show "prefix (tp_taken t' @ sn_commands (tp_session t')) (received_commands lib t')"
    unfolding received after by (cases on) simp_all
  from input_keptD(4) [OF kept] show "tp_ops t' = concat (map (terminal_op_of (sn_read_only (tp_session t'))) (tp_taken t'))"
    by (simp add: after same)
  assume active: "bridge_active (tp_phase t')" "sn_commands_open (tp_session t')"
  then have on: on and phase: "bridge_active (tp_phase t)" by (simp_all add: after same)
  have shift: "tp_taken t' @ sn_commands (tp_session t') @ waiting_commands lib t'
      = tp_taken t @ sn_commands (tp_session t) @ waiting_commands lib t"
    by (simp add: after queue on waiting)
  from input_keptD(2) [OF kept phase queue(1)]
  show "prefix (tp_taken t' @ sn_commands (tp_session t') @ waiting_commands lib t') (received_commands lib t')"
    unfolding shift received .
  from input_keptD(3) [OF kept phase queue(1)]
  show "tp_taken t' @ sn_commands (tp_session t') @ waiting_commands lib t' = received_commands lib t'" if "tp_reading t'"
    using that unfolding shift received same .
qed

lemma socket_reads_commands:
  assumes read: "reader_turn e = (items, pongs, cancels, on)" and kept: "input_kept lib t" and reading: "tp_reading t"
    and after: "tp_inbound t' = tp_inbound t @ items" "tp_reading t' = on" "tp_received t' = tp_received t @ arriving e"
    and same: "tp_session t' = tp_session t" "tp_taken t' = tp_taken t" "tp_ops t' = tp_ops t" "tp_phase t' = tp_phase t"
  shows "input_kept lib t'"
proof (rule input_keptI)
  let ?more = "concat (map (message_commands lib) (arriving e))"
  have received: "received_commands lib t' = received_commands lib t @ ?more" by (simp add: received_commands_def after)
  have waiting: "waiting_commands lib t' = waiting_commands lib t @ concat (map (inbound_commands lib) items)"
    by (simp add: waiting_commands_def after same)
  from input_keptD(1) [OF kept] show "prefix (tp_taken t' @ sn_commands (tp_session t')) (received_commands lib t')"
    unfolding same received by (rule prefix_prefix)
  from input_keptD(4) [OF kept] show "tp_ops t' = concat (map (terminal_op_of (sn_read_only (tp_session t'))) (tp_taken t'))"
    unfolding same .
  assume active: "bridge_active (tp_phase t')" "sn_commands_open (tp_session t')"
  then have all: "received_commands lib t = tp_taken t @ sn_commands (tp_session t) @ waiting_commands lib t"
    unfolding same using input_keptD(3) [OF kept] reading by metis
  show "prefix (tp_taken t' @ sn_commands (tp_session t') @ waiting_commands lib t') (received_commands lib t')"
    unfolding received waiting same all using reader_turn_commands(1) [OF read] by simp
  show "tp_taken t' @ sn_commands (tp_session t') @ waiting_commands lib t' = received_commands lib t'" if "tp_reading t'"
    unfolding received waiting same all using reader_turn_commands(2) [OF read] that after by simp
qed

lemma path_step_input: "path_step lib t t' \<Longrightarrow> input_kept lib t \<Longrightarrow> input_kept lib t'"
proof (induction rule: path_step.cases)
  case (socket_reads t e items pongs cancels on)
  show ?case unfolding socket_reads(2)
    by (rule socket_reads_commands [where e = e and t = t]) (use socket_reads in \<open>simp_all add: on_outbound_def\<close>)
next
  case (bridge_turns t p tn br)
  then have kept: "input_kept lib t" and phase: "tp_phase t = BridgeIdle" by simp_all
  from bridge_turns have cancelled: "bp_cancelled p \<Longrightarrow> \<not> bridge_active (phase_after tn p (tp_bridge t))"
    by (auto simp: bridge_turn_def phase_after_def Let_def)
  show ?case unfolding bridge_turns(2)
    by (rule turn_input_kept [where t = t and p = p and tn = tn and br = br and rest = "tl (tp_inbound t)"])
      (use bridge_turns next_inbound_commands [of p t lib] cancelled in \<open>auto simp: waiting_commands_def\<close>)
next
  case (bridge_retries t i p tn br)
  show ?case unfolding bridge_retries(2)
    by (rule turn_input_kept [where t = t and p = p and tn = tn and br = br and rest = "tp_inbound t"])
      (use bridge_retries retried_commands [of p i lib] in \<open>simp_all add: waiting_commands_def\<close>)
next
  case (bridge_sends t b p tn br)
  then have session: "br_session br = tp_session t" by (auto dest: forward_output_result)
  from bridge_sends have phase: "tp_phase t = BridgeSends b" and kept: "input_kept lib t" by simp_all
  show ?case unfolding bridge_sends(2)
    by (rule input_kept_frame [OF kept]) (simp_all add: session phase waiting_commands_def split: turn.splits)
next
  case (terminal_writes t cmd cmds ans ops on)
  then have queue: "sn_commands_open (tp_session t)" "sn_commands (tp_session t) = cmd # cmds" and kept: "input_kept lib t"
    and ops: "ops = terminal_op_of (sn_read_only (tp_session t)) cmd"
    by (simp_all add: writer_turn_ops)
  show ?case unfolding terminal_writes(2)
    by (rule input_kept_taken [OF kept queue]) (simp_all add: ops on_session_def)
next
  case (terminal_writer_ends t)
  then have kept: "input_kept lib t" by simp
  show ?case unfolding terminal_writer_ends(2)
    by (rule input_kept_closed [OF kept]) (simp_all add: on_session_def waiting_commands_def)
next
  case (terminal_prints t b)
  then have kept: "input_kept lib t" by simp
  show ?case unfolding terminal_prints(2)
    by (rule input_kept_frame [OF kept]) (simp_all add: on_session_def waiting_commands_def)
next
  case (terminal_hangs_up t)
  then have kept: "input_kept lib t" by simp
  show ?case unfolding terminal_hangs_up(2)
    by (rule input_kept_frame [OF kept]) (simp_all add: on_session_def waiting_commands_def)
next
  case (terminal_reads t b rest)
  then have kept: "input_kept lib t" by simp
  show ?case unfolding terminal_reads(2)
    by (rule input_kept_frame [OF kept]) (simp_all add: on_session_def waiting_commands_def)
next
  case (terminal_hands_over t b ans handed lost ended)
  then have kept: "input_kept lib t" by simp
  show ?case unfolding terminal_hands_over(2)
    by (rule input_kept_frame [OF kept]) (simp_all add: on_session_def waiting_commands_def)
next
  case (terminal_reader_ends t ended)
  then have kept: "input_kept lib t" by simp
  show ?case unfolding terminal_reader_ends(2)
    by (rule input_kept_frame [OF kept]) (simp_all add: on_session_def waiting_commands_def)
next
  case (supervisor_stops t)
  then have kept: "input_kept lib t" by simp
  show ?case unfolding supervisor_stops(2)
    by (rule input_kept_frame [OF kept]) (simp_all add: on_session_def waiting_commands_def)
next
  case (socket_writes t m ms ok sent cancels on)
  then have kept: "input_kept lib t" by simp
  show ?case unfolding socket_writes(2)
    by (rule input_kept_frame [OF kept]) (simp_all add: on_outbound_def waiting_commands_def)
next
  case (socket_writer_ends t)
  then have kept: "input_kept lib t" by simp
  show ?case unfolding socket_writer_ends(2)
    by (rule input_kept_frame [OF kept]) (simp_all add: waiting_commands_def)
next
  case (session_ends t closed)
  then have kept: "input_kept lib t" by simp
  show ?case unfolding session_ends(2)
    by (rule input_kept_frame [OF kept]) (simp_all add: on_session_def waiting_commands_def)
qed


lemma output_keptI:
  assumes "prefix (binaries (tp_popped t @ br_outbound (tp_bridge t))) (tp_chunks t)"
    "bridge_active (tp_phase t) \<Longrightarrow>
      binaries (tp_popped t @ br_outbound (tp_bridge t)) @ chunk_in_hand (tp_phase t) @ sn_output (tp_session t) = tp_chunks t"
    "prefix (tp_sent t) (tp_popped t)" "tp_sinking t \<Longrightarrow> tp_sent t = tp_popped t"
  shows "output_kept t"
  using assms unfolding output_kept_def by blast

lemma output_keptD:
  assumes "output_kept t"
  shows "prefix (binaries (tp_popped t @ br_outbound (tp_bridge t))) (tp_chunks t)"
    "bridge_active (tp_phase t) \<Longrightarrow>
      binaries (tp_popped t @ br_outbound (tp_bridge t)) @ chunk_in_hand (tp_phase t) @ sn_output (tp_session t) = tp_chunks t"
    "prefix (tp_sent t) (tp_popped t)" "tp_sinking t \<Longrightarrow> tp_sent t = tp_popped t"
  using assms unfolding output_kept_def by blast+

text \<open>A task that moves chunks from the hand of the bridge and from the session to the socket writer's queue.\<close>

lemma output_kept_moved:
  assumes kept: "output_kept t" and active: "bridge_active (tp_phase t)"
    and moved: "binaries (br_outbound (tp_bridge t')) = binaries (br_outbound (tp_bridge t)) @ outs"
      "prefix outs (chunk_in_hand (tp_phase t) @ sn_output (tp_session t))"
      "bridge_active (tp_phase t') \<Longrightarrow>
        outs @ chunk_in_hand (tp_phase t') @ sn_output (tp_session t') = chunk_in_hand (tp_phase t) @ sn_output (tp_session t)"
    and same: "tp_popped t' = tp_popped t" "tp_sent t' = tp_sent t" "tp_chunks t' = tp_chunks t" "tp_sinking t' = tp_sinking t"
  shows "output_kept t'"
  using output_keptD [OF kept] active moved
  by (intro output_keptI) (simp_all add: same, metis append.assoc same_prefix_prefix)

lemma output_kept_frame:
  assumes kept: "output_kept t"
    and moved: "binaries (tp_popped t' @ br_outbound (tp_bridge t')) = binaries (tp_popped t @ br_outbound (tp_bridge t))"
      "chunk_in_hand (tp_phase t') = chunk_in_hand (tp_phase t)" "bridge_active (tp_phase t') = bridge_active (tp_phase t)"
      "sn_output (tp_session t') = sn_output (tp_session t) @ added" "tp_chunks t' = tp_chunks t @ added"
    and sent: "prefix (tp_sent t') (tp_popped t')" "tp_sinking t' \<Longrightarrow> tp_sent t' = tp_popped t'"
  shows "output_kept t'"
  using output_keptD(1,2) [OF kept] sent
  by (intro output_keptI) (simp_all only: moved, simp, metis append.assoc)

lemma path_step_output: "path_step lib t t' \<Longrightarrow> output_kept t \<Longrightarrow> output_kept t'"
proof (induction rule: path_step.cases)
  case (socket_reads t e items pongs cancels on)
  then have kept: "output_kept t" by simp
  show ?case unfolding socket_reads(2)
    by (rule output_kept_frame [OF kept, where added = "[]"])
      (use reader_turn_commands(3) [of e items pongs cancels on] socket_reads output_keptD(3,4) [OF kept] in
        \<open>simp_all add: on_outbound_def\<close>)
next
  case (bridge_turns t p tn br)
  then have kept: "output_kept t" and phase: "tp_phase t = BridgeIdle" and wait: "bp_wait p = WaitPending \<or> bp_wait p = WaitCancelled"
    and turn: "bridge_turn lib p (tp_bridge t) = (tn, br)" by (auto simp: polls_def)
  from bridge_turn_hands(3) [OF turn wait] show ?case unfolding bridge_turns(2)
    by (elim exE, intro output_kept_moved [OF kept]) (auto simp: phase)
next
  case (bridge_retries t i p tn br)
  then have kept: "output_kept t" and phase: "tp_phase t = BridgeRetries i" and wait: "bp_wait p = WaitPending \<or> bp_wait p = WaitCancelled"
    and turn: "bridge_turn lib p (tp_bridge t) = (tn, br)" by (auto simp: polls_def)
  from bridge_turn_hands(3) [OF turn wait] show ?case unfolding bridge_retries(2)
    by (elim exE, intro output_kept_moved [OF kept]) (auto simp: phase)
next
  case (bridge_sends t b p tn br)
  then have kept: "output_kept t" and phase: "tp_phase t = BridgeSends b"
    and forward: "forward_output p b (tp_bridge t) = (tn, br)" by simp_all
  from forward_output_result [OF forward] forward_output_waits [of p b "tp_bridge t" br] forward show ?case
    unfolding bridge_sends(2)
    by (elim conjE exE, intro output_kept_moved [OF kept]) (auto simp: phase prefix_Cons split: turn.splits)
next
  case (terminal_hands_over t b ans handed lost ended)
  then have kept: "output_kept t" by simp
  show ?case unfolding terminal_hands_over(2)
    by (rule output_kept_frame [OF kept, where added = handed]) (use output_keptD(3,4) [OF kept] in \<open>simp_all add: on_session_def\<close>)
next
  case (socket_writes t m ms ok sent cancels on)
  then have kept: "output_kept t" and queue: "br_outbound (tp_bridge t) = m # ms" and sent: "tp_sent t = tp_popped t"
    and turn: "sent = [m] \<or> sent = [] \<and> \<not> on"
    by (auto simp: sink_turn_def split: if_splits dest: output_keptD(4))
  show ?case unfolding socket_writes(2)
    by (rule output_kept_frame [OF kept, where added = "[]"]) (use turn in \<open>auto simp: on_outbound_def queue sent binaries_def\<close>)
qed (simp_all add: output_kept_def on_session_def)


section \<open>The terminal's side\<close>

text \<open>What was printed is handed over, held, lost or unread, in this order; the reader's end says which.\<close>

definition printed_kept :: "terminal_path \<Rightarrow> bool" where
  "printed_kept t \<longleftrightarrow> concat (tp_chunks t @ tp_held t @ tp_lost t) @ tp_unread t = tp_printed t
     \<and> (sn_output_open (tp_session t) \<longleftrightarrow> tp_ended t = None) \<and> length (tp_held t @ tp_lost t) \<le> 1
     \<and> (case tp_ended t of
          None \<Rightarrow> tp_lost t = []
        | Some EndOfTerminal \<Rightarrow> tp_hung t \<and> tp_held t = [] \<and> tp_lost t = [] \<and> tp_unread t = []
        | Some ReadFailed \<Rightarrow> tp_held t = [] \<and> tp_lost t = []
        | Some ReaderStopped \<Rightarrow> tp_held t = [] \<and> tp_stopping t
        | Some ReceiverGone \<Rightarrow> tp_held t = [] \<and> \<not> bridge_active (tp_phase t))"

lemma printed_kept_frame:
  assumes kept: "printed_kept t" and same: "sn_output_open (tp_session t') = sn_output_open (tp_session t)"
    "tp_chunks t' = tp_chunks t" "tp_held t' = tp_held t" "tp_lost t' = tp_lost t" "tp_unread t' = tp_unread t"
    "tp_printed t' = tp_printed t" "tp_ended t' = tp_ended t" "tp_hung t \<Longrightarrow> tp_hung t'" "tp_stopping t \<Longrightarrow> tp_stopping t'"
    and phase: "bridge_active (tp_phase t') \<Longrightarrow> bridge_active (tp_phase t)"
  shows "printed_kept t'"
proof (cases "tp_ended t")
  case None
  with kept show ?thesis by (auto simp: printed_kept_def same)
next
  case (Some e)
  with kept same(8,9) phase show ?thesis by (cases e) (auto simp: printed_kept_def same(1-7))
qed

lemma path_step_printed: "path_step lib t t' \<Longrightarrow> printed_kept t \<Longrightarrow> printed_kept t'"
proof (induction rule: path_step.cases)
  case (bridge_turns t p tn br)
  then have kept: "printed_kept t" and wait: "bp_wait p = WaitPending \<or> bp_wait p = WaitCancelled"
    and turn: "bridge_turn lib p (tp_bridge t) = (tn, br)" and phase: "tp_phase t = BridgeIdle" by (auto simp: polls_def)
  from bridge_turn_kept [OF turn wait] show ?case unfolding bridge_turns(2)
    by (intro printed_kept_frame [OF kept]) (simp_all add: queue_kept_def phase)
next
  case (bridge_retries t i p tn br)
  then have kept: "printed_kept t" and wait: "bp_wait p = WaitPending \<or> bp_wait p = WaitCancelled"
    and turn: "bridge_turn lib p (tp_bridge t) = (tn, br)" and phase: "tp_phase t = BridgeRetries i" by (auto simp: polls_def)
  from bridge_turn_kept [OF turn wait] show ?case unfolding bridge_retries(2)
    by (intro printed_kept_frame [OF kept]) (simp_all add: queue_kept_def phase)
next
  case (bridge_sends t b p tn br)
  then have kept: "printed_kept t" and session: "br_session br = tp_session t" and phase: "tp_phase t = BridgeSends b"
    by (auto dest: forward_output_result)
  show ?case unfolding bridge_sends(2)
    by (intro printed_kept_frame [OF kept]) (simp_all add: session phase)
next
  case (terminal_prints t b)
  then show ?case by (auto simp: printed_kept_def simp flip: append_assoc split: option.splits read_end.splits)
next
  case (terminal_reads t b rest)
  then show ?case by (auto simp: printed_kept_def)
next
  case (terminal_hands_over t b ans handed lost ended)
  then show ?case by (cases ans) (auto simp: printed_kept_def on_session_def hand_turn_def)
next
  case (terminal_reader_ends t ended)
  then show ?case by (auto simp: printed_kept_def on_session_def)
next
  case (socket_reads t e items pongs cancels on)
  then have kept: "printed_kept t" by simp
  show ?case unfolding socket_reads(2) by (rule printed_kept_frame [OF kept]) (simp_all add: on_outbound_def)
next
  case (socket_writes t m ms ok sent cancels on)
  then have kept: "printed_kept t" by simp
  show ?case unfolding socket_writes(2) by (rule printed_kept_frame [OF kept]) (simp_all add: on_outbound_def)
next
  case (terminal_writes t cmd cmds ans ops on)
  then have kept: "printed_kept t" by simp
  show ?case unfolding terminal_writes(2) by (rule printed_kept_frame [OF kept]) (simp_all add: on_session_def)
next
  case (terminal_writer_ends t)
  then have kept: "printed_kept t" by simp
  show ?case unfolding terminal_writer_ends(2) by (rule printed_kept_frame [OF kept]) (simp_all add: on_session_def)
next
  case (session_ends t closed)
  then have kept: "printed_kept t" by simp
  show ?case unfolding session_ends(2) by (rule printed_kept_frame [OF kept]) (simp_all add: on_session_def)
next
  case (terminal_hangs_up t)
  then have kept: "printed_kept t" by simp
  show ?case unfolding terminal_hangs_up(2) by (rule printed_kept_frame [OF kept]) simp_all
next
  case (supervisor_stops t)
  then have kept: "printed_kept t" by simp
  show ?case unfolding supervisor_stops(2) by (rule printed_kept_frame [OF kept]) simp_all
next
  case (socket_writer_ends t)
  then have kept: "printed_kept t" by simp
  show ?case unfolding socket_writer_ends(2) by (rule printed_kept_frame [OF kept]) simp_all
qed

section \<open>What holds of every run\<close>

definition fresh_path :: "connecting \<Rightarrow> terminal_path" where
  "fresh_path cn = path_new (new_session cn)"

lemma fresh_path_kept: "input_kept lib (fresh_path cn)" "output_kept (fresh_path cn)" "path_bounded (fresh_path cn)"
  "printed_kept (fresh_path cn)"
  by (simp_all add: fresh_path_def path_new_def new_session_def input_kept_def output_kept_def path_bounded_def printed_kept_def
    received_commands_def waiting_commands_def)

lemma path_step_read_only: "path_step lib t t' \<Longrightarrow> sn_read_only (tp_session t') = sn_read_only (tp_session t)"
proof (induction rule: path_step.cases)
  case (bridge_turns t p tn br)
  with bridge_turn_kept [of lib p "tp_bridge t" tn br] show ?case by (auto simp: polls_def queue_kept_def)
next
  case (bridge_retries t i p tn br)
  with bridge_turn_kept [of lib p "tp_bridge t" tn br] show ?case by (auto simp: polls_def queue_kept_def)
next
  case (bridge_sends t b p tn br)
  with forward_output_result [of p b "tp_bridge t" tn br] show ?case by simp
qed (simp_all add: on_session_def on_outbound_def)

lemma path_run_kept:
  "(path_step lib)\<^sup>*\<^sup>* (fresh_path cn) t \<Longrightarrow>
   input_kept lib t \<and> output_kept t \<and> path_bounded t \<and> printed_kept t \<and> sn_read_only (tp_session t) = cn_read_only cn"
proof (induction rule: rtranclp_induct)
  case base
  then show ?case by (simp add: fresh_path_kept) (simp add: fresh_path_def path_new_def new_session_def)
next
  case (step t t')
  then show ?case
    by (simp add: path_step_input [OF step(2)] path_step_output [OF step(2)] path_step_bounded [OF step(2)]
      path_step_printed [OF step(2)] path_step_read_only [OF step(2)])
qed

text \<open>Everyone still works and nothing is on the way.\<close>

definition drained :: "terminal_path \<Rightarrow> bool" where
  "drained t \<longleftrightarrow> tp_phase t = BridgeIdle \<and> tp_reading t \<and> tp_sinking t \<and> sn_commands_open (tp_session t)
     \<and> tp_inbound t = [] \<and> sn_commands (tp_session t) = [] \<and> sn_output (tp_session t) = []
     \<and> br_outbound (tp_bridge t) = []"

lemma message_commands_le: "length (message_commands lib m) \<le> 1"
  by (auto simp: message_commands_def split: ws_message.split sum.split client_control.split)

lemma waiting_commands_le: "length (waiting_commands lib t) \<le> 1 + length (tp_inbound t)"
proof -
  have queue: "length (concat (map (inbound_commands lib) xs)) \<le> length xs" for xs
  proof (induction xs)
    case (Cons i xs)
    with message_commands_le [of lib] show ?case
      by (cases i) (auto simp: inbound_commands_def intro: order.trans add_mono)
  qed simp
  have hand: "length (commands_in_hand lib (tp_phase t)) \<le> 1"
    using message_commands_le [of lib] by (auto simp: commands_in_hand_def split: bridge_phase.split inbound_ready.split inbound.split)
  from add_mono [OF hand queue [of "tp_inbound t"]] show ?thesis by (simp add: waiting_commands_def)
qed

lemma chunks_le: "list_all (\<lambda>b. b \<noteq> [] \<and> length b \<le> k) bs \<Longrightarrow> length (concat bs) \<le> length bs * k"
  by (induction bs) auto

lemma chunk_in_hand_le: "length (chunk_in_hand ph) \<le> 1"
  by (simp add: chunk_in_hand_def split: bridge_phase.split)

lemma binaries_le: "length (binaries ms) \<le> length ms"
  by (induction ms) (auto simp: binaries_def split: ws_message.split)

text \<open>C13: Whatever the order in which the five tasks between a socket and its terminal take their turns, the
  operations on the terminal are a beginning of those the received messages ask for, in their order; on a
  read-only target nothing is ever written; the output sent to the client is a beginning of the chunks that
  the terminal's reader handed over, and of what the terminal printed; and when all still work and nothing
  is on the way, the operations and the chunks are complete, and with nothing left in the reader's hand or
  unread so is what was printed.\<close>

theorem terminal_path_faithful:
  assumes run: "(path_step lib)\<^sup>*\<^sup>* (fresh_path cn) t"
  shows "prefix (tp_ops t) (concat (map (terminal_op_of (cn_read_only cn)) (received_commands lib t)))
    \<and> (cn_read_only cn \<longrightarrow> (\<forall>b. TermWrite b \<notin> set (tp_ops t)))
    \<and> prefix (binaries (tp_sent t)) (tp_chunks t)
    \<and> (drained t \<longrightarrow> tp_ops t = concat (map (terminal_op_of (cn_read_only cn)) (received_commands lib t))
        \<and> binaries (tp_sent t) = tp_chunks t)
    \<and> prefix (concat (binaries (tp_sent t))) (tp_printed t)
    \<and> (drained t \<and> tp_ended t = None \<and> tp_held t = [] \<and> tp_unread t = [] \<longrightarrow> concat (binaries (tp_sent t)) = tp_printed t)"
proof -
  from path_run_kept [OF run] have input: "input_kept lib t" and out: "output_kept t" and printed: "printed_kept t"
    and ro: "sn_read_only (tp_session t) = cn_read_only cn" by auto
  have ops: "tp_ops t = concat (map (terminal_op_of (cn_read_only cn)) (tp_taken t))"
    using input_keptD(4) [OF input] by (simp add: ro)
  from input_keptD(1) [OF input] have taken: "prefix (tp_taken t) (received_commands lib t)"
    by (rule append_prefixD)
  then have first: "prefix (tp_ops t) (concat (map (terminal_op_of (cn_read_only cn)) (received_commands lib t)))"
    unfolding ops by (auto simp: prefix_def)
  from output_keptD(1) [OF out] have "prefix (binaries (tp_popped t)) (tp_chunks t)"
    by (simp add: append_prefixD)
  moreover from output_keptD(3) [OF out] have "prefix (binaries (tp_sent t)) (binaries (tp_popped t))"
    by (auto simp: prefix_def)
  ultimately have sent: "prefix (binaries (tp_sent t)) (tp_chunks t)" by (rule prefix_order.trans [rotated])
  have "tp_taken t = received_commands lib t \<and> binaries (tp_sent t) = tp_chunks t" if "drained t"
    using that input_keptD(3) [OF input] output_keptD(2,4) [OF out] by (simp add: drained_def waiting_commands_def)
  moreover from printed have all: "concat (tp_chunks t) @ concat (tp_held t @ tp_lost t) @ tp_unread t = tp_printed t"
    by (simp add: printed_kept_def)
  with sent have "prefix (concat (binaries (tp_sent t))) (tp_printed t)"
    unfolding all [symmetric] by (auto simp: prefix_def)
  moreover from all printed have "concat (tp_chunks t) = tp_printed t" if "tp_ended t = None" "tp_held t = []" "tp_unread t = []"
    using that by (simp add: printed_kept_def)
  ultimately show ?thesis using ops first sent ops_read_only by simp
qed

text \<open>C15: No task outruns another: at any time each of the four channels holds at most its capacity, the
  output that the client's socket has not taken is at most thirteen chunks of bounded size beside the one
  that the terminal's reader holds, however much the terminal prints, and at most thirteen messages received
  wait for the terminal.\<close>

theorem terminal_path_backpressure:
  assumes run: "(path_step lib)\<^sup>*\<^sup>* (fresh_path cn) t" and active: "bridge_active (tp_phase t)"
  shows "path_bounded t
    \<and> length (concat (drop (length (binaries (tp_popped t))) (tp_chunks t)))
        \<le> (BRIDGE_CHANNEL_CAPACITY + 1 + OUTPUT_CHANNEL_CAPACITY) * MAX_BINARY_BYTES
    \<and> (tp_reading t \<and> sn_commands_open (tp_session t) \<longrightarrow>
        length (received_commands lib t) \<le> length (tp_taken t) + INPUT_CHANNEL_CAPACITY + 1 + BRIDGE_CHANNEL_CAPACITY)"
proof -
  from path_run_kept [OF run] have input: "input_kept lib t" and out: "output_kept t" and bounded: "path_bounded t"
    by auto
  let ?waiting = "drop (length (binaries (tp_popped t))) (tp_chunks t)"
  have waiting: "?waiting = binaries (br_outbound (tp_bridge t)) @ chunk_in_hand (tp_phase t) @ sn_output (tp_session t)"
    using output_keptD(2) [OF out active] by (metis append.assoc append_eq_conv_conj binaries_simps(2))
  from binaries_le [of "br_outbound (tp_bridge t)"] chunk_in_hand_le [of "tp_phase t"] bounded
  have count: "length ?waiting \<le> BRIDGE_CHANNEL_CAPACITY + 1 + OUTPUT_CHANNEL_CAPACITY"
    unfolding waiting path_bounded_def by simp
  have "list_all (\<lambda>b. b \<noteq> [] \<and> length b \<le> MAX_BINARY_BYTES) ?waiting"
    using bounded by (auto simp: path_bounded_def list_all_iff dest: in_set_dropD)
  from chunks_le [OF this] count have "length (concat ?waiting) \<le> (BRIDGE_CHANNEL_CAPACITY + 1 + OUTPUT_CHANNEL_CAPACITY) * MAX_BINARY_BYTES"
    by (meson le_trans mult_le_mono1)
  moreover have "length (received_commands lib t) \<le> length (tp_taken t) + INPUT_CHANNEL_CAPACITY + 1 + BRIDGE_CHANNEL_CAPACITY"
    if "tp_reading t" "sn_commands_open (tp_session t)"
    using arg_cong [OF input_keptD(3) [OF input active that(2,1)], of length] waiting_commands_le [of lib t] bounded
    by (simp add: path_bounded_def)
  ultimately show ?thesis using bounded by simp
qed

section \<open>A run\<close>

text \<open>The client types a byte, the terminal prints one.\<close>

definition demo_at ::
  "ws_message list \<Rightarrow> inbound list \<Rightarrow> session_command list \<Rightarrow> session_command list \<Rightarrow> bytes list \<Rightarrow> bytes list \<Rightarrow>
   ws_message list \<Rightarrow> ws_message list \<Rightarrow> terminal_path" where
  "demo_at received inb cmds taken chunks outp outb sent =
     \<lparr>tp_inbound = inb, tp_bridge = \<lparr>br_session = (new_session demo_connecting)\<lparr>sn_commands := cmds, sn_output := outp\<rparr>,
        br_outbound = outb, br_stop_input = False\<rparr>, tp_phase = BridgeIdle, tp_reading = True, tp_sinking = True,
      tp_cancelled = False, tp_received = received, tp_taken = taken,
      tp_ops = concat (map (terminal_op_of False) taken), tp_printed = concat chunks, tp_unread = [], tp_hung = False,
      tp_held = [], tp_chunks = chunks, tp_lost = [], tp_ended = None, tp_stopping = False, tp_popped = sent, tp_sent = sent\<rparr>"

definition demo_turn :: "inbound_ready \<Rightarrow> bridge_poll" where
  "demo_turn i = demo_bridge_poll\<lparr>bp_inbound := i, bp_send := RaceSent\<rparr>"

lemma demo_turn_simps [simp]:
  "bp_cancelled (demo_turn i) = False" "bp_inbound (demo_turn i) = i" "bp_wait (demo_turn i) = WaitPending"
  "bp_closed (demo_turn i) = None" "bp_send (demo_turn i) = RaceSent"
  by (simp_all add: demo_turn_def demo_bridge_poll_def)

lemmas demo_path_simps = demo_at_def new_session_def demo_connecting_def

abbreviation demo_typed :: ws_message where "demo_typed \<equiv> WsBinary ''l''"

abbreviation demo_path :: terminal_path where
  "demo_path \<equiv> demo_at [demo_typed] [] [] [Input ''l''] [''a''] [] [] [WsBinary ''a'']"

lemma demo_path_run:
  "(path_step plain_json_lib)\<^sup>*\<^sup>* (fresh_path demo_connecting)
     demo_path"
proof -
  let ?step = "path_step plain_json_lib"
  have first: "fresh_path demo_connecting = demo_at [] [] [] [] [] [] [] []"
    by (simp add: fresh_path_def path_new_def demo_path_simps)
  have s1: "?step (demo_at [] [] [] [] [] [] [] []) (demo_at [demo_typed] [InboundMessage demo_typed] [] [] [] [] [] [])"
    using path_step.socket_reads [of "demo_at [] [] [] [] [] [] [] []" "SocketMessage demo_typed True"
      "[InboundMessage demo_typed]" "[]" False True plain_json_lib]
    by (simp add: demo_path_simps reader_turn_def arriving_def on_outbound_def BRIDGE_CHANNEL_CAPACITY_def)
  have s2: "?step (demo_at [demo_typed] [InboundMessage demo_typed] [] [] [] [] [] []) (demo_at [demo_typed] [] [Input ''l''] [] [] [] [] [])"
    using path_step.bridge_turns [of "demo_at [demo_typed] [InboundMessage demo_typed] [] [] [] [] [] []"
      "demo_turn (InboundItem (InboundMessage demo_typed))" plain_json_lib TurnNext
      "tp_bridge (demo_at [demo_typed] [] [Input ''l''] [] [] [] [] [])"]
    by (simp add: demo_path_simps polls_def next_inbound_def bridge_turn_def handle_client_message_def phase_after_def
      decode_client_binary_def check_binary_len_def fail_if_def and_then_def MAX_BINARY_BYTES_def session_write_def
      send_command_def await_command_def resolve_session_operation_def INPUT_CHANNEL_CAPACITY_def BRIDGE_CHANNEL_CAPACITY_def)
  have s3: "?step (demo_at [demo_typed] [] [Input ''l''] [] [] [] [] []) (demo_at [demo_typed] [] [] [Input ''l''] [] [] [] [])"
    using path_step.terminal_writes [of "demo_at [demo_typed] [] [Input ''l''] [] [] [] [] []" "Input ''l''" "[]" IoDone
      "[TermWrite ''l'']" True plain_json_lib]
    by (simp add: demo_path_simps writer_turn_def on_session_def)
  let ?t = "demo_at [demo_typed] [] [] [Input ''l''] [] [] [] []"
  have s4a: "?step ?t (?t\<lparr>tp_printed := ''a'', tp_unread := ''a''\<rparr>)"
    using path_step.terminal_prints [of ?t plain_json_lib "''a''"] by (simp add: demo_path_simps)
  have s4b: "?step (?t\<lparr>tp_printed := ''a'', tp_unread := ''a''\<rparr>) (?t\<lparr>tp_printed := ''a'', tp_held := [''a'']\<rparr>)"
    using path_step.terminal_reads [of "?t\<lparr>tp_printed := ''a'', tp_unread := ''a''\<rparr>" "''a''" "[]" plain_json_lib]
    by (simp add: demo_path_simps MAX_BINARY_BYTES_def)
  have s4: "?step (?t\<lparr>tp_printed := ''a'', tp_held := [''a'']\<rparr>) (demo_at [demo_typed] [] [] [Input ''l''] [''a''] [''a''] [] [])"
    using path_step.terminal_hands_over [of "?t\<lparr>tp_printed := ''a'', tp_held := [''a'']\<rparr>" "''a''" SendDone "[''a'']" "[]" None
      plain_json_lib]
    by (simp add: demo_path_simps on_session_def hand_turn_def OUTPUT_CHANNEL_CAPACITY_def)
  have s5: "?step (demo_at [demo_typed] [] [] [Input ''l''] [''a''] [''a''] [] []) (demo_at [demo_typed] [] [] [Input ''l''] [''a''] [] [WsBinary ''a''] [])"
    using path_step.bridge_turns [of "demo_at [demo_typed] [] [] [Input ''l''] [''a''] [''a''] [] []"
      "demo_turn InboundEmpty" plain_json_lib TurnNext
      "tp_bridge (demo_at [demo_typed] [] [] [Input ''l''] [''a''] [] [WsBinary ''a''] [])"]
    by (simp add: demo_path_simps polls_def next_inbound_def bridge_turn_def session_read_def forward_output_def phase_after_def
      decode_server_binary_def check_binary_len_def fail_if_def and_then_def MAX_BINARY_BYTES_def BRIDGE_CHANNEL_CAPACITY_def)
  have s6: "?step (demo_at [demo_typed] [] [] [Input ''l''] [''a''] [] [WsBinary ''a''] []) demo_path"
    using path_step.socket_writes [of "demo_at [demo_typed] [] [] [Input ''l''] [''a''] [] [WsBinary ''a''] []" "WsBinary ''a''" "[]" True
      "[WsBinary ''a'']" False True plain_json_lib]
    by (simp add: demo_path_simps sink_turn_def on_outbound_def)
  show ?thesis unfolding first
    by (rule converse_rtranclp_into_rtranclp, fact)+ (rule rtranclp.rtrancl_refl)
qed

theorem terminal_path_faithful_witness:
  "concat (map (terminal_op_of (cn_read_only demo_connecting))
      (received_commands plain_json_lib demo_path)) = [TermWrite ''l'']
    \<and> binaries [WsBinary ''a''] = [''a'']"
proof -
  have "drained demo_path"
    by (simp add: drained_def demo_path_simps)
  moreover have "tp_ops demo_path = [TermWrite ''l'']" "tp_sent demo_path = [WsBinary ''a'']" "tp_chunks demo_path = [''a'']"
    by (simp_all add: demo_at_def)
  ultimately show ?thesis using terminal_path_faithful [OF demo_path_run] by metis
qed

theorem terminal_path_backpressure_witness:
  "path_bounded demo_path"
proof -
  have "bridge_active (tp_phase demo_path)"
    by (simp add: demo_at_def)
  from terminal_path_backpressure [OF demo_path_run this] show ?thesis by blast
qed

end
