(* ===== verification/Terminal_End.thy ===== *)
theory Terminal_End
  imports Terminal_Path
begin

text \<open>
  How a terminal's path ends: what the client has been given when the bridge ends with the final state of
  its session, from which \<open>finish_bridge\<close> tells the exit status. Lemmas: the final state is the session's
  own and is told only after all output that the terminal's reader handed over, unless the client asked
  to close or sent input that was refused because the terminal's writer was gone; and what was printed
  besides is lost only when the supervisor stopped the reader (\<open>run_supervisor\<close> in \<open>session.rs\<close>, which does so
  as soon as it has seen the child exit) or a read failed. Runs show that both losses happen.
\<close>

section \<open>The turn that ends with the session\<close>

definition asks_close :: "json_lib \<Rightarrow> ws_message \<Rightarrow> bool" where
  "asks_close lib m = (case m of WsText w \<Rightarrow> decode_client_control lib w = Inr ClientClose | _ \<Rightarrow> False)"

lemma validate_resize_error: "validate_resize z = Inl e \<Longrightarrow> e \<noteq> SessionIsClosed"
  by (cases "resize_new (cols z) (rows z)") (auto simp: validate_resize_def)

lemma write_closed:
  "await_command w (Input b) (session_write b s) = (Some (Inl SessionIsClosed), s') \<Longrightarrow> w = WaitPending \<Longrightarrow>
   \<not> sn_commands_open s"
  by (auto simp: session_write_def send_command_def await_command_def split: if_splits)

lemma resize_closed:
  "await_command w (ResizeTo z) (session_resize z s) = (Some (Inl SessionIsClosed), s') \<Longrightarrow> w = WaitPending \<Longrightarrow>
   \<not> sn_commands_open s"
  using validate_resize_error [of z]
  by (auto simp: session_resize_def send_command_def await_command_def split: if_splits sum.splits)

lemma resolved_closed:
  "resolve_session_operation p r = Some (Inr (Some c)) \<Longrightarrow>
   r = Some (Inl SessionIsClosed) \<and> bp_wait p \<noteq> WaitCancelled \<and> bp_closed p = Some (Inr c)"
  by (auto simp: resolve_session_operation_def split: option.splits sum.splits if_splits)

lemma handle_client_message_final: "handle_client_message lib p m s = (r, s', stop) \<Longrightarrow> sn_final s' = sn_final s"
  using await_write [of "bp_wait p" _ s] await_resize [of "bp_wait p" _ s]
  by (fastforce simp: handle_client_message_def session_request_def
    split: ws_message.splits sum.splits client_frame.splits client_control.splits prod.splits if_splits)

lemma handle_client_message_closed:
  assumes "handle_client_message lib p m s = (Some (Inr (Some c)), s', stop)"
    "bp_wait p = WaitPending \<or> bp_wait p = WaitCancelled"
  shows "bp_closed p = Some (Inr c)
    \<and> (asks_close lib m \<or> \<not> sn_commands_open s \<and> length (message_commands lib m) = 1 \<and> sn_commands s' = sn_commands s)"
proof (cases m)
  case (WsBinary b)
  with assms decode_client_binary_cases [of b] obtain r where
    r: "await_command (bp_wait p) (Input b) (session_write b s) = (r, s')" "resolve_session_operation p r = Some (Inr (Some c))"
    by (auto simp: handle_client_message_def split: prod.splits)
  from resolved_closed [OF r(2)] assms(2) have "bp_wait p = WaitPending" "bp_closed p = Some (Inr c)"
    and res: "r = Some (Inl SessionIsClosed)" by auto
  with write_closed [OF r(1) [unfolded res]] await_write [OF r(1)] WsBinary show ?thesis
    by (simp add: message_commands_def)
next
  case (WsText w)
  show ?thesis
  proof (cases "decode_client_control lib w")
    case (Inr control)
    show ?thesis
    proof (cases control)
      case (ClientResize z)
      with assms WsText Inr obtain r where
        r: "await_command (bp_wait p) (ResizeTo z) (session_resize z s) = (r, s')" "resolve_session_operation p r = Some (Inr (Some c))"
        by (auto simp: handle_client_message_def split: prod.splits)
      from resolved_closed [OF r(2)] assms(2) have "bp_wait p = WaitPending" "bp_closed p = Some (Inr c)"
        and res: "r = Some (Inl SessionIsClosed)" by auto
      with resize_closed [OF r(1) [unfolded res]] await_resize [OF r(1)] WsText Inr ClientResize show ?thesis
        by (simp add: message_commands_def)
    qed (use assms WsText Inr in \<open>auto simp: handle_client_message_def asks_close_def split: if_splits option.splits sum.splits\<close>)
  qed (use assms WsText in \<open>auto simp: handle_client_message_def\<close>)
qed (use assms in \<open>auto simp: handle_client_message_def\<close>)

lemma bridge_turn_final:
  assumes "bridge_turn lib p br = (tn, br')"
  shows "sn_final (br_session br') = sn_final (br_session br)"
  using assms
proof (cases rule: bridge_turn_cases)
  case (chunk b bs)
  with forward_output_result [OF chunk(2)] show ?thesis by simp
next
  case (message m r s' stop)
  with handle_client_message_final [OF message(1)] show ?thesis by simp
qed simp

lemma forward_output_never_terminal: "forward_output p b br \<noteq> (TurnEnds (Terminal c), br')"
  by (auto simp: forward_output_def split: sum.splits server_frame.splits send_race.splits)

lemma bridge_turn_terminal:
  assumes turn: "bridge_turn lib p br = (TurnEnds (Terminal c), br')"
    and wait: "bp_wait p = WaitPending \<or> bp_wait p = WaitCancelled"
  shows "bp_closed p = Some (Inr c) \<and> br_outbound br' = br_outbound br
    \<and> (bp_inbound p = InboundEmpty \<and> sn_output (br_session br) = [] \<and> \<not> sn_output_open (br_session br)
       \<or> (\<exists>m. bp_inbound p = InboundItem (InboundMessage m) \<and> (asks_close lib m
            \<or> \<not> sn_commands_open (br_session br) \<and> length (message_commands lib m) = 1
              \<and> sn_commands (br_session br') = sn_commands (br_session br))))"
proof (cases "bp_inbound p")
  case InboundEmpty
  show ?thesis
  proof (cases "sn_output (br_session br)")
    case Nil
    with turn InboundEmpty show ?thesis
      by (auto simp: bridge_turn_def session_read_def Let_def split: if_splits option.splits sum.splits)
  next
    case (Cons b bs)
    with turn InboundEmpty forward_output_never_terminal [of p b] show ?thesis
      by (auto simp: bridge_turn_def session_read_def Let_def split: if_splits)
  qed
next
  case (InboundItem i)
  show ?thesis
  proof (cases i)
    case (InboundMessage m)
    obtain r s' stop where h: "handle_client_message lib p m (br_session br) = (r, s', stop)" by (metis prod_cases3)
    with turn InboundItem InboundMessage have r: "r = Some (Inr (Some c))" "br_session br' = s'" "br_outbound br' = br_outbound br"
      by (auto simp: bridge_turn_def Let_def split: if_splits option.splits sum.splits)
    from handle_client_message_closed [OF h [unfolded r(1)] wait] InboundItem InboundMessage r(2,3) show ?thesis by auto
  qed (use turn InboundItem in \<open>auto simp: bridge_turn_def Let_def split: if_splits\<close>)
qed (use turn in \<open>auto simp: bridge_turn_def Let_def split: if_splits\<close>)

section \<open>What the client was given\<close>

definition inbound_messages :: "inbound \<Rightarrow> ws_message list" where
  "inbound_messages i = (case i of InboundMessage m \<Rightarrow> [m] | InboundFailure _ \<Rightarrow> [])"

definition pending_messages :: "terminal_path \<Rightarrow> ws_message list" where
  "pending_messages t =
     (case tp_phase t of BridgeRetries (InboundItem i) \<Rightarrow> inbound_messages i | _ \<Rightarrow> [])
     @ concat (map inbound_messages (tp_inbound t))"

text \<open>What waits in front of the bridge was received, and has not been counted among what the queue got.\<close>

definition pending_kept :: "json_lib \<Rightarrow> terminal_path \<Rightarrow> bool" where
  "pending_kept lib t \<longleftrightarrow> (bridge_active (tp_phase t) \<longrightarrow>
     length (tp_taken t) + length (sn_commands (tp_session t)) + length (waiting_commands lib t)
       \<le> length (received_commands lib t)
     \<and> set (pending_messages t) \<subseteq> set (tp_received t))"

definition ending_told :: "json_lib \<Rightarrow> terminal_path \<Rightarrow> session_closed \<Rightarrow> bool" where
  "ending_told lib t c \<longleftrightarrow> sn_final (tp_session t) = Some c
     \<and> (\<not> sn_output_open (tp_session t) \<and> tp_ended t \<noteq> Some ReceiverGone
          \<and> binaries (tp_popped t @ br_outbound (tp_bridge t)) = tp_chunks t
        \<or> \<not> sn_commands_open (tp_session t)
          \<and> length (tp_taken t) + length (sn_commands (tp_session t)) < length (received_commands lib t)
        \<or> (\<exists>m \<in> set (tp_received t). asks_close lib m))"

definition ending_kept :: "json_lib \<Rightarrow> terminal_path \<Rightarrow> bool" where
  "ending_kept lib t \<longleftrightarrow> (\<forall>c. tp_phase t = BridgeOver (Terminal c) \<longrightarrow> ending_told lib t c)"

lemma reader_turn_messages:
  "reader_turn e = (items, pongs, cancels, on) \<Longrightarrow> set (concat (map inbound_messages items)) \<subseteq> set (arriving e)"
  by (auto simp: reader_turn_def arriving_def inbound_messages_def split: socket_event.splits ws_message.splits if_splits)

lemma pending_kept_frame:
  assumes kept: "pending_kept lib t" and same: "tp_phase t' = tp_phase t" "tp_inbound t' = tp_inbound t" "tp_received t' = tp_received t"
    and fewer: "length (tp_taken t') + length (sn_commands (tp_session t')) \<le> length (tp_taken t) + length (sn_commands (tp_session t))"
  shows "pending_kept lib t'"
  using kept fewer
  by (auto simp: pending_kept_def waiting_commands_def received_commands_def pending_messages_def same)

text \<open>A turn on an item in front of the bridge: it was received, and so was what it still has in hand.\<close>

lemma turn_pending_kept:
  assumes turn: "bridge_turn lib p (tp_bridge t) = (tn, br)" and wait: "bp_wait p = WaitPending \<or> bp_wait p = WaitCancelled"
    and front: "waiting_commands lib t = poll_commands lib p @ concat (map (inbound_commands lib) rest)"
      "pending_messages t = (case bp_inbound p of InboundItem i \<Rightarrow> inbound_messages i | _ \<Rightarrow> []) @ concat (map inbound_messages rest)"
    and kept: "pending_kept lib t" and active: "bridge_active (tp_phase t)"
    and after: "tp_bridge t' = br" "tp_phase t' = phase_after tn p (tp_bridge t)" "bridge_active (tp_phase t') \<Longrightarrow> tp_inbound t' = rest"
    and same: "tp_taken t' = tp_taken t" "tp_received t' = tp_received t"
  shows "pending_kept lib t'"
proof -
  have "length (tp_taken t') + length (sn_commands (tp_session t')) + length (waiting_commands lib t')
        \<le> length (received_commands lib t') \<and> set (pending_messages t') \<subseteq> set (tp_received t')"
    if on: "bridge_active (tp_phase t')"
  proof
    have "sn_commands (tp_session t') @ waiting_commands lib t' = sn_commands (tp_session t) @ waiting_commands lib t"
      using bridge_turn_hands(2) [OF turn wait] on after(3) [OF on] after(1,2) front(1)
      by (simp add: waiting_commands_def)
    from arg_cong [OF this, of length] kept active show "length (tp_taken t') + length (sn_commands (tp_session t')) + length (waiting_commands lib t')
        \<le> length (received_commands lib t')"
      by (simp add: pending_kept_def received_commands_def same)
    have "set (pending_messages t') \<subseteq> set (pending_messages t)"
      using on after(3) [OF on] front(2)
      by (auto simp: pending_messages_def after(2) phase_after_def split: turn.splits if_splits list.splits inbound_ready.splits)
    with kept active show "set (pending_messages t') \<subseteq> set (tp_received t')" by (auto simp: pending_kept_def same)
  qed
  then show ?thesis by (simp add: pending_kept_def)
qed

lemma next_inbound_messages:
  "bp_inbound p = next_inbound t \<Longrightarrow>
    concat (map inbound_messages (tp_inbound t))
      = (case bp_inbound p of InboundItem i \<Rightarrow> inbound_messages i | _ \<Rightarrow> []) @ concat (map inbound_messages (tl (tp_inbound t)))"
  by (cases "tp_inbound t") (auto simp: next_inbound_def)

lemma path_step_pending: "path_step lib t t' \<Longrightarrow> pending_kept lib t \<Longrightarrow> pending_kept lib t'"
proof (induction rule: path_step.cases)
  case (socket_reads t e items pongs cancels on)
  then have kept: "pending_kept lib t" and read: "reader_turn e = (items, pongs, cancels, on)" by simp_all
  from prefix_length_le [OF reader_turn_commands(1) [OF read, of lib]] reader_turn_messages [OF read] kept
  show ?case unfolding socket_reads(2)
    by (auto simp: pending_kept_def pending_messages_def path_updates)
next
  case (bridge_turns t p tn br)
  then have phase: "tp_phase t = BridgeIdle" by simp
  from bridge_turns have over: "bp_cancelled p \<Longrightarrow> \<not> bridge_active (phase_after tn p (tp_bridge t))"
    by (auto simp: bridge_turn_def phase_after_def Let_def)
  show ?case unfolding bridge_turns(2)
    by (rule turn_pending_kept [where t = t and p = p and tn = tn and br = br and rest = "tl (tp_inbound t)"])
      (use bridge_turns next_inbound_commands [of p t lib] next_inbound_messages [of p t] over in
        \<open>auto simp: waiting_commands_def pending_messages_def polls_def\<close>)
next
  case (bridge_retries t i p tn br)
  show ?case unfolding bridge_retries(2)
    by (rule turn_pending_kept [where t = t and p = p and tn = tn and br = br and rest = "tp_inbound t"])
      (use bridge_retries retried_commands [of p i lib] in
        \<open>auto simp: waiting_commands_def pending_messages_def polls_def\<close>)
next
  case (bridge_sends t b p tn br)
  then have session: "br_session br = tp_session t" by (auto dest: forward_output_result)
  from bridge_sends show ?case unfolding bridge_sends(2)
    by (auto simp: pending_kept_def waiting_commands_def received_commands_def pending_messages_def session split: turn.splits)
next
  case (terminal_writes t cmd cmds ans ops on)
  then have kept: "pending_kept lib t" and queue: "sn_commands (tp_session t) = cmd # cmds" by simp_all
  show ?case unfolding terminal_writes(2)
    by (rule pending_kept_frame [OF kept]) (simp_all add: on_session_def queue)
qed (auto simp: pending_kept_def pending_messages_def path_updates)

text \<open>What has been said of the ending stays true, whatever the other tasks still do.\<close>

lemma turn_ending_kept:
  assumes turn: "bridge_turn lib p (tp_bridge t) = (tn, br)" and polls: "polls t p"
    and front: "waiting_commands lib t = poll_commands lib p @ concat (map (inbound_commands lib) rest)"
      "pending_messages t = (case bp_inbound p of InboundItem i \<Rightarrow> inbound_messages i | _ \<Rightarrow> []) @ concat (map inbound_messages rest)"
    and kept: "output_kept t" "pending_kept lib t" "printed_kept t" and active: "bridge_active (tp_phase t)" "chunk_in_hand (tp_phase t) = []"
    and after: "tp_bridge t' = br" "tp_phase t' = phase_after tn p (tp_bridge t)"
    and same: "tp_taken t' = tp_taken t" "tp_received t' = tp_received t" "tp_popped t' = tp_popped t" "tp_chunks t' = tp_chunks t"
      "tp_ended t' = tp_ended t"
  shows "ending_kept lib t'"
proof -
  from polls have wait: "bp_wait p = WaitPending \<or> bp_wait p = WaitCancelled" by (auto simp: polls_def)
  have "ending_told lib t' c" if over: "tp_phase t' = BridgeOver (Terminal c)" for c
  proof -
    from over after(2) have "tn = TurnEnds (Terminal c)"
      by (auto simp: phase_after_def split: turn.splits if_splits list.splits)
    note ends = bridge_turn_terminal [OF turn [unfolded this] wait]
    from ends have closed: "bp_closed p = Some (Inr c)" and out: "br_outbound br = br_outbound (tp_bridge t)" by simp_all
    from bridge_turn_kept [OF turn wait] have queue: "queue_kept (tp_session t) (tp_session t')" by (simp add: after)
    from closed polls bridge_turn_final [OF turn] have final: "sn_final (tp_session t') = Some c"
      by (simp add: polls_def after)
    from ends consider
        (read) "sn_output (tp_session t) = []" "\<not> sn_output_open (tp_session t)"
      | (message) m where "bp_inbound p = InboundItem (InboundMessage m)" "asks_close lib m \<or> \<not> sn_commands_open (tp_session t)
          \<and> length (message_commands lib m) = 1 \<and> sn_commands (tp_session t') = sn_commands (tp_session t)"
      by (auto simp: after)
    then show ?thesis
    proof cases
      case read
      have "tp_ended t \<noteq> Some ReceiverGone" using kept(3) active(1) by (auto simp: printed_kept_def)
      with read output_keptD(2) [OF kept(1) active(1)] active(2) out queue final show ?thesis
        by (simp add: ending_told_def same after queue_kept_def)
    next
      case (message m)
      with kept(2) active(1) front have "m \<in> set (tp_received t)"
        "length (tp_taken t) + length (sn_commands (tp_session t)) + length (message_commands lib m) \<le> length (received_commands lib t)"
        by (auto simp: pending_kept_def inbound_messages_def poll_commands_def)
      with message(2) queue final show ?thesis
        by (auto simp: ending_told_def received_commands_def same queue_kept_def)
    qed
  qed
  then show ?thesis by (simp add: ending_kept_def)
qed

lemma path_step_ending:
  "path_step lib t t' \<Longrightarrow> output_kept t \<Longrightarrow> printed_kept t \<Longrightarrow> pending_kept lib t \<Longrightarrow> ending_kept lib t \<Longrightarrow>
   ending_kept lib t'"
proof (induction rule: path_step.cases)
  case (socket_reads t e items pongs cancels on)
  then have kept: "ending_kept lib t" and pongs: "binaries pongs = []" by (auto dest: reader_turn_commands(3))
  from kept show ?case unfolding socket_reads(2)
    by (auto simp: ending_kept_def ending_told_def path_updates pongs)
next
  case (bridge_turns t p tn br)
  then have phase: "tp_phase t = BridgeIdle" by simp
  show ?case unfolding bridge_turns(2)
    by (rule turn_ending_kept [where t = t and p = p and tn = tn and br = br and rest = "tl (tp_inbound t)"])
      (use bridge_turns next_inbound_commands [of p t lib] next_inbound_messages [of p t] in
        \<open>simp_all add: waiting_commands_def pending_messages_def\<close>)
next
  case (bridge_retries t i p tn br)
  show ?case unfolding bridge_retries(2)
    by (rule turn_ending_kept [where t = t and p = p and tn = tn and br = br and rest = "tp_inbound t"])
      (use bridge_retries retried_commands [of p i lib] in \<open>simp_all add: waiting_commands_def pending_messages_def\<close>)
next
  case (bridge_sends t b p tn br)
  then have "tn \<noteq> TurnEnds (Terminal c)" for c using forward_output_never_terminal by metis
  then show ?case unfolding bridge_sends(2) by (auto simp: ending_kept_def split: turn.splits)
next
  case (terminal_writes t cmd cmds ans ops on)
  then have kept: "ending_kept lib t" and queue: "sn_commands_open (tp_session t)" by simp_all
  from kept show ?case unfolding terminal_writes(2)
    by (auto simp: ending_kept_def ending_told_def path_updates queue)
next
  case (socket_writes t m ms ok sent cancels on)
  then have kept: "ending_kept lib t" and queue: "br_outbound (tp_bridge t) = m # ms" by simp_all
  from kept show ?case unfolding socket_writes(2)
    by (auto simp: ending_kept_def ending_told_def path_updates queue)
next
  case (terminal_hands_over t b ans handed lost ended)
  then have kept: "ending_kept lib t" and reading: "sn_output_open (tp_session t)" by (simp_all add: printed_kept_def)
  from kept show ?case unfolding terminal_hands_over(2)
    by (auto simp: ending_kept_def ending_told_def path_updates reading)
next
  case (terminal_reader_ends t ended)
  then have kept: "ending_kept lib t" and reading: "sn_output_open (tp_session t)" by (simp_all add: printed_kept_def)
  from kept show ?case unfolding terminal_reader_ends(2)
    by (auto simp: ending_kept_def ending_told_def path_updates reading)
qed (auto simp: ending_kept_def ending_told_def path_updates)

lemma path_run_ending:
  "(path_step lib)\<^sup>*\<^sup>* (fresh_path cn) t \<Longrightarrow> pending_kept lib t \<and> ending_kept lib t"
proof (induction rule: rtranclp_induct)
  case base
  then show ?case
    by (simp add: fresh_path_def path_new_def new_session_def pending_kept_def ending_kept_def pending_messages_def
      waiting_commands_def received_commands_def)
next
  case (step t t')
  from path_run_kept [OF step(1)] step show ?case
    by (simp add: path_step_pending [OF step(2)] path_step_ending [OF step(2)])
qed

text \<open>C14: A bridge that ends with the final state of its session, from which the exit status is told, ends
  with the state the session has, and has by then handed over all output that the terminal's reader handed
  to the session, unchanged and in order, unless the client asked to close or some of its input was refused
  because the terminal's writer was gone. When the reader saw the terminal's end, this is everything the
  terminal printed. When a read failed, what it had not read by then is missing; and when the supervisor
  had stopped it, which happens as soon as the child's exit is seen, what is missing is at most the one
  chunk it held, in front of what it had not read. Nothing else is.\<close>

theorem exit_told_after_output:
  assumes run: "(path_step lib)\<^sup>*\<^sup>* (fresh_path cn) t" and over: "tp_phase t = BridgeOver (Terminal c)"
    and silent: "\<not> (\<exists>m \<in> set (tp_received t). asks_close lib m)"
    and accepted: "tp_taken t @ sn_commands (tp_session t) = received_commands lib t"
  shows "sn_final (tp_session t) = Some c \<and> \<not> sn_output_open (tp_session t)
    \<and> binaries (tp_popped t @ br_outbound (tp_bridge t)) = tp_chunks t
    \<and> (tp_sinking t \<longrightarrow> tp_sent t = tp_popped t)
    \<and> (\<exists>lost. length lost \<le> 1
        \<and> concat (binaries (tp_popped t @ br_outbound (tp_bridge t))) @ concat lost @ tp_unread t = tp_printed t
        \<and> (tp_ended t = Some EndOfTerminal \<and> lost = [] \<and> tp_unread t = []
           \<or> tp_ended t = Some ReadFailed \<and> lost = []
           \<or> tp_ended t = Some ReaderStopped \<and> tp_stopping t))"
proof -
  from path_run_ending [OF run] over have told: "ending_told lib t c" by (simp add: ending_kept_def)
  from accepted have "length (tp_taken t) + length (sn_commands (tp_session t)) = length (received_commands lib t)"
    by (metis length_append)
  with told silent have ends: "sn_final (tp_session t) = Some c" "\<not> sn_output_open (tp_session t)"
    "tp_ended t \<noteq> Some ReceiverGone" "binaries (tp_popped t @ br_outbound (tp_bridge t)) = tp_chunks t"
    by (auto simp: ending_told_def)
  from path_run_kept [OF run] have out: "output_kept t" and printed: "printed_kept t" by auto
  from printed have all: "concat (tp_chunks t) @ concat (tp_held t @ tp_lost t) @ tp_unread t = tp_printed t"
    and one: "length (tp_held t @ tp_lost t) \<le> 1"
    by (simp_all add: printed_kept_def)
  from printed ends(2,3) obtain e where e: "tp_ended t = Some e" "e \<noteq> ReceiverGone" by (auto simp: printed_kept_def)
  with printed have "e = EndOfTerminal \<and> tp_held t @ tp_lost t = [] \<and> tp_unread t = []
      \<or> e = ReadFailed \<and> tp_held t @ tp_lost t = [] \<or> e = ReaderStopped \<and> tp_stopping t"
    by (cases e) (auto simp: printed_kept_def)
  with ends output_keptD(4) [OF out] all one e(1) show ?thesis
    by (intro conjI exI [of _ "tp_held t @ tp_lost t"]) auto
qed

text \<open>The exception for input is real: input that arrives after the terminal's writer ended makes the bridge end with
  the final state, whatever output is still queued.\<close>

lemma late_input_drops_output:
  "\<not> bp_cancelled p \<Longrightarrow> bp_inbound p = InboundItem (InboundMessage (WsBinary b)) \<Longrightarrow> length b \<le> MAX_BINARY_BYTES \<Longrightarrow>
   \<not> sn_commands_open (br_session br) \<Longrightarrow> \<not> sn_read_only (br_session br) \<Longrightarrow> bp_wait p = WaitPending \<Longrightarrow>
   bp_closed p = Some (Inr c) \<Longrightarrow> bridge_turn lib p br = (TurnEnds (Terminal c), br)"
  by (cases br) (simp add: bridge_turn_def handle_client_message_def decode_client_binary_def check_binary_len_def fail_if_def
    and_then_def session_write_def send_command_def await_command_def resolve_session_operation_def)

text \<open>The run of \<open>demo_path_run\<close> goes on: the child exits, and the bridge tells so. What the terminal still
  printed is unread, held or lost.\<close>

definition demo_final :: session_closed where
  "demo_final = \<lparr>sc_state = SessionClosed, sc_reason = CloseChildExited, sc_outcome = None\<rparr>"

definition demo_ending ::
  "bytes \<Rightarrow> bytes \<Rightarrow> bytes list \<Rightarrow> bytes list \<Rightarrow> bool \<Rightarrow> bool \<Rightarrow> read_end option \<Rightarrow> bool \<Rightarrow> session_closed option \<Rightarrow>
   bridge_phase \<Rightarrow> terminal_path" where
  "demo_ending printed unread hand lost hung stopping ended writing fin ph = demo_path\<lparr>tp_bridge := (tp_bridge demo_path)\<lparr>
     br_session := (tp_session demo_path)\<lparr>sn_output_open := (ended = None), sn_commands_open := writing, sn_final := fin\<rparr>\<rparr>,
     tp_phase := ph, tp_printed := printed, tp_unread := unread, tp_held := hand, tp_lost := lost, tp_hung := hung,
     tp_stopping := stopping, tp_ended := ended\<rparr>"

lemmas demo_ending_simps = demo_ending_def demo_path_simps

abbreviation demo_run_step :: "terminal_path \<Rightarrow> terminal_path \<Rightarrow> bool" where
  "demo_run_step \<equiv> path_step plain_json_lib"

text \<open>The end of a session whose reader has ended.\<close>

lemma demo_told:
  "demo_run_step\<^sup>*\<^sup>* (demo_ending printed [] [] lost True True (Some e) True None BridgeIdle)
     (demo_ending printed [] [] lost True True (Some e) False (Some demo_final) (BridgeOver (Terminal demo_final)))"
proof -
  let ?at = "demo_ending printed [] [] lost True True (Some e)"
  have s1: "demo_run_step (?at True None BridgeIdle) (?at False None BridgeIdle)"
    using path_step.terminal_writer_ends [of plain_json_lib "?at True None BridgeIdle"]
    by (simp add: demo_ending_simps on_session_def)
  have s2: "demo_run_step (?at False None BridgeIdle) (?at False (Some demo_final) BridgeIdle)"
    using path_step.session_ends [of "?at False None BridgeIdle" plain_json_lib demo_final]
    by (simp add: demo_ending_simps on_session_def)
  have s3: "demo_run_step (?at False (Some demo_final) BridgeIdle) (?at False (Some demo_final) (BridgeOver (Terminal demo_final)))"
    using path_step.bridge_turns [of "?at False (Some demo_final) BridgeIdle"
      "(demo_turn InboundEmpty)\<lparr>bp_closed := Some (Inr demo_final)\<rparr>" plain_json_lib "TurnEnds (Terminal demo_final)"
      "tp_bridge (?at False (Some demo_final) BridgeIdle)"]
    by (simp add: demo_ending_simps polls_def next_inbound_def bridge_turn_def session_read_def
      phase_after_def BRIDGE_CHANNEL_CAPACITY_def)
  from s1 s2 s3 show ?thesis by (meson converse_rtranclp_into_rtranclp rtranclp.rtrancl_refl)
qed

lemma demo_ended: "demo_run_step\<^sup>*\<^sup>* (fresh_path demo_connecting)
  (demo_ending ''a'' [] [] [] True True (Some EndOfTerminal) False (Some demo_final) (BridgeOver (Terminal demo_final)))"
proof -
  let ?at = "demo_ending ''a'' [] [] []"
  have s1: "demo_run_step demo_path (?at True False None True None BridgeIdle)"
    using path_step.terminal_hangs_up [of plain_json_lib demo_path] by (simp add: demo_ending_simps)
  have s2: "demo_run_step (?at True False None True None BridgeIdle) (?at True False (Some EndOfTerminal) True None BridgeIdle)"
    using path_step.terminal_reader_ends [of "?at True False None True None BridgeIdle" EndOfTerminal plain_json_lib]
    by (simp add: demo_ending_simps on_session_def)
  have s3: "demo_run_step (?at True False (Some EndOfTerminal) True None BridgeIdle)
      (?at True True (Some EndOfTerminal) True None BridgeIdle)"
    using path_step.supervisor_stops [of plain_json_lib "?at True False (Some EndOfTerminal) True None BridgeIdle"]
    by (simp add: demo_ending_simps)
  from demo_path_run s1 s2 s3 have "demo_run_step\<^sup>*\<^sup>* (fresh_path demo_connecting)
      (?at True True (Some EndOfTerminal) True None BridgeIdle)" by (meson rtranclp.rtrancl_into_rtrancl)
  from rtranclp_trans [OF this demo_told] show ?thesis .
qed

text \<open>The loss is real as well: the terminal prints and hangs up, and the supervisor, which has seen the exit,
  stops the reader before it has handed over the last chunk, although the session's channel has room.\<close>

lemma stopped_reader_loses_output:
  "\<exists>t. demo_run_step\<^sup>*\<^sup>* (fresh_path demo_connecting) t \<and> tp_phase t = BridgeOver (Terminal demo_final)
     \<and> \<not> (\<exists>m \<in> set (tp_received t). asks_close plain_json_lib m)
     \<and> tp_taken t @ sn_commands (tp_session t) = received_commands plain_json_lib t
     \<and> tp_printed t = ''ab'' \<and> tp_sent t = [WsBinary ''a''] \<and> br_outbound (tp_bridge t) = [] \<and> tp_lost t = [''b'']"
proof -
  let ?at = "demo_ending ''ab''"
  let ?t = "?at [] [] [''b''] True True (Some ReaderStopped) False (Some demo_final) (BridgeOver (Terminal demo_final))"
  have s1: "demo_run_step demo_path (?at ''b'' [] [] False False None True None BridgeIdle)"
    using path_step.terminal_prints [of demo_path plain_json_lib "''b''"] by (simp add: demo_ending_simps)
  have s2: "demo_run_step (?at ''b'' [] [] False False None True None BridgeIdle) (?at [] [''b''] [] False False None True None BridgeIdle)"
    using path_step.terminal_reads [of "?at ''b'' [] [] False False None True None BridgeIdle" "''b''" "[]" plain_json_lib]
    by (simp add: demo_ending_simps MAX_BINARY_BYTES_def)
  have s3: "demo_run_step (?at [] [''b''] [] False False None True None BridgeIdle) (?at [] [''b''] [] True False None True None BridgeIdle)"
    using path_step.terminal_hangs_up [of plain_json_lib "?at [] [''b''] [] False False None True None BridgeIdle"]
    by (simp add: demo_ending_simps)
  have s4: "demo_run_step (?at [] [''b''] [] True False None True None BridgeIdle) (?at [] [''b''] [] True True None True None BridgeIdle)"
    using path_step.supervisor_stops [of plain_json_lib "?at [] [''b''] [] True False None True None BridgeIdle"]
    by (simp add: demo_ending_simps)
  have s5: "demo_run_step (?at [] [''b''] [] True True None True None BridgeIdle)
      (?at [] [] [''b''] True True (Some ReaderStopped) True None BridgeIdle)"
    using path_step.terminal_hands_over [of "?at [] [''b''] [] True True None True None BridgeIdle" "''b''" SendCancelled "[]" "[''b'']"
      "Some ReaderStopped" plain_json_lib]
    by (simp add: demo_ending_simps on_session_def hand_turn_def)
  from demo_path_run s1 s2 s3 s4 s5 have "demo_run_step\<^sup>*\<^sup>* (fresh_path demo_connecting)
      (?at [] [] [''b''] True True (Some ReaderStopped) True None BridgeIdle)" by (meson rtranclp.rtrancl_into_rtrancl)
  from rtranclp_trans [OF this demo_told] have run: "demo_run_step\<^sup>*\<^sup>* (fresh_path demo_connecting) ?t" .
  moreover have "\<not> (\<exists>m \<in> set (tp_received ?t). asks_close plain_json_lib m)"
    by (simp add: demo_ending_simps asks_close_def)
  moreover have "tp_taken ?t @ sn_commands (tp_session ?t) = received_commands plain_json_lib ?t"
    by (simp add: demo_ending_simps received_commands_def message_commands_def)
  ultimately show ?thesis by (intro exI [of _ ?t]) (simp add: demo_ending_simps)
qed

theorem exit_told_after_output_witness:
  "concat (binaries (tp_popped (demo_ending ''a'' [] [] [] True True (Some EndOfTerminal) False (Some demo_final)
     (BridgeOver (Terminal demo_final))))) = ''a''"
proof -
  let ?t = "demo_ending ''a'' [] [] [] True True (Some EndOfTerminal) False (Some demo_final) (BridgeOver (Terminal demo_final))"
  have parts: "tp_phase ?t = BridgeOver (Terminal demo_final)" "tp_received ?t = [demo_typed]"
    "br_outbound (tp_bridge ?t) = []" "tp_printed ?t = ''a''" "tp_ended ?t = Some EndOfTerminal"
    by (simp_all add: demo_ending_simps)
  have silent: "\<not> (\<exists>m \<in> set (tp_received ?t). asks_close plain_json_lib m)"
    by (simp add: parts asks_close_def)
  have "tp_taken ?t @ sn_commands (tp_session ?t) = received_commands plain_json_lib ?t"
    by (simp add: demo_ending_simps received_commands_def message_commands_def)
  from exit_told_after_output [OF demo_ended parts(1) silent this] show ?thesis
    by (auto simp: parts)
qed

end
