(* ===== verification/Spec2Isabelle.thy ===== *)
theory Spec2Isabelle
  imports Application_Limits Application_Registry Application_Audit Capacity_Spec Terminal_End
begin

text \<open>
  A verification library for ttygate (crate ttygated): a gateway that gives authenticated browsers
  terminals on allowlisted targets, local programs or OpenSSH clients, over WebSockets.

  \<^bold>\<open>How the program works.\<close> \<open>main.rs\<close> reads the configuration (\<open>config.rs\<close>) and starts
  (\<open>startup.rs\<close>): the startup contract, TLS material (\<open>tls.rs\<close>), SSH material (\<open>ssh.rs\<close>), the audit log
  (\<open>audit.rs\<close>), the application, and only then the listener. A request (\<open>server.rs\<close>) passes a middleware
  that needs a working audit log and the allowed origin (\<open>origin.rs\<close>), then authentication (\<open>auth.rs\<close>)
  under a limiter for failures (\<open>rate_limit.rs\<close>). A session request reserves a place (\<open>session.rs\<close>,
  capacity) and puts the reservation into a single-use ticket (\<open>ticket.rs\<close>). The WebSocket
  (\<open>websocket.rs\<close>) redeems the ticket in its first message and starts the session of the reservation
  (\<open>session.rs\<close>, manager): the target is resolved, for SSH with a checked user and a fixed argument list
  (\<open>ssh.rs\<close>), and spawned on a terminal (\<open>pty_backend.rs\<close>). A connecting task admits the client by its
  log (\<open>ssh.rs\<close>, diagnostics), records the start and hands over to the supervisor, which ends the
  session on exit, close or deadline, cleans up its process group, records the end and gives the place
  back. Meanwhile the bridge carries input and output in the frames of \<open>protocol.rs\<close>.

  \<^bold>\<open>Theories\<close>, each importing what it calls:

  \<^item> \<open>Prelude\<close>: results (a sum type whose left side is the error, with the combinators of \<open>Result\<close> and
    \<open>Option\<close>), strings as the bytes of their UTF-8, the ASCII and Unicode predicates the program uses,
    hash maps as association lists, and the interfaces as locales: \<open>kv_store\<close> (the laws of a map,
    interpreted by the hash map), \<open>safety_system\<close> (an invariant that every operation keeps holds after
    every run; interpreted by the tables, stores, logs and automata below) and \<open>sticky_cell\<close> (a value
    written once stays; interpreted by the fail-stop flag, close requests and final states).
  \<^item> \<open>Net_Addr\<close>: parsing and printing of addresses as \<open>core::net\<close> does it.
  \<^item> \<open>Config\<close> (\<open>config.rs\<close>): raw schema, validators, conversion, allowlist, SSH user policy, contract.
  \<^item> \<open>Capacity\<close> (\<open>session.rs\<close>, lease table and reservations; identities of \<open>ticket.rs\<close>), with its abstract
    specification, a bag of places, in \<open>Capacity_Spec\<close>.
  \<^item> \<open>Ticket\<close> (\<open>ticket.rs\<close>), \<open>Auth\<close> (\<open>auth.rs\<close>), \<open>Rate_Limit\<close> (\<open>rate_limit.rs\<close>), \<open>Origin\<close> (\<open>origin.rs\<close>),
    \<open>Protocol\<close> (\<open>protocol.rs\<close>), \<open>Audit_Log\<close> (\<open>audit.rs\<close>), \<open>Tls\<close> (\<open>tls.rs\<close>).
  \<^item> \<open>Pty_Backend\<close> (\<open>pty_backend.rs\<close>), \<open>Ssh_Diagnostics\<close> and \<open>Ssh\<close> (\<open>ssh.rs\<close>).
  \<^item> \<open>Session\<close> (\<open>session.rs\<close>: state machine, connecting task, supervisor, terminal workers, handle), with
    its guarantees in \<open>Session_Safety\<close>; \<open>Session_Manager\<close> (\<open>session.rs\<close>: starting, registry, shutdown).
  \<^item> \<open>Terminal_Path\<close> (\<open>websocket.rs\<close> and \<open>session.rs\<close>): the five tasks between a socket and its terminal,
    interleaved over the four bounded channels they share; how it ends is \<open>Terminal_End\<close>.
  \<^item> \<open>Websocket\<close> and \<open>Websocket_Safety\<close> (\<open>websocket.rs\<close>), \<open>Server\<close> and \<open>Server_Safety\<close> (\<open>server.rs\<close>),
    \<open>Startup\<close> and \<open>Startup_Safety\<close> (\<open>startup.rs\<close>, \<open>healthcheck.rs\<close>, \<open>service_manager.rs\<close>, \<open>main.rs\<close>).
  \<^item> \<open>Ledger\<close>: an abstract specification of all uses of session places, a multiset of stakes that are taken,
    passed on and given back once, and the locale \<open>forward_simulation\<close> of what implements it.
    \<open>Application\<close>: the running program as step relations over one shared \<open>AppState\<close> and its tasks, which
    are session requests (\<open>create_session\<close> in \<open>server.rs\<close>), upgrades (\<open>accept_upgrade\<close> in \<open>websocket.rs\<close>),
    connections and sessions (\<open>session.rs\<close>). \<open>Application_Safety\<close> proves the simulation and interprets the
    locale; \<open>Application_Limits\<close>, \<open>Application_Registry\<close> and \<open>Application_Audit\<close> hold what follows for every
    interleaving; the locale \<open>state_relation\<close> carries a relation of states through all handlers.

  \<^bold>\<open>Correspondence.\<close> A struct is a record, an enum a datatype, and both keep the source's names where HOL
  allows it; a function or method is a definition of the same name that takes the state and returns it
  updated. u8 to u64 and i32 are words of that width, with wrap-around and saturation as in the code;
  usize counts that are bounded by memory are natural numbers; instants and durations are natural
  numbers of nanoseconds. What runs under a mutex is one function of the state. Rust drops a reservation
  where its owner goes out of scope: operations either drop it in the model or return the reservations
  they drop. A panic that the code can reach is None or a constructor of its own.

  What is not the program's own is an argument. Libraries (JSON, TOML, URLs, CIDR, base64, PEM and TLS,
  time formatting, header values, derived decoders) are records of functions; the theorems that need a
  law of one state it as a hypothesis. The answers of the operating system, the random generator and the
  clock are arguments of the operation that asks. A task that waits in a select is a function of the
  list of its wake-ups, each with the answers of that wake-up; a theorem about all lists is a theorem
  about all interleavings with the rest of the program, and a list that ends before the task stands for
  a task that still runs. No other fuel is used: loops over attempts or polls recurse on these lists or
  on the code's own bound (four draws of a token, the digits of a number).

  \<^bold>\<open>Interleaving.\<close> A handler is cut where it waits or holds a reservation between two critical sections: a
  session request while it waits for its body (its client may go away then) and after its reservation,
  an upgrade while it waits for its ticket, after it has redeemed it, and while a connecting task works
  for it, whose refusal it still puts on record; composed again the pieces are the handlers (the lemmas
  \<open>session_request_in_pieces\<close>, \<open>accept_in_pieces\<close> and \<open>refused_connection_in_pieces\<close> of \<open>Application\<close>). Each piece is one step, although it takes several locks one after
  the other: each lock protects a part of the state of its own, and what a piece holds of the others
  is in its local variables. Starting the session of a redeemed ticket is one step, under the read side of the
  admission lock. A connecting task and a supervisor are one step each, at their end: until then they
  change only their own child, and what they record in the audit log is part of that step. A task that never ends has no such step. Close requests of the registry
  and the mark of a shutdown are steps of their own. Places and supervisors are numbered by counters of
  64 bits: the theorems hold as long as at most \<open>2 ^ 64\<close> session requests were given a place. Inside a
  running session the socket's reader and writer, the bridge and the terminal's reader and writer are
  interleaved turn by turn (\<open>path_step\<close>); a turn that finds its channel full waits there with what it holds,
  and no task has to see a cancellation at once. The terminal's reader reads and hands over in two turns,
  and ends for the reasons \<open>read_output\<close> has: the end of the terminal, a failed read, the supervisor's
  cancellation, which comes as soon as the child's exit is seen, or a session handle that is gone; the
  other tasks may end at any time. The final state of the session is set after its workers have ended. The
  path stops with the bridge's loop; its last words are those of \<open>finish_bridge\<close>. The bytes a terminal
  printed, and the end records that could not be made, are ghost state.

  \<^bold>\<open>What the lemmas show\<close>, from the client to the process:

  \<^item> Authority (\<open>Server_Safety\<close>, \<open>Origin\<close>, \<open>Auth\<close>): grants need a working audit log, the one allowed
    origin and an authenticated identity; a cookie header authenticates exactly as stated, and behind a
    proxy identities come only from trusted peers; every answer to an authority request that is neither a
    grant nor a complaint about its form or about the audit log follows the record of its denial, with two
    named exceptions.
  \<^item> Limits (\<open>Rate_Limit\<close>, \<open>Capacity\<close>, \<open>Capacity_Spec\<close>, \<open>Server_Safety\<close>): allowances per window, waits that
    suffice, session limits under all sequences of operations, refinement of the bag of places.
  \<^item> Tickets (\<open>Ticket\<close>, \<open>Server_Safety\<close>, \<open>Websocket_Safety\<close>): issued only with a place, redeemed once, by
    the identity they were issued to; refused requests and upgrades, those whose connection is refused
    included (\<open>accept_and_connect\<close>), leave no place taken.
  \<^item> Sessions (\<open>Session_Safety\<close>, \<open>Session_Manager\<close>, \<open>Pty_Backend\<close>): a session starts only for an admitted
    client and on record, ends once, by its deadlines, after its process group is gone, and gives its
    place back then; a shutdown that returns leaves nothing running; read-only terminals get no input.
  \<^item> Terminal bytes (\<open>Terminal_Path\<close>, \<open>Terminal_End\<close>, \<open>Websocket_Safety\<close>): under every interleaving both directions are FIFO
    without loss, repetition or reordering before the point where a task ends, a read-only terminal is
    never written to, no task outruns another by more than the channels hold, and the exit status is told
    after all output that the terminal's reader handed over, unless the client closes or sends input that
    is refused by then. Output that the terminal printed last can be missing: the reader drops the chunk it
    holds when the supervisor stops it (\<open>stopped_reader_loses_output\<close>), and only then.
  \<^item> SSH (\<open>Ssh\<close>, \<open>Ssh_Diagnostics\<close>): the exact command line, material checked and rechecked, exactly the
    unencrypted Ed25519 identities are accepted, classification of the client's log independent of how
    it arrives.
  \<^item> Data (\<open>Protocol\<close>, \<open>Config\<close>, \<open>Audit_Log\<close>, \<open>Tls\<close>): decoders and encoders agree, duplicate keys are
    found exactly, parsed configurations are valid and come from the decoded schema field by field, the audit file holds exactly the accepted events,
    files are opened only when they are safe.
  \<^item> Startup (\<open>Startup_Safety\<close>): phases in order, and what holds of every server that serves.
  \<^item> The whole (\<open>Application_Limits\<close>, \<open>Application_Registry\<close>, \<open>Application_Audit\<close>): from a served configuration
    on and for every interleaving, sessions are within the configured limits, each answers one request of
    its own identity and target, every lease has one owner, the registry lists exactly the sessions, after
    a completed shutdown there is none, and in the audit file the sessions on record as started are the
    ended ones, the running ones and those whose end could not be recorded, which while the log works are
    only those with an end that has no time or no line within the size limit.

  \<^bold>\<open>Assumptions stated in theorems.\<close> Generation counters and identifiers are 64 bits wide and wrap; the
  theorems that would fail after a wrap say below how many operations they hold. Hash maps are assumed
  to have one entry per key where a theorem starts from an arbitrary state (\<open>hm_wf\<close>); all operations
  keep this.

  \<^bold>\<open>Not modelled.\<close> The HTTP, WebSocket, TLS and TOML libraries themselves, the routing of paths to
  endpoints, the scheduler beyond the interleavings above, pure pass-through of bytes between a terminal
  and its two worker threads, the joining of finished tasks with its time limits, file
  descriptors' close-on-exec and other attributes, the embedded frontend, tests, packaging and spikes.
\<close>

end
